(* ===== verification/Prelude.thy ===== *)
theory Prelude
  imports Main "HOL-Library.Sublist" "HOL-Library.Word"
begin

text \<open>
  Shared vocabulary of the development.

  \<^item> A Rust \<open>u8\<close> is an Isabelle \<open>char\<close> (an eight-bit value, \<open>of_char\<close> reads it as a
    number), a \<open>Vec<u8>\<close> or \<open>&[u8]\<close> is a \<open>bytes\<close>, and a Rust \<open>String\<close> is the list
    of its UTF-8 bytes. \<open>as_bytes\<close> and \<open>to_string\<close> are therefore the identity.
  \<^item> A Rust \<open>Result<T, E>\<close> is the sum \<open>('e, 't) result\<close>, with \<open>Err\<close> for \<open>Inl\<close> and
    \<open>Ok\<close> for \<open>Inr\<close>.
  \<^item> The collections \<open>bytes_simps\<close> (byte strings, searching, splitting), \<open>parse_simps\<close>
    (decimal numbers) and \<open>wire_simps\<close> (facts about encoded messages) gather the facts
    that the component theories hand to the simplifier.
\<close>

named_theorems bytes_simps
named_theorems parse_simps
named_theorems wire_simps

type_synonym byte = char
type_synonym bytes = "char list"
type_synonym u32 = "32 word"

type_synonym ('e, 'a) result = "'e + 'a"

abbreviation Ok :: "'a \<Rightarrow> ('e, 'a) result" where "Ok \<equiv> Inr"
abbreviation Err :: "'e \<Rightarrow> ('e, 'a) result" where "Err \<equiv> Inl"

abbreviation byte_val :: "byte \<Rightarrow> nat" where "byte_val b \<equiv> of_char b"

section \<open>Control bytes\<close>

definition LF :: byte where "LF = CHR 0x0A"
definition CR :: byte where "CR = CHR 0x0D"

lemma LF_neq_CR [simp]: "LF \<noteq> CR" "CR \<noteq> LF"
  by (simp_all add: LF_def CR_def)

lemma LF_neq_space [simp]: "LF \<noteq> CHR '' ''" "CHR '' '' \<noteq> LF"
  by (simp_all add: LF_def)

lemma CR_neq_space [simp]: "CR \<noteq> CHR '' ''" "CHR '' '' \<noteq> CR"
  by (simp_all add: CR_def)

section \<open>Searching in lists\<close>

text \<open>\<open>iter().position(p)\<close>: the index of the first element that satisfies \<open>p\<close>.\<close>

fun position :: "('a \<Rightarrow> bool) \<Rightarrow> 'a list \<Rightarrow> nat option" where
  "position p [] = None"
| "position p (x # xs) = (if p x then Some 0 else map_option Suc (position p xs))"

lemma position_None_iff: "position p xs = None \<longleftrightarrow> (\<forall>x\<in>set xs. \<not> p x)"
  by (induction xs) auto

lemma position_append [bytes_simps]:
  "position p (xs @ ys) =
     (case position p xs of Some i \<Rightarrow> Some i
      | None \<Rightarrow> map_option (\<lambda>i. length xs + i) (position p ys))"
  by (cases "position p ys"; induction xs) (auto split: option.splits)

lemma position_Some_append: "position p xs = Some i \<Longrightarrow> position p (xs @ ys) = Some i"
  by (simp add: position_append)

lemma position_first [bytes_simps]:
  "(\<forall>x\<in>set xs. \<not> p x) \<Longrightarrow> p y \<Longrightarrow> position p (xs @ y # ys) = Some (length xs)"
  by (induction xs) auto

lemma position_SomeD:
  "position p xs = Some i \<Longrightarrow> i < length xs \<and> p (xs ! i) \<and> (\<forall>x\<in>set (take i xs). \<not> p x)"
  by (induction xs arbitrary: i) (auto split: if_splits)

text \<open>
  \<open>data.windows(n).position(|w| w == needle)\<close>: the index of the first occurrence of a
  non-empty \<open>needle\<close>; \<open>str::find\<close> with a string pattern is the same search.
\<close>

fun find_sub :: "'a list \<Rightarrow> 'a list \<Rightarrow> nat option" where
  "find_sub needle [] = (if needle = [] then Some 0 else None)"
| "find_sub needle (x # xs) =
     (if prefix needle (x # xs) then Some 0 else map_option Suc (find_sub needle xs))"

lemma find_sub_None_iff: "find_sub n xs = None \<longleftrightarrow> \<not> sublist n xs"
  by (induction xs) (auto simp: sublist_Cons_right)

lemma find_sub_SomeD: "find_sub n xs = Some i \<Longrightarrow> i \<le> length xs \<and> prefix n (drop i xs)"
  by (induction xs arbitrary: i) (auto split: if_splits)

lemma find_sub_Some_length: "find_sub n xs = Some i \<Longrightarrow> i + length n \<le> length xs"
  by (drule find_sub_SomeD) (auto dest: prefix_length_le)

lemma find_sub_Some_append:
  "find_sub n xs = Some i \<Longrightarrow> find_sub n (xs @ ys) = Some i"
proof (induction xs arbitrary: i)
  case Nil
  then have "n = []" "i = 0" by (auto split: if_splits)
  then show ?case by (cases ys) auto
next
  case (Cons x xs)
  show ?case
  proof (cases "prefix n (x # xs)")
    case True
    then have "prefix n ((x # xs) @ ys)" by (rule prefix_prefix)
    then show ?thesis using True Cons.prems by simp
  next
    case False
    with Cons.prems obtain j where j: "find_sub n xs = Some j" "i = Suc j" by auto
    have "\<not> prefix n (x # (xs @ ys))"
    proof
      assume p: "prefix n (x # (xs @ ys))"
      have "length n \<le> length (x # xs)"
        using find_sub_Some_length [OF j(1)] by simp
      with p have "prefix n (x # xs)"
        using prefix_length_prefix [of n "(x # xs) @ ys" "x # xs"] by simp
      with False show False by simp
    qed
    with j Cons.IH show ?thesis by simp
  qed
qed

text \<open>A needle none of whose elements but the first equals its first element has no border,
  so an occurrence behind a prefix free of the needle is the first one.\<close>

lemma find_sub_behind:
  assumes "\<not> sublist (a # n) xs" and "a \<notin> set n"
  shows "find_sub (a # n) (xs @ (a # n) @ ys) = Some (length xs)"
  using assms(1)
proof (induction xs)
  case Nil
  show ?case by simp
next
  case (Cons x xs)
  have ns: "\<not> sublist (a # n) xs" and np: "\<not> prefix (a # n) (x # xs)"
    using Cons.prems by (auto simp: sublist_Cons_right)
  have "\<not> prefix (a # n) (x # (xs @ (a # n) @ ys))"
  proof
    assume p: "prefix (a # n) (x # (xs @ (a # n) @ ys))"
    show False
    proof (cases "length n \<le> length xs")
      case True
      with p have "prefix (a # n) (x # xs)"
        by (metis append_Cons length_Cons not_less_eq_eq prefixI prefix_length_prefix)
      with np show False by simp
    next
      case False
      from p have "prefix n (xs @ a # (n @ ys))" by auto
      then have "n ! length xs = (xs @ a # (n @ ys)) ! length xs"
        using False by (metis linorder_not_le prefix_def nth_append)
      then have "n ! length xs = a" by simp
      with False assms(2) show False by (metis linorder_not_le nth_mem)
    qed
  qed
  with Cons.IH [OF ns] show ?case by simp
qed

section \<open>Errors as values\<close>

fun res_bind :: "('e, 'a) result \<Rightarrow> ('a \<Rightarrow> ('e, 'b) result) \<Rightarrow> ('e, 'b) result" where
  "res_bind (Inl e) f = Inl e"
| "res_bind (Inr a) f = f a"

fun ok_or :: "'a option \<Rightarrow> 'e \<Rightarrow> ('e, 'a) result" where
  "ok_or None e = Inl e"
| "ok_or (Some a) e = Inr a"

lemma res_bind_Ok_iff: "res_bind r f = Inr b \<longleftrightarrow> (\<exists>a. r = Inr a \<and> f a = Inr b)"
  by (cases r) auto

lemma ok_or_Ok_iff [simp]: "ok_or r e = Inr b \<longleftrightarrow> r = Some b"
  by (cases r) auto

end
