(* ===== verification/Rust_Str.thy ===== *)
theory Rust_Str
  imports Prelude
begin

text \<open>
  The string and number routines of the Rust standard library that the program calls, on
  strings as lists of UTF-8 bytes: UTF-8 validation (\<open>str::from_utf8\<close>), ASCII case, the
  Unicode \<open>trim\<close> family, \<open>split\<close>, \<open>split_once\<close>, \<open>rsplit_once\<close>, \<open>split_whitespace\<close>,
  decimal \<open>to_string\<close> and \<open>parse\<close>, big- and little-endian bytes of a \<open>u32\<close>.

  The Unicode case tables behind \<open>to_uppercase\<close> and \<open>to_lowercase\<close> are an argument of the
  definitions that need them: a function from one non-ASCII character (its UTF-8 bytes) to
  its image. ASCII characters are computed.
\<close>

section \<open>ASCII classes and case\<close>

definition is_ascii :: "byte \<Rightarrow> bool" where
  "is_ascii b \<longleftrightarrow> byte_val b < 128"

definition in_range :: "byte \<Rightarrow> nat \<Rightarrow> nat \<Rightarrow> bool" where
  "in_range b lo hi \<longleftrightarrow> lo \<le> byte_val b \<and> byte_val b \<le> hi"

definition is_ascii_digit :: "byte \<Rightarrow> bool" where
  "is_ascii_digit b \<longleftrightarrow> in_range b 48 57"

definition is_ascii_upper :: "byte \<Rightarrow> bool" where
  "is_ascii_upper b \<longleftrightarrow> in_range b 65 90"

definition is_ascii_lower :: "byte \<Rightarrow> bool" where
  "is_ascii_lower b \<longleftrightarrow> in_range b 97 122"

definition is_ascii_alphabetic :: "byte \<Rightarrow> bool" where
  "is_ascii_alphabetic b \<longleftrightarrow> is_ascii_upper b \<or> is_ascii_lower b"

definition is_ascii_alphanumeric :: "byte \<Rightarrow> bool" where
  "is_ascii_alphanumeric b \<longleftrightarrow> is_ascii_alphabetic b \<or> is_ascii_digit b"

lemmas ascii_class_defs = is_ascii_def in_range_def is_ascii_digit_def is_ascii_upper_def
  is_ascii_lower_def is_ascii_alphabetic_def is_ascii_alphanumeric_def

definition ascii_upper_byte :: "byte \<Rightarrow> byte" where
  "ascii_upper_byte b = (if is_ascii_lower b then char_of (byte_val b - 32) else b)"

definition ascii_lower_byte :: "byte \<Rightarrow> byte" where
  "ascii_lower_byte b = (if is_ascii_upper b then char_of (byte_val b + 32) else b)"

definition to_ascii_uppercase :: "bytes \<Rightarrow> bytes" where
  "to_ascii_uppercase s = map ascii_upper_byte s"

definition to_ascii_lowercase :: "bytes \<Rightarrow> bytes" where
  "to_ascii_lowercase s = map ascii_lower_byte s"

definition eq_ignore_ascii_case :: "bytes \<Rightarrow> bytes \<Rightarrow> bool" where
  "eq_ignore_ascii_case s t \<longleftrightarrow> to_ascii_lowercase s = to_ascii_lowercase t"

lemma byte_val_less [simp]: "byte_val b < 256"
  by (metis of_char_of char_of_char mod_less_divisor zero_less_numeral of_char_mod_256)

lemma byte_val_char_of [simp]: "n < 256 \<Longrightarrow> byte_val (char_of n) = n"
  by simp

lemma byte_val_inject: "byte_val a = byte_val b \<longleftrightarrow> a = b"
  by simp

lemma ascii_lower_idem [simp]: "ascii_lower_byte (ascii_lower_byte b) = ascii_lower_byte b"
  by (auto simp: ascii_lower_byte_def ascii_class_defs)

lemma ascii_upper_idem [simp]: "ascii_upper_byte (ascii_upper_byte b) = ascii_upper_byte b"
  by (auto simp: ascii_upper_byte_def ascii_class_defs)

lemma ascii_upper_lower [simp]: "ascii_upper_byte (ascii_lower_byte b) = ascii_upper_byte b"
  by (auto simp: ascii_upper_byte_def ascii_lower_byte_def ascii_class_defs)

lemma to_ascii_lowercase_idem [simp]:
  "to_ascii_lowercase (to_ascii_lowercase s) = to_ascii_lowercase s"
  by (simp add: to_ascii_lowercase_def)

lemma to_ascii_uppercase_idem [simp]:
  "to_ascii_uppercase (to_ascii_uppercase s) = to_ascii_uppercase s"
  by (simp add: to_ascii_uppercase_def)

lemma length_to_ascii_lowercase [simp]: "length (to_ascii_lowercase s) = length s"
  by (simp add: to_ascii_lowercase_def)

section \<open>UTF-8\<close>

abbreviation is_cont :: "byte \<Rightarrow> bool" where "is_cont b \<equiv> in_range b 0x80 0xBF"

definition utf8_two :: "byte \<Rightarrow> byte \<Rightarrow> bool" where
  "utf8_two a b \<longleftrightarrow> in_range a 0xC2 0xDF \<and> is_cont b"

definition utf8_three :: "byte \<Rightarrow> byte \<Rightarrow> byte \<Rightarrow> bool" where
  "utf8_three a b c \<longleftrightarrow> is_cont c \<and>
     (byte_val a = 0xE0 \<and> in_range b 0xA0 0xBF \<or>
      in_range a 0xE1 0xEC \<and> is_cont b \<or>
      byte_val a = 0xED \<and> in_range b 0x80 0x9F \<or>
      in_range a 0xEE 0xEF \<and> is_cont b)"

definition utf8_four :: "byte \<Rightarrow> byte \<Rightarrow> byte \<Rightarrow> byte \<Rightarrow> bool" where
  "utf8_four a b c d \<longleftrightarrow> is_cont c \<and> is_cont d \<and>
     (byte_val a = 0xF0 \<and> in_range b 0x90 0xBF \<or>
      in_range a 0xF1 0xF3 \<and> is_cont b \<or>
      byte_val a = 0xF4 \<and> in_range b 0x80 0x8F)"

fun utf8_valid :: "bytes \<Rightarrow> bool" where
  "utf8_valid [] \<longleftrightarrow> True"
| "utf8_valid (a # r) \<longleftrightarrow>
     (if is_ascii a then utf8_valid r
      else case r of [] \<Rightarrow> False | b # r1 \<Rightarrow>
       (if utf8_two a b then utf8_valid r1
        else case r1 of [] \<Rightarrow> False | c # r2 \<Rightarrow>
         (if utf8_three a b c then utf8_valid r2
          else case r2 of [] \<Rightarrow> False | d # r3 \<Rightarrow> utf8_four a b c d \<and> utf8_valid r3)))"

definition from_utf8 :: "bytes \<Rightarrow> bytes option" where
  "from_utf8 bs = (if utf8_valid bs then Some bs else None)"

lemma utf8_valid_ascii [simp, bytes_simps]: "\<forall>b\<in>set s. is_ascii b \<Longrightarrow> utf8_valid s"
  by (induction s) auto

declare utf8_valid.simps(2) [simp del]

lemma utf8_valid_append [bytes_simps]:
  "utf8_valid s \<Longrightarrow> utf8_valid (s @ t) \<longleftrightarrow> utf8_valid t"
proof (induction s rule: utf8_valid.induct)
  case 1
  then show ?case by simp
next
  case (2 a r)
  have v: "utf8_valid (a # r)" by (fact 2(5))
  show ?case
  proof (cases "is_ascii a")
    case True
    then show ?thesis using 2(1) v by (simp add: utf8_valid.simps(2))
  next
    case False
    then obtain b r1 where r: "r = b # r1"
      using v by (cases r) (auto simp: utf8_valid.simps(2))
    show ?thesis
    proof (cases "utf8_two a b")
      case True
      then show ?thesis using 2(2) [OF False r True] v False r
        by (simp add: utf8_valid.simps(2) [of a])
    next
      case nt: False
      then obtain c r2 where r1: "r1 = c # r2"
        using v False r by (cases r1) (auto simp: utf8_valid.simps(2) [of a])
      show ?thesis
      proof (cases "utf8_three a b c")
        case True
        then show ?thesis using 2(3) [OF False r nt r1 True] v False r r1 nt
          by (simp add: utf8_valid.simps(2) [of a])
      next
        case n3: False
        then obtain d r3 where r2: "r2 = d # r3"
          using v False r r1 nt by (cases r2) (auto simp: utf8_valid.simps(2) [of a])
        then show ?thesis using 2(4) [OF False r nt r1 n3 r2] v False r r1 nt n3
          by (simp add: utf8_valid.simps(2) [of a])
      qed
    qed
  qed
qed

text \<open>
  \<open>String::from_utf8_lossy\<close>: every maximal ill-formed prefix of a sequence becomes the
  replacement character U+FFFD (bytes EF BF BD).
\<close>

definition replacement :: bytes where
  "replacement = [CHR 0xEF, CHR 0xBF, CHR 0xBD]"

definition three_lead :: "byte \<Rightarrow> byte \<Rightarrow> bool" where
  "three_lead a b \<longleftrightarrow>
     byte_val a = 0xE0 \<and> in_range b 0xA0 0xBF \<or>
     in_range a 0xE1 0xEC \<and> is_cont b \<or>
     byte_val a = 0xED \<and> in_range b 0x80 0x9F \<or>
     in_range a 0xEE 0xEF \<and> is_cont b"

definition four_lead :: "byte \<Rightarrow> byte \<Rightarrow> bool" where
  "four_lead a b \<longleftrightarrow>
     byte_val a = 0xF0 \<and> in_range b 0x90 0xBF \<or>
     in_range a 0xF1 0xF3 \<and> is_cont b \<or>
     byte_val a = 0xF4 \<and> in_range b 0x80 0x8F"

text \<open>Bytes consumed, and whether they form a character, at the front of a non-empty list.\<close>

definition utf8_step :: "byte \<Rightarrow> bytes \<Rightarrow> nat \<times> bool" where
  "utf8_step a r =
     (if is_ascii a then (1, True)
      else case r of
        [] \<Rightarrow> (1, False)
      | b # r1 \<Rightarrow>
          if utf8_two a b then (2, True)
          else if three_lead a b then
            (case r1 of [] \<Rightarrow> (2, False) | c # r2 \<Rightarrow> if is_cont c then (3, True) else (2, False))
          else if four_lead a b then
            (case r1 of [] \<Rightarrow> (2, False)
             | c # r2 \<Rightarrow>
                 if is_cont c then
                   (case r2 of [] \<Rightarrow> (3, False)
                    | d # r3 \<Rightarrow> if is_cont d then (4, True) else (3, False))
                 else (2, False))
          else (1, False))"

lemma utf8_step_pos: "0 < fst (utf8_step a r)"
  by (auto simp: utf8_step_def split: list.splits)

function from_utf8_lossy :: "bytes \<Rightarrow> bytes" where
  "from_utf8_lossy [] = []"
| "from_utf8_lossy (a # r) =
     (case utf8_step a r of (n, ok) \<Rightarrow>
        (if ok then take n (a # r) else replacement) @ from_utf8_lossy (drop (n - 1) r))"
  by pat_completeness auto
termination
  by (relation "measure length") auto

lemma from_utf8_lossy_ascii [bytes_simps]:
  "\<forall>b\<in>set s. is_ascii b \<Longrightarrow> from_utf8_lossy s = s"
  by (induction s) (auto simp: utf8_step_def)

section \<open>Whitespace and trimming\<close>

text \<open>
  The characters with the Unicode property White\_Space. \<open>ws_head\<close> is the number of bytes
  of a white-space character at the front of a string (0: none); \<open>ws_tail\<close> reads the
  reversed string.
\<close>

definition is_ascii_ws :: "byte \<Rightarrow> bool" where
  "is_ascii_ws b \<longleftrightarrow> in_range b 9 13 \<or> byte_val b = 32"

definition ws_three :: "byte \<Rightarrow> byte \<Rightarrow> byte \<Rightarrow> bool" where
  "ws_three a b c \<longleftrightarrow>
     byte_val a = 0xE1 \<and> byte_val b = 0x9A \<and> byte_val c = 0x80 \<or>
     byte_val a = 0xE2 \<and> byte_val b = 0x80 \<and>
       (in_range c 0x80 0x8A \<or> byte_val c = 0xA8 \<or> byte_val c = 0xA9 \<or> byte_val c = 0xAF) \<or>
     byte_val a = 0xE2 \<and> byte_val b = 0x81 \<and> byte_val c = 0x9F \<or>
     byte_val a = 0xE3 \<and> byte_val b = 0x80 \<and> byte_val c = 0x80"

definition ws_two :: "byte \<Rightarrow> byte \<Rightarrow> bool" where
  "ws_two a b \<longleftrightarrow> byte_val a = 0xC2 \<and> (byte_val b = 0x85 \<or> byte_val b = 0xA0)"

fun ws_head :: "bytes \<Rightarrow> nat" where
  "ws_head [] = 0"
| "ws_head (a # r) =
     (if is_ascii_ws a then 1
      else case r of [] \<Rightarrow> 0
      | b # r1 \<Rightarrow> if ws_two a b then 2
          else (case r1 of [] \<Rightarrow> 0 | c # _ \<Rightarrow> if ws_three a b c then 3 else 0))"

fun ws_tail :: "bytes \<Rightarrow> nat" where
  "ws_tail [] = 0"
| "ws_tail (a # r) =
     (if is_ascii_ws a then 1
      else case r of [] \<Rightarrow> 0
      | b # r1 \<Rightarrow> if ws_two b a then 2
          else (case r1 of [] \<Rightarrow> 0 | c # _ \<Rightarrow> if ws_three c b a then 3 else 0))"

function strip_ws :: "(bytes \<Rightarrow> nat) \<Rightarrow> bytes \<Rightarrow> bytes" where
  "strip_ws w s = (if s = [] \<or> w s = 0 then s else strip_ws w (drop (w s) s))"
  by pat_completeness auto
termination
  by (relation "measure (\<lambda>(w, s). length s)") (auto simp: neq_Nil_conv)

declare strip_ws.simps [simp del]

definition trim_start :: "bytes \<Rightarrow> bytes" where
  "trim_start s = strip_ws ws_head s"

definition trim_end :: "bytes \<Rightarrow> bytes" where
  "trim_end s = rev (strip_ws ws_tail (rev s))"

definition trim :: "bytes \<Rightarrow> bytes" where
  "trim s = trim_end (trim_start s)"

text \<open>A byte that is ASCII but not white space can neither start nor end a white-space
  character.\<close>

definition ascii_ink :: "byte \<Rightarrow> bool" where
  "ascii_ink b \<longleftrightarrow> is_ascii b \<and> \<not> is_ascii_ws b"

lemma ws_head_ink [simp]: "ascii_ink a \<Longrightarrow> ws_head (a # r) = 0"
  by (auto simp: ascii_ink_def ws_two_def ws_three_def is_ascii_def split: list.splits)

lemma ws_tail_ink [simp]: "ascii_ink a \<Longrightarrow> ws_tail (a # r) = 0"
  by (auto simp: ascii_ink_def ws_two_def ws_three_def is_ascii_def in_range_def split: list.splits)

lemma strip_ws_stop: "w s = 0 \<Longrightarrow> strip_ws w s = s"
  by (subst strip_ws.simps) simp

lemma trim_start_ink: "s \<noteq> [] \<Longrightarrow> ascii_ink (hd s) \<Longrightarrow> trim_start s = s"
  by (cases s) (auto simp: trim_start_def strip_ws_stop simp del: ws_head.simps)

lemma trim_end_ink: "s \<noteq> [] \<Longrightarrow> ascii_ink (last s) \<Longrightarrow> trim_end s = s"
  by (cases s rule: rev_cases) (auto simp: trim_end_def strip_ws_stop simp del: ws_tail.simps)

lemma trim_end_snoc_ws: "is_ascii_ws b \<Longrightarrow> trim_end (s @ [b]) = trim_end s"
  by (simp add: trim_end_def strip_ws.simps [of ws_tail "b # rev s"])

lemma trim_ink [bytes_simps]:
  "s \<noteq> [] \<Longrightarrow> ascii_ink (hd s) \<Longrightarrow> ascii_ink (last s) \<Longrightarrow> trim s = s"
  by (simp add: trim_def trim_start_ink trim_end_ink)

lemma trim_line [bytes_simps]:
  assumes "s \<noteq> []" "ascii_ink (hd s)" "ascii_ink (last s)" "is_ascii_ws b"
  shows "trim (s @ [b]) = s"
  using assms by (simp add: trim_def trim_start_ink trim_end_snoc_ws trim_end_ink)

lemma is_ascii_ws_LF [simp]: "is_ascii_ws LF"
  by (simp add: is_ascii_ws_def in_range_def LF_def)

lemma strip_ws_length: "length (strip_ws w s) \<le> length s"
proof (induction w s rule: strip_ws.induct)
  case (1 w s)
  show ?case
  proof (cases "s = [] \<or> w s = 0")
    case True
    then show ?thesis by (subst strip_ws.simps) simp
  next
    case False
    then have "length (strip_ws w (drop (w s) s)) \<le> length (drop (w s) s)" by (rule 1)
    then show ?thesis using False by (subst strip_ws.simps) simp
  qed
qed

lemma strip_ws_fixed: "strip_ws w s = [] \<or> w (strip_ws w s) = 0"
proof (induction w s rule: strip_ws.induct)
  case (1 w s)
  then show ?case by (auto simp: strip_ws.simps [of w s])
qed

lemma trim_end_no_ws: "trim_end s \<noteq> [] \<Longrightarrow> \<not> is_ascii_ws (last (trim_end s))"
proof -
  assume ne: "trim_end s \<noteq> []"
  let ?r = "strip_ws ws_tail (rev s)"
  have "ws_tail ?r = 0" and r: "?r \<noteq> []"
    using strip_ws_fixed [of ws_tail "rev s"] ne by (auto simp: trim_end_def)
  then have "\<not> is_ascii_ws (hd ?r)"
    by (cases ?r) (auto split: if_splits)
  then show ?thesis by (simp add: trim_end_def r last_rev)
qed

section \<open>Case mapping\<close>

definition utf8_char_len :: "byte \<Rightarrow> nat" where
  "utf8_char_len a =
     (if byte_val a < 0x80 then 1 else if byte_val a < 0xE0 then 2
      else if byte_val a < 0xF0 then 3 else 4)"

text \<open>\<open>str::chars\<close>, each character as its UTF-8 bytes.\<close>

function utf8_chars :: "bytes \<Rightarrow> bytes list" where
  "utf8_chars [] = []"
| "utf8_chars (a # r) =
     take (utf8_char_len a) (a # r) # utf8_chars (drop (utf8_char_len a - 1) r)"
  by pat_completeness auto
termination
  by (relation "measure length") auto

definition to_uppercase :: "(bytes \<Rightarrow> bytes) \<Rightarrow> bytes \<Rightarrow> bytes" where
  "to_uppercase uc s =
     concat (map (\<lambda>c. if length c = 1 then map ascii_upper_byte c else uc c) (utf8_chars s))"

text \<open>
  Lower-casing may look at the neighbours of a character (the final sigma), so the table of
  \<open>to_lowercase\<close> gets the whole string and the number of the character.
\<close>

fun lowercase_from :: "(bytes \<Rightarrow> nat \<Rightarrow> bytes) \<Rightarrow> bytes \<Rightarrow> nat \<Rightarrow> bytes list \<Rightarrow> bytes" where
  "lowercase_from lc s i [] = []"
| "lowercase_from lc s i (c # cs) =
     (if length c = 1 then map ascii_lower_byte c else lc s i) @ lowercase_from lc s (Suc i) cs"

definition to_lowercase :: "(bytes \<Rightarrow> nat \<Rightarrow> bytes) \<Rightarrow> bytes \<Rightarrow> bytes" where
  "to_lowercase lc s = lowercase_from lc s 0 (utf8_chars s)"

lemma utf8_chars_ascii [bytes_simps]:
  "\<forall>b\<in>set s. is_ascii b \<Longrightarrow> utf8_chars s = map (\<lambda>b. [b]) s"
  by (induction s) (auto simp: utf8_char_len_def is_ascii_def)

lemma to_uppercase_ascii [bytes_simps]:
  "\<forall>b\<in>set s. is_ascii b \<Longrightarrow> to_uppercase uc s = to_ascii_uppercase s"
proof -
  assume "\<forall>b\<in>set s. is_ascii b"
  then have "to_uppercase uc s = concat (map (\<lambda>b. [ascii_upper_byte b]) s)"
    by (simp add: to_uppercase_def utf8_chars_ascii comp_def)
  then show ?thesis by (simp add: to_ascii_uppercase_def concat_map_singleton)
qed

lemma to_lowercase_ascii [bytes_simps]:
  "\<forall>b\<in>set s. is_ascii b \<Longrightarrow> to_lowercase lc s = to_ascii_lowercase s"
proof -
  have "lowercase_from lc s i (map (\<lambda>b. [b]) t) = to_ascii_lowercase t" for i t
    by (induction t arbitrary: i) (simp_all add: to_ascii_lowercase_def)
  then show "\<forall>b\<in>set s. is_ascii b \<Longrightarrow> ?thesis"
    by (simp add: to_lowercase_def utf8_chars_ascii)
qed

section \<open>Splitting\<close>

text \<open>\<open>s.split(c)\<close> for a one-byte separator: always at least one piece.\<close>

fun split_char :: "byte \<Rightarrow> bytes \<Rightarrow> bytes list" where
  "split_char c [] = [[]]"
| "split_char c (x # xs) =
     (if x = c then [] # split_char c xs
      else case split_char c xs of [] \<Rightarrow> [[x]] | p # ps \<Rightarrow> (x # p) # ps)"

lemma split_char_Nil [simp]: "split_char c s \<noteq> []"
  by (cases s) (auto split: list.splits)

lemma split_char_none [bytes_simps]: "c \<notin> set s \<Longrightarrow> split_char c s = [s]"
  by (induction s) auto

lemma split_char_append [bytes_simps]:
  "c \<notin> set s \<Longrightarrow> split_char c (s @ c # t) = s # split_char c t"
  by (induction s) auto

lemma hd_split_char: "hd (split_char c s) = takeWhile (\<lambda>x. x \<noteq> c) s"
  by (induction s) (auto split: list.splits)

lemma split_char_pieces: "p \<in> set (split_char c s) \<Longrightarrow> c \<notin> set p"
  by (induction s arbitrary: p) (auto split: list.splits if_splits)

text \<open>\<open>s.split_once(sep)\<close> for a string separator.\<close>

definition split_once :: "bytes \<Rightarrow> bytes \<Rightarrow> (bytes \<times> bytes) option" where
  "split_once sep s =
     map_option (\<lambda>i. (take i s, drop (i + length sep) s)) (find_sub sep s)"

text \<open>\<open>s.rsplit_once(c)\<close> for a one-byte separator.\<close>

definition rsplit_once :: "byte \<Rightarrow> bytes \<Rightarrow> (bytes \<times> bytes) option" where
  "rsplit_once c s =
     map_option (\<lambda>i. (take (length s - 1 - i) s, drop (length s - i) s))
       (position (\<lambda>b. b = c) (rev s))"

definition strip_prefix :: "bytes \<Rightarrow> bytes \<Rightarrow> bytes option" where
  "strip_prefix p s = (if prefix p s then Some (drop (length p) s) else None)"

definition strip_suffix :: "bytes \<Rightarrow> bytes \<Rightarrow> bytes option" where
  "strip_suffix p s = (if suffix p s then Some (take (length s - length p) s) else None)"

text \<open>\<open>split_whitespace\<close>: the maximal pieces without white space.\<close>

function split_ws :: "bytes \<Rightarrow> bytes \<Rightarrow> bytes list" where
  "split_ws acc [] = (if acc = [] then [] else [acc])"
| "split_ws acc (a # r) =
     (if ws_head (a # r) = 0 then split_ws (acc @ [a]) r
      else (if acc = [] then [] else [acc]) @ split_ws [] (drop (ws_head (a # r) - 1) r))"
  by pat_completeness auto
termination
  by (relation "measure (\<lambda>(acc, s). length s)") auto

definition split_whitespace :: "bytes \<Rightarrow> bytes list" where
  "split_whitespace s = split_ws [] s"

definition trim_end_matches :: "(byte \<Rightarrow> bool) \<Rightarrow> bytes \<Rightarrow> bytes" where
  "trim_end_matches p s = rev (dropWhile p (rev s))"

definition trim_start_matches :: "(byte \<Rightarrow> bool) \<Rightarrow> bytes \<Rightarrow> bytes" where
  "trim_start_matches p s = dropWhile p s"

definition contains_str :: "bytes \<Rightarrow> bytes \<Rightarrow> bool" where
  "contains_str hay needle \<longleftrightarrow> find_sub needle hay \<noteq> None"

lemma contains_str_iff: "contains_str hay needle \<longleftrightarrow> sublist needle hay"
  using find_sub_None_iff [of needle hay] by (auto simp: contains_str_def)

lemma split_once_behind [bytes_simps]:
  assumes "\<not> sublist (a # n) s" and "a \<notin> set n"
  shows "split_once (a # n) (s @ (a # n) @ t) = Some (s, t)"
  using find_sub_behind [OF assms, of t] by (simp add: split_once_def)

lemma split_once_None_iff: "split_once sep s = None \<longleftrightarrow> \<not> sublist sep s"
  by (simp add: split_once_def find_sub_None_iff)

section \<open>Decimal numbers\<close>

definition digit_byte :: "nat \<Rightarrow> byte" where
  "digit_byte d = char_of (48 + d)"

fun nat_to_string :: "nat \<Rightarrow> bytes" where
  "nat_to_string n =
     (if n < 10 then [digit_byte n]
      else nat_to_string (n div 10) @ [digit_byte (n mod 10)])"

declare nat_to_string.simps [simp del]

definition int_to_string :: "int \<Rightarrow> bytes" where
  "int_to_string i = (if i < 0 then CHR ''-'' # nat_to_string (nat (- i)) else nat_to_string (nat i))"

definition digits_value :: "bytes \<Rightarrow> nat" where
  "digits_value ds = foldl (\<lambda>acc b. 10 * acc + (byte_val b - 48)) 0 ds"

definition parse_digits :: "bytes \<Rightarrow> nat option" where
  "parse_digits ds =
     (if ds \<noteq> [] \<and> list_all is_ascii_digit ds then Some (digits_value ds) else None)"

text \<open>
  \<open>from_str\<close> of an unsigned type with largest value \<open>m\<close>: an optional plus sign and at
  least one digit; a value above \<open>m\<close> is an error.
\<close>

definition parse_unsigned :: "nat \<Rightarrow> bytes \<Rightarrow> nat option" where
  "parse_unsigned m s =
     (let ds = (case s of [] \<Rightarrow> [] | b # r \<Rightarrow> if b = CHR ''+'' then r else s)
      in case parse_digits ds of
           Some n \<Rightarrow> if n \<le> m then Some n else None
         | None \<Rightarrow> None)"

text \<open>\<open>from_str\<close> of a signed type with range \<open>- m - 1 .. m\<close>.\<close>

definition parse_signed :: "nat \<Rightarrow> bytes \<Rightarrow> int option" where
  "parse_signed m s =
     (case s of
        [] \<Rightarrow> None
      | b # r \<Rightarrow>
          if b = CHR ''-'' then
            (case parse_digits r of
               Some n \<Rightarrow> if n \<le> m + 1 then Some (- int n) else None
             | None \<Rightarrow> None)
          else map_option int (parse_unsigned m s))"

definition parse_u8 :: "bytes \<Rightarrow> nat option" where "parse_u8 = parse_unsigned (2 ^ 8 - 1)"
definition parse_u16 :: "bytes \<Rightarrow> nat option" where "parse_u16 = parse_unsigned (2 ^ 16 - 1)"
definition parse_u32 :: "bytes \<Rightarrow> nat option" where "parse_u32 = parse_unsigned (2 ^ 32 - 1)"
definition parse_u64 :: "bytes \<Rightarrow> nat option" where "parse_u64 = parse_unsigned (2 ^ 64 - 1)"
definition parse_i32 :: "bytes \<Rightarrow> int option" where "parse_i32 = parse_signed (2 ^ 31 - 1)"
definition parse_i64 :: "bytes \<Rightarrow> int option" where "parse_i64 = parse_signed (2 ^ 63 - 1)"

lemma digit_byte_val [simp]: "d < 10 \<Longrightarrow> byte_val (digit_byte d) = 48 + d"
  by (simp add: digit_byte_def)

lemma is_ascii_digit_digit_byte [simp]: "d < 10 \<Longrightarrow> is_ascii_digit (digit_byte d)"
  by (simp add: ascii_class_defs)

lemma nat_to_string_ne [simp]: "nat_to_string n \<noteq> []"
  by (subst nat_to_string.simps) simp

lemma nat_to_string_digits: "list_all is_ascii_digit (nat_to_string n)"
proof (induction n rule: nat_to_string.induct)
  case (1 n)
  then show ?case by (subst nat_to_string.simps) auto
qed

lemma digits_value_snoc: "digits_value (ds @ [b]) = 10 * digits_value ds + (byte_val b - 48)"
  by (simp add: digits_value_def)

lemma digits_value_nat_to_string: "digits_value (nat_to_string n) = n"
proof (induction n rule: nat_to_string.induct)
  case (1 n)
  then show ?case
    by (subst nat_to_string.simps) (auto simp: digits_value_snoc, simp add: digits_value_def)
qed

lemma parse_digits_nat_to_string [parse_simps]: "parse_digits (nat_to_string n) = Some n"
  by (simp add: parse_digits_def nat_to_string_digits digits_value_nat_to_string)

lemma nat_to_string_hd: "is_ascii_digit (hd (nat_to_string n))"
  by (metis nat_to_string_digits nat_to_string_ne list.set_sel(1) list_all_iff)

lemma nat_to_string_no_sign:
  "hd (nat_to_string n) \<noteq> CHR ''+''" "hd (nat_to_string n) \<noteq> CHR ''-''"
  using nat_to_string_hd [of n] by (auto simp: ascii_class_defs)

lemma parse_unsigned_nat_to_string [parse_simps]:
  "n \<le> m \<Longrightarrow> parse_unsigned m (nat_to_string n) = Some n"
proof -
  assume n: "n \<le> m"
  obtain b r where br: "nat_to_string n = b # r" by (cases "nat_to_string n") simp_all
  then have "b \<noteq> CHR ''+''" "parse_digits (b # r) = Some n"
    using nat_to_string_no_sign(1) [of n] parse_digits_nat_to_string [of n] by simp_all
  then show ?thesis using n br by (simp add: parse_unsigned_def)
qed

lemma parse_signed_int_to_string [parse_simps]:
  assumes "- int m - 1 \<le> i" and "i \<le> int m"
  shows "parse_signed m (int_to_string i) = Some i"
proof (cases "i < 0")
  case True
  then show ?thesis
    using assms by (simp add: int_to_string_def parse_signed_def parse_digits_nat_to_string)
next
  case False
  obtain b r where br: "nat_to_string (nat i) = b # r"
    by (cases "nat_to_string (nat i)") simp_all
  have "nat i \<le> m" using False assms by simp
  then have "b \<noteq> CHR ''-''" "parse_unsigned m (b # r) = Some (nat i)"
    using br nat_to_string_no_sign(2) [of "nat i"] parse_unsigned_nat_to_string [of "nat i" m]
    by simp_all
  then show ?thesis using False br by (simp add: int_to_string_def parse_signed_def)
qed

lemma parse_unsigned_bound: "parse_unsigned m s = Some n \<Longrightarrow> n \<le> m"
  by (auto simp: parse_unsigned_def Let_def split: option.splits if_splits)

lemma int_to_string_bytes:
  "b \<in> set (int_to_string i) \<Longrightarrow> is_ascii_digit b \<or> b = CHR ''-''"
  using nat_to_string_digits by (auto simp: int_to_string_def list_all_iff split: if_splits)

lemma nat_to_string_bytes: "b \<in> set (nat_to_string n) \<Longrightarrow> is_ascii_digit b"
  using nat_to_string_digits by (auto simp: list_all_iff)

section \<open>The bytes of a 32-bit word\<close>

definition u32_of_bytes :: "byte \<Rightarrow> byte \<Rightarrow> byte \<Rightarrow> byte \<Rightarrow> u32" where
  "u32_of_bytes b3 b2 b1 b0 =
     of_nat (byte_val b3 * 2 ^ 24 + byte_val b2 * 2 ^ 16 + byte_val b1 * 2 ^ 8 + byte_val b0)"

definition u32_byte :: "nat \<Rightarrow> u32 \<Rightarrow> byte" where
  "u32_byte k w = char_of (unat w div 2 ^ (8 * k) mod 256)"

definition to_be_bytes :: "u32 \<Rightarrow> bytes" where
  "to_be_bytes w = [u32_byte 3 w, u32_byte 2 w, u32_byte 1 w, u32_byte 0 w]"

definition to_le_bytes :: "u32 \<Rightarrow> bytes" where
  "to_le_bytes w = [u32_byte 0 w, u32_byte 1 w, u32_byte 2 w, u32_byte 3 w]"

lemma length_to_be_bytes [simp]: "length (to_be_bytes w) = 4"
  by (simp add: to_be_bytes_def)

lemma length_to_le_bytes [simp]: "length (to_le_bytes w) = 4"
  by (simp add: to_le_bytes_def)

lemma u32_of_bytes_split [simp]:
  "u32_of_bytes (u32_byte 3 w) (u32_byte 2 w) (u32_byte (Suc 0) w) (u32_byte 0 w) = w"
proof -
  define n where "n = unat w"
  have n: "n < 2 ^ 32" unfolding n_def using unsigned_less [of w] by simp
  define a b c where "a = n div 256" and "b = a div 256" and "c = b div 256"
  have cb: "c = n div 2 ^ 24" "b = n div 2 ^ 16"
    by (simp_all add: a_def b_def c_def flip: div_mult2_eq)
  have cm: "c mod 256 = c" using n by (simp add: a_def b_def c_def)
  have "n = a * 256 + n mod 256" "a = b * 256 + a mod 256" "b = c * 256 + b mod 256"
    unfolding a_def b_def c_def by simp_all
  then have "c * 2 ^ 24 + b mod 256 * 2 ^ 16 + a mod 256 * 2 ^ 8 + n mod 256 = n"
    by simp
  then have "n div 2 ^ 24 mod 256 * 2 ^ 24 + n div 2 ^ 16 mod 256 * 2 ^ 16
      + n div 2 ^ 8 mod 256 * 2 ^ 8 + n mod 256 = n"
    using cm unfolding cb [symmetric] by (simp add: a_def)
  moreover have "byte_val (u32_byte k w) = n div 2 ^ (8 * k) mod 256" for k
    by (simp add: u32_byte_def n_def)
  ultimately have "byte_val (u32_byte 3 w) * 2 ^ 24 + byte_val (u32_byte 2 w) * 2 ^ 16
      + byte_val (u32_byte 1 w) * 2 ^ 8 + byte_val (u32_byte 0 w) = n"
    using cm cb by simp
  then show ?thesis by (simp only: u32_of_bytes_def One_nat_def [symmetric]) (simp add: n_def)
qed

end
