(* ===== verification/Client_Config.thy ===== *)
theory Client_Config
  imports Rust_Str
begin

text \<open>
  The client's configuration (\<open>client/src/config.rs\<close>) and the transport parameters of
  \<open>client/src/transport/mod.rs\<close> that it stores.

  The INI file is read and written by the \<open>configparser\<close> crate, which is not part of the
  repository. The model works on the crate's in-memory view: \<open>ini\<close> maps a section and a
  key to the stored text, \<open>load\<close> reads such a map and \<open>save\<close> produces one.
  Paths are byte strings. \<open>lc\<close> is the Unicode lower-case table.
\<close>

section \<open>Transport parameters\<close>

datatype TransportKind = Ax25 | VaraFm | VaraHf

definition transport_kind_from_str :: "bytes \<Rightarrow> (bytes, TransportKind) result" where
  "transport_kind_from_str s =
     (if s = ''ax25'' then Ok Ax25
      else if s = ''vara_fm'' then Ok VaraFm
      else if s = ''vara_hf'' then Ok VaraHf
      else Err (''unknown transport: '' @ s))"

fun transport_kind_to_string :: "TransportKind \<Rightarrow> bytes" where
  "transport_kind_to_string Ax25 = ''ax25''"
| "transport_kind_to_string VaraFm = ''vara_fm''"
| "transport_kind_to_string VaraHf = ''vara_hf''"

record AgwpeParams =
  agwpe_params_host :: bytes
  agwpe_params_port :: nat

datatype VaraMode = Fm | Hf

fun vara_mode_to_string :: "VaraMode \<Rightarrow> bytes" where
  "vara_mode_to_string Fm = ''fm''"
| "vara_mode_to_string Hf = ''hf''"

datatype VaraBandwidth = VNarrow | VWide | Bw250 | Bw500 | Bw2300 | Bw2750

fun vara_bandwidth_to_string :: "VaraBandwidth \<Rightarrow> bytes" where
  "vara_bandwidth_to_string VNarrow = ''vnarrow''"
| "vara_bandwidth_to_string VWide = ''vwide''"
| "vara_bandwidth_to_string Bw250 = ''bw250''"
| "vara_bandwidth_to_string Bw500 = ''bw500''"
| "vara_bandwidth_to_string Bw2300 = ''bw2300''"
| "vara_bandwidth_to_string Bw2750 = ''bw2750''"

record VaraParams =
  cmd_host :: bytes
  cmd_port :: nat
  data_host :: bytes
  data_port :: nat
  mode :: VaraMode
  bandwidth :: VaraBandwidth

record TransportConfig =
  kind :: TransportKind
  agwpe :: AgwpeParams
  vara_params :: VaraParams
  tc_local_callsign :: bytes

record SessionConfig =
  sc_local_callsign :: bytes
  sc_remote_callsign :: bytes
  sc_bpq_command :: bytes
  sc_skip_bpq_app :: bool
  sc_agwpe_port :: nat

section \<open>The file configuration\<close>

datatype ConfigError = ConfigIo bytes | ConfigParse bytes | NoConfigDir

record ConnectionConfig =
  response_timeout_secs :: nat
  auto_reconnect :: bool

definition default_connection :: ConnectionConfig where
  "default_connection = \<lparr>response_timeout_secs = 30, auto_reconnect = True\<rparr>"

record CacheSection =
  enabled :: bool
  max_bytes :: nat
  max_ttl_seconds :: nat
  cache_dir :: "bytes option"

definition default_cache :: CacheSection where
  "default_cache =
     \<lparr>enabled = True, max_bytes = 209715200, max_ttl_seconds = 86400, cache_dir = None\<rparr>"

text \<open>\<open>effective_dir\<close>: \<open>cache_root\<close> is the answer of \<open>dirs::cache_dir()\<close>.\<close>

definition effective_dir :: "bytes option \<Rightarrow> CacheSection \<Rightarrow> (ConfigError, bytes) result" where
  "effective_dir cache_root c =
     (case cache_dir c of
        Some d \<Rightarrow> Ok d
      | None \<Rightarrow> (case cache_root of
                  None \<Rightarrow> Err NoConfigDir
                | Some root \<Rightarrow> Ok (root @ ''/packet-browser'')))"

definition default_vara :: VaraParams where
  "default_vara =
     \<lparr>cmd_host = ''127.0.0.1'', cmd_port = 8300, data_host = ''127.0.0.1'', data_port = 8301,
      mode = Fm, bandwidth = VWide\<rparr>"

definition parse_vara_mode :: "bytes \<Rightarrow> VaraMode" where
  "parse_vara_mode s = (if s = ''hf'' then Hf else Fm)"

definition parse_vara_bandwidth :: "bytes \<Rightarrow> VaraBandwidth" where
  "parse_vara_bandwidth s =
     (if s = ''vnarrow'' then VNarrow
      else if s = ''vwide'' then VWide
      else if s = ''bw250'' then Bw250
      else if s = ''bw500'' then Bw500
      else if s = ''bw2300'' then Bw2300
      else if s = ''bw2750'' then Bw2750
      else VWide)"

record FileConfig =
  agwpe_host :: bytes
  agwpe_port :: nat
  my_callsign :: bytes
  target_callsign :: bytes
  bpq_command :: bytes
  skip_bpq_app :: bool
  cache :: CacheSection
  connection :: ConnectionConfig
  transport_default :: TransportKind
  vara :: VaraParams

definition default_config :: FileConfig where
  "default_config =
     \<lparr>agwpe_host = ''127.0.0.1'', agwpe_port = 8000, my_callsign = [], target_callsign = [],
      bpq_command = ''WEB'', skip_bpq_app = False, cache = default_cache,
      connection = default_connection, transport_default = Ax25, vara = default_vara\<rparr>"

definition default_path :: "bytes option \<Rightarrow> (ConfigError, bytes) result" where
  "default_path config_dir =
     (case config_dir of
        None \<Rightarrow> Err NoConfigDir
      | Some d \<Rightarrow> Ok (d @ ''/packet-browser/config.ini''))"

type_synonym ini = "bytes \<times> bytes \<Rightarrow> bytes option"

definition unwrap_or :: "'a option \<Rightarrow> 'a \<Rightarrow> 'a" where
  "unwrap_or x d = (case x of Some v \<Rightarrow> v | None \<Rightarrow> d)"

definition is_truthy :: "(bytes \<Rightarrow> nat \<Rightarrow> bytes) \<Rightarrow> bytes \<Rightarrow> bool" where
  "is_truthy lc v \<longleftrightarrow> to_lowercase lc v \<in> {''true'', ''1'', ''yes'', ''on''}"

text \<open>The body of \<open>FileConfig::load\<close> once the file exists and the parser has read it.\<close>

definition load_ini :: "(bytes \<Rightarrow> nat \<Rightarrow> bytes) \<Rightarrow> ini \<Rightarrow> FileConfig" where
  "load_ini lc i =
     \<lparr>agwpe_host = unwrap_or (i (''server'', ''agwpe_host'')) ''127.0.0.1'',
      agwpe_port = unwrap_or (Option.bind (i (''server'', ''agwpe_port'')) parse_u16) 8000,
      my_callsign = unwrap_or (i (''session'', ''my_callsign'')) [],
      target_callsign = unwrap_or (i (''session'', ''target_callsign'')) [],
      bpq_command = unwrap_or (i (''session'', ''bpq_command'')) ''WEB'',
      skip_bpq_app =
        unwrap_or (map_option (\<lambda>v. to_lowercase lc v = ''true'') (i (''session'', ''skip_bpq_app''))) False,
      cache =
        \<lparr>enabled = unwrap_or (map_option (is_truthy lc) (i (''cache'', ''enabled''))) True,
         max_bytes = unwrap_or (Option.bind (i (''cache'', ''max_bytes'')) parse_u64) 209715200,
         max_ttl_seconds =
           unwrap_or (Option.bind (i (''cache'', ''max_ttl_seconds'')) parse_u64) 86400,
         cache_dir =
           (case i (''cache'', ''dir'') of
              None \<Rightarrow> None
            | Some s \<Rightarrow> if trim s = [] then None else Some s)\<rparr>,
      connection =
        \<lparr>response_timeout_secs =
           unwrap_or (Option.bind (i (''connection'', ''response_timeout_secs'')) parse_u64) 30,
         auto_reconnect =
           unwrap_or (map_option (is_truthy lc) (i (''connection'', ''auto_reconnect''))) True\<rparr>,
      transport_default =
        unwrap_or (Option.bind (i (''transport'', ''default''))
          (\<lambda>v. case transport_kind_from_str v of Inr k \<Rightarrow> Some k | Inl _ \<Rightarrow> None)) Ax25,
      vara =
        \<lparr>cmd_host = unwrap_or (i (''vara'', ''cmd_host'')) ''127.0.0.1'',
         cmd_port = unwrap_or (Option.bind (i (''vara'', ''cmd_port'')) parse_u16) 8300,
         data_host = unwrap_or (i (''vara'', ''data_host'')) ''127.0.0.1'',
         data_port = unwrap_or (Option.bind (i (''vara'', ''data_port'')) parse_u16) 8301,
         mode = unwrap_or (map_option parse_vara_mode (i (''vara'', ''mode''))) Fm,
         bandwidth =
           unwrap_or (map_option parse_vara_bandwidth (i (''vara'', ''bandwidth''))) VWide\<rparr>\<rparr>"

text \<open>\<open>FileConfig::load\<close>: \<open>file\<close> is \<open>None\<close> when the path does not exist, otherwise the
  parser's answer.\<close>

definition load ::
  "(bytes \<Rightarrow> nat \<Rightarrow> bytes) \<Rightarrow> (bytes, ini) result option \<Rightarrow> (ConfigError, FileConfig) result" where
  "load lc file =
     (case file of
        None \<Rightarrow> Ok default_config
      | Some (Inl e) \<Rightarrow> Err (ConfigParse e)
      | Some (Inr i) \<Rightarrow> Ok (load_ini lc i))"

definition bool_to_string :: "bool \<Rightarrow> bytes" where
  "bool_to_string b = (if b then ''true'' else ''false'')"

text \<open>The map that \<open>FileConfig::save\<close> builds with \<open>ini.set\<close>.\<close>

definition ini_of_config :: "FileConfig \<Rightarrow> ini" where
  "ini_of_config c =
     (let base = Map.empty
        ((''server'', ''agwpe_host'') \<mapsto> agwpe_host c,
         (''server'', ''agwpe_port'') \<mapsto> nat_to_string (agwpe_port c),
         (''session'', ''my_callsign'') \<mapsto> my_callsign c,
         (''session'', ''target_callsign'') \<mapsto> target_callsign c,
         (''session'', ''bpq_command'') \<mapsto> bpq_command c,
         (''session'', ''skip_bpq_app'') \<mapsto> bool_to_string (skip_bpq_app c),
         (''cache'', ''enabled'') \<mapsto> bool_to_string (enabled (cache c)),
         (''cache'', ''max_bytes'') \<mapsto> nat_to_string (max_bytes (cache c)),
         (''cache'', ''max_ttl_seconds'') \<mapsto> nat_to_string (max_ttl_seconds (cache c)));
      with_dir = (case cache_dir (cache c) of
         None \<Rightarrow> base
       | Some d \<Rightarrow> base((''cache'', ''dir'') \<mapsto> from_utf8_lossy d))
      in with_dir
        ((''connection'', ''response_timeout_secs'') \<mapsto>
           nat_to_string (response_timeout_secs (connection c)),
         (''connection'', ''auto_reconnect'') \<mapsto> bool_to_string (auto_reconnect (connection c)),
         (''transport'', ''default'') \<mapsto> transport_kind_to_string (transport_default c),
         (''vara'', ''cmd_host'') \<mapsto> cmd_host (vara c),
         (''vara'', ''cmd_port'') \<mapsto> nat_to_string (cmd_port (vara c)),
         (''vara'', ''data_host'') \<mapsto> data_host (vara c),
         (''vara'', ''data_port'') \<mapsto> nat_to_string (data_port (vara c)),
         (''vara'', ''mode'') \<mapsto> vara_mode_to_string (mode (vara c)),
         (''vara'', ''bandwidth'') \<mapsto> vara_bandwidth_to_string (bandwidth (vara c))))"

text \<open>\<open>FileConfig::save\<close>: \<open>mkdir\<close> and \<open>write\<close> are the answers of \<open>create_dir_all\<close> on the
  parent directory (if any) and of \<open>ini.write\<close>; the result carries the map written.\<close>

definition save ::
  "(bytes, unit) result \<Rightarrow> (ini \<Rightarrow> (bytes, unit) result) \<Rightarrow> FileConfig \<Rightarrow> (ConfigError, ini) result" where
  "save mkdir write c =
     (case mkdir of
        Inl e \<Rightarrow> Err (ConfigIo e)
      | Inr _ \<Rightarrow>
          (case write (ini_of_config c) of
             Inl e \<Rightarrow> Err (ConfigParse e)
           | Inr _ \<Rightarrow> Ok (ini_of_config c)))"

definition update_target :: "bytes \<Rightarrow> FileConfig \<Rightarrow> FileConfig" where
  "update_target target c = c\<lparr>target_callsign := target\<rparr>"

section \<open>The command line\<close>

record Args =
  arg_config :: "bytes option"
  arg_agwpe_host :: "bytes option"
  arg_agwpe_port :: "nat option"
  arg_listen_addr :: bytes
  arg_bpq_command :: bytes
  arg_verbose :: nat
  arg_allowed_hosts :: "bytes list"

text \<open>What clap yields when no option is given: the declared default values.\<close>

definition no_args :: Args where
  "no_args =
     \<lparr>arg_config = None, arg_agwpe_host = None, arg_agwpe_port = None,
      arg_listen_addr = ''127.0.0.1:8080'', arg_bpq_command = ''WEB'', arg_verbose = 0,
      arg_allowed_hosts = []\<rparr>"

record CliArgs =
  cli_config_path :: "bytes option"
  cli_agwpe_host :: "bytes option"
  cli_agwpe_port :: "nat option"
  cli_listen_addr :: bytes
  cli_bpq_command :: "bytes option"
  cli_verbosity :: nat
  cli_allowed_hosts :: "bytes list"

definition cli_parse :: "Args \<Rightarrow> CliArgs" where
  "cli_parse args =
     \<lparr>cli_config_path = arg_config args, cli_agwpe_host = arg_agwpe_host args,
      cli_agwpe_port = arg_agwpe_port args, cli_listen_addr = arg_listen_addr args,
      cli_bpq_command = Some (arg_bpq_command args), cli_verbosity = arg_verbose args,
      cli_allowed_hosts =
        filter (\<lambda>s. s \<noteq> []) (map (\<lambda>s. to_ascii_lowercase (trim s)) (arg_allowed_hosts args))\<rparr>"

text \<open>\<open>resolve_config\<close>: \<open>fs\<close> answers for each path what \<open>load\<close> sees there.\<close>

definition resolve_config ::
  "(bytes \<Rightarrow> nat \<Rightarrow> bytes) \<Rightarrow> bytes option \<Rightarrow> (bytes \<Rightarrow> (bytes, ini) result option)
     \<Rightarrow> CliArgs \<Rightarrow> (ConfigError, FileConfig) result" where
  "resolve_config lc config_dir fs cli =
     res_bind (case cli_config_path cli of Some p \<Rightarrow> Ok p | None \<Rightarrow> default_path config_dir) (\<lambda>path.
     res_bind (load lc (fs path)) (\<lambda>config.
       let config = (case cli_agwpe_host cli of Some h \<Rightarrow> config\<lparr>agwpe_host := h\<rparr> | None \<Rightarrow> config);
           config = (case cli_agwpe_port cli of Some p \<Rightarrow> config\<lparr>agwpe_port := p\<rparr> | None \<Rightarrow> config);
           config = (case cli_bpq_command cli of Some c \<Rightarrow> config\<lparr>bpq_command := c\<rparr> | None \<Rightarrow> config)
       in Ok config))"

section \<open>Round trip\<close>

definition representable :: "FileConfig \<Rightarrow> bool" where
  "representable c \<longleftrightarrow>
     agwpe_port c < 2 ^ 16 \<and> cmd_port (vara c) < 2 ^ 16 \<and> data_port (vara c) < 2 ^ 16 \<and>
     max_bytes (cache c) < 2 ^ 64 \<and> max_ttl_seconds (cache c) < 2 ^ 64 \<and>
     response_timeout_secs (connection c) < 2 ^ 64 \<and>
     (case cache_dir (cache c) of None \<Rightarrow> True | Some d \<Rightarrow> list_all is_ascii d \<and> trim d \<noteq> [])"

lemma vara_mode_inverse [parse_simps]: "parse_vara_mode (vara_mode_to_string m) = m"
  by (cases m) (simp_all add: parse_vara_mode_def)

lemma vara_bandwidth_inverse [parse_simps]:
  "parse_vara_bandwidth (vara_bandwidth_to_string b) = b"
  by (cases b) (simp_all add: parse_vara_bandwidth_def)

lemma transport_kind_inverse [parse_simps]:
  "transport_kind_from_str (transport_kind_to_string k) = Ok k"
  by (cases k) (simp_all add: transport_kind_from_str_def)

lemma lowercase_bool [parse_simps]: "to_lowercase lc (bool_to_string b) = bool_to_string b"
proof -
  have "\<forall>x\<in>set (bool_to_string b). is_ascii x"
    by (simp add: bool_to_string_def ascii_class_defs)
  then have "to_lowercase lc (bool_to_string b) = to_ascii_lowercase (bool_to_string b)"
    by (rule to_lowercase_ascii)
  then show ?thesis
    by (simp add: bool_to_string_def to_ascii_lowercase_def ascii_lower_byte_def ascii_class_defs)
qed

lemma is_truthy_bool [parse_simps]: "is_truthy lc (bool_to_string b) \<longleftrightarrow> b"
  unfolding is_truthy_def lowercase_bool by (simp add: bool_to_string_def)

lemma bool_true_iff [parse_simps]: "bool_to_string b = ''true'' \<longleftrightarrow> b"
  by (simp add: bool_to_string_def)

lemma unwrap_or_Some [simp]: "unwrap_or (Some v) d = v"
  by (simp add: unwrap_or_def)

lemma unwrap_or_None [simp]: "unwrap_or None d = d"
  by (simp add: unwrap_or_def)

text \<open>The saved map answers every key of the loader with the printed field.\<close>

lemma ini_of_config_server:
  "ini_of_config c (''server'', ''agwpe_host'') = Some (agwpe_host c)"
  "ini_of_config c (''server'', ''agwpe_port'') = Some (nat_to_string (agwpe_port c))"
  "ini_of_config c (''session'', ''my_callsign'') = Some (my_callsign c)"
  "ini_of_config c (''session'', ''target_callsign'') = Some (target_callsign c)"
  "ini_of_config c (''session'', ''bpq_command'') = Some (bpq_command c)"
  "ini_of_config c (''session'', ''skip_bpq_app'') = Some (bool_to_string (skip_bpq_app c))"
  by (simp_all add: ini_of_config_def Let_def split: option.splits)

lemma ini_of_config_cache:
  "ini_of_config c (''cache'', ''enabled'') = Some (bool_to_string (enabled (cache c)))"
  "ini_of_config c (''cache'', ''max_bytes'') = Some (nat_to_string (max_bytes (cache c)))"
  "ini_of_config c (''cache'', ''max_ttl_seconds'') = Some (nat_to_string (max_ttl_seconds (cache c)))"
  "ini_of_config c (''cache'', ''dir'') = map_option from_utf8_lossy (cache_dir (cache c))"
  "ini_of_config c (''connection'', ''response_timeout_secs'') =
     Some (nat_to_string (response_timeout_secs (connection c)))"
  "ini_of_config c (''connection'', ''auto_reconnect'') =
     Some (bool_to_string (auto_reconnect (connection c)))"
  by (simp_all add: ini_of_config_def Let_def split: option.splits)

lemma ini_of_config_vara:
  "ini_of_config c (''transport'', ''default'') = Some (transport_kind_to_string (transport_default c))"
  "ini_of_config c (''vara'', ''cmd_host'') = Some (cmd_host (vara c))"
  "ini_of_config c (''vara'', ''cmd_port'') = Some (nat_to_string (cmd_port (vara c)))"
  "ini_of_config c (''vara'', ''data_host'') = Some (data_host (vara c))"
  "ini_of_config c (''vara'', ''data_port'') = Some (nat_to_string (data_port (vara c)))"
  "ini_of_config c (''vara'', ''mode'') = Some (vara_mode_to_string (mode (vara c)))"
  "ini_of_config c (''vara'', ''bandwidth'') = Some (vara_bandwidth_to_string (bandwidth (vara c)))"
  by (simp_all add: ini_of_config_def Let_def)

lemmas ini_of_config_lookup = ini_of_config_server ini_of_config_cache ini_of_config_vara

lemma load_ini_cache_dir:
  "representable c \<Longrightarrow>
     (case map_option from_utf8_lossy (cache_dir (cache c)) of
        None \<Rightarrow> None | Some s \<Rightarrow> if trim s = [] then None else Some s) = cache_dir (cache c)"
  by (auto simp: representable_def from_utf8_lossy_ascii list_all_iff split: option.splits)



text \<open>
  The command line always wins over \<open>bpq_command\<close> of the file, even when the option is
  not given, because the option has the default value \<open>WEB\<close>: a file that sets another
  BPQ application is ignored (the other fields of the file are kept).
\<close>

theorem file_bpq_command_ignored:
  assumes "default_path config_dir = Ok path" and "fs path = Some (Ok i)"
  shows "resolve_config lc config_dir fs (cli_parse no_args)
     = Ok ((load_ini lc i)\<lparr>bpq_command := ''WEB''\<rparr>)"
  using assms by (simp add: resolve_config_def cli_parse_def no_args_def load_def)

theorem file_bpq_command_ignored_witness:
  "resolve_config (\<lambda>_ _. []) (Some ''/etc'')
     (\<lambda>_. Some (Ok (Map.empty((''session'', ''bpq_command'') \<mapsto> ''BROWSE'')))) (cli_parse no_args)
   = Ok ((load_ini (\<lambda>_ _. []) (Map.empty((''session'', ''bpq_command'') \<mapsto> ''BROWSE'')))
           \<lparr>bpq_command := ''WEB''\<rparr>)"
  by (rule file_bpq_command_ignored) (simp_all add: default_path_def)

end
