(* ===== verification/Client_State.thy ===== *)
theory Client_State
  imports Client_Config
begin

text \<open>
  The client's shared state (\<open>client/src/state.rs\<close>): the connection state, the debug log as
  a ring buffer, the port list and the consent bookkeeping.

  A \<open>oneshot::Sender\<close> is represented by a channel number. Timestamps are milliseconds on
  an abstract clock; the functions that stamp an entry take the current reading.
\<close>

section \<open>Data\<close>

datatype ConnectionState =
    CsDisconnected
  | AgwpeConnected
  | Connecting
  | AwaitingConsent (disclaimer: bytes)
  | CsConnected
  | Reconnecting (reason: bytes)
  | CsError bytes

fun connection_state_to_string :: "ConnectionState \<Rightarrow> bytes" where
  "connection_state_to_string CsDisconnected = ''Disconnected''"
| "connection_state_to_string AgwpeConnected = ''AGWPE Connected''"
| "connection_state_to_string Connecting = ''Connecting''"
| "connection_state_to_string (AwaitingConsent d) = ''Awaiting consent''"
| "connection_state_to_string CsConnected = ''Connected''"
| "connection_state_to_string (Reconnecting r) = ''Reconnecting: '' @ r"
| "connection_state_to_string (CsError m) = ''Error: '' @ m"

datatype LogLevel = Info | Debug | Trace

text \<open>The derived order follows the declaration.\<close>

fun log_rank :: "LogLevel \<Rightarrow> nat" where
  "log_rank Info = 0"
| "log_rank Debug = 1"
| "log_rank Trace = 2"

instantiation LogLevel :: linorder
begin

definition less_eq_LogLevel :: "LogLevel \<Rightarrow> LogLevel \<Rightarrow> bool" where
  "less_eq_LogLevel a b \<longleftrightarrow> log_rank a \<le> log_rank b"

definition less_LogLevel :: "LogLevel \<Rightarrow> LogLevel \<Rightarrow> bool" where
  "less_LogLevel a b \<longleftrightarrow> log_rank a < log_rank b"

instance
proof
  fix a b c :: LogLevel
  show "(a < b) = (a \<le> b \<and> \<not> b \<le> a)"
    by (auto simp: less_eq_LogLevel_def less_LogLevel_def)
  show "a \<le> a" by (simp add: less_eq_LogLevel_def)
  show "a \<le> b \<Longrightarrow> b \<le> c \<Longrightarrow> a \<le> c" by (simp add: less_eq_LogLevel_def)
  show "a \<le> b \<Longrightarrow> b \<le> a \<Longrightarrow> a = b"
    by (cases a; cases b) (simp_all add: less_eq_LogLevel_def)
  show "a \<le> b \<or> b \<le> a" by (auto simp: less_eq_LogLevel_def)
qed

end

fun log_level_to_string :: "LogLevel \<Rightarrow> bytes" where
  "log_level_to_string Info = ''INFO''"
| "log_level_to_string Debug = ''DEBUG''"
| "log_level_to_string Trace = ''TRACE''"

datatype Direction = Tx | Rx

fun direction_to_string :: "Direction \<Rightarrow> bytes" where
  "direction_to_string Tx = ''TX''"
| "direction_to_string Rx = ''RX''"

record DebugLogEntry =
  timestamp :: nat
  level :: LogLevel
  direction :: "Direction option"
  category :: bytes
  message :: bytes
  details :: "bytes option"

definition log_entry :: "nat \<Rightarrow> LogLevel \<Rightarrow> bytes \<Rightarrow> bytes \<Rightarrow> DebugLogEntry" where
  "log_entry now lvl cat msg =
     \<lparr>timestamp = now, level = lvl, direction = None, category = cat, message = msg, details = None\<rparr>"

definition with_direction :: "DebugLogEntry \<Rightarrow> Direction \<Rightarrow> DebugLogEntry" where
  "with_direction e d = e\<lparr>direction := Some d\<rparr>"

definition with_details :: "DebugLogEntry \<Rightarrow> bytes \<Rightarrow> DebugLogEntry" where
  "with_details e d = e\<lparr>details := Some d\<rparr>"

record PortInfo =
  port_num :: nat
  description :: bytes

record AppState =
  config :: FileConfig
  connection_state :: ConnectionState
  debug_log :: "DebugLogEntry list"
  available_ports :: "PortInfo list"
  agwpe_port_num :: "nat option"
  pending_consent :: "nat option"
  last_agreed_disclaimer :: "bytes option"
  log_capacity :: nat

section \<open>Operations\<close>

definition app_new :: "FileConfig \<Rightarrow> AppState" where
  "app_new c =
     \<lparr>config = c, connection_state = CsDisconnected, debug_log = [], available_ports = [],
      agwpe_port_num = None, pending_consent = None, last_agreed_disclaimer = None,
      log_capacity = 1000\<rparr>"

definition add_log :: "DebugLogEntry \<Rightarrow> AppState \<Rightarrow> AppState" where
  "add_log entry s =
     (let q = (if log_capacity s \<le> length (debug_log s) then tl (debug_log s) else debug_log s)
      in s\<lparr>debug_log := q @ [entry]\<rparr>)"

definition set_connection_state ::
  "nat \<Rightarrow> ConnectionState \<Rightarrow> AppState \<Rightarrow> DebugLogEntry \<times> AppState" where
  "set_connection_state now cs s =
     (let s = s\<lparr>connection_state := cs\<rparr>;
          entry = log_entry now Info ''STATE''
                    (''State changed to: '' @ connection_state_to_string cs)
      in (entry, add_log entry s))"

definition set_error :: "nat \<Rightarrow> bytes \<Rightarrow> AppState \<Rightarrow> AppState" where
  "set_error now e s =
     add_log (log_entry now Info ''ERROR'' (''Error: '' @ e)) (s\<lparr>connection_state := CsError e\<rparr>)"

definition get_logs :: "LogLevel option \<Rightarrow> AppState \<Rightarrow> DebugLogEntry list" where
  "get_logs min_level s =
     (case min_level of
        None \<Rightarrow> debug_log s
      | Some lvl \<Rightarrow> filter (\<lambda>e. level e \<le> lvl) (debug_log s))"

definition set_ports :: "PortInfo list \<Rightarrow> AppState \<Rightarrow> AppState" where
  "set_ports ports s = s\<lparr>available_ports := ports\<rparr>"

definition set_agwpe_port :: "nat \<Rightarrow> AppState \<Rightarrow> AppState" where
  "set_agwpe_port n s = s\<lparr>agwpe_port_num := Some n\<rparr>"

definition clear_ports :: "AppState \<Rightarrow> AppState" where
  "clear_ports s = s\<lparr>available_ports := [], agwpe_port_num := None\<rparr>"

definition record_agreed_disclaimer :: "bytes \<Rightarrow> AppState \<Rightarrow> AppState" where
  "record_agreed_disclaimer text s = s\<lparr>last_agreed_disclaimer := Some text\<rparr>"

definition clear_agreed_disclaimer :: "AppState \<Rightarrow> AppState" where
  "clear_agreed_disclaimer s = s\<lparr>last_agreed_disclaimer := None\<rparr>"

section \<open>The consent endpoints\<close>

text \<open>\<open>GET /api/consent\<close> (\<open>client/src/proxy.rs\<close>).\<close>

record ConsentInfoResponse =
  awaiting :: bool
  shown_disclaimer :: "bytes option"

definition api_consent_get :: "AppState \<Rightarrow> ConsentInfoResponse" where
  "api_consent_get s =
     (case connection_state s of
        AwaitingConsent d \<Rightarrow> \<lparr>awaiting = True, shown_disclaimer = Some d\<rparr>
      | _ \<Rightarrow> \<lparr>awaiting = False, shown_disclaimer = None\<rparr>)"

record ConsentResponse =
  consent_ok :: bool
  consent_error :: "bytes option"

text \<open>\<open>POST /api/consent\<close>: \<open>rx_alive\<close> says whether the handshake still holds the receiving
  end of the channel, so that \<open>send\<close> succeeds. The last component is the decision
  delivered.\<close>

definition api_consent_post ::
  "bool \<Rightarrow> bool \<Rightarrow> AppState \<Rightarrow> ConsentResponse \<times> AppState \<times> bool option" where
  "api_consent_post rx_alive accepted s =
     (case pending_consent s of
        Some tx \<Rightarrow>
          let s = s\<lparr>pending_consent := None\<rparr>;
              s = (if accepted then
                     (case connection_state s of
                        AwaitingConsent text \<Rightarrow> record_agreed_disclaimer text s
                      | _ \<Rightarrow> s)
                   else s)
          in if rx_alive then (\<lparr>consent_ok = True, consent_error = None\<rparr>, s, Some accepted)
             else (\<lparr>consent_ok = False,
                    consent_error = Some ''Handshake no longer awaiting consent''\<rparr>, s, None)
      | None \<Rightarrow> (\<lparr>consent_ok = False, consent_error = Some ''No consent prompt is pending''\<rparr>,
                 s, None))"

section \<open>The ring buffer\<close>

definition app_inv :: "AppState \<Rightarrow> bool" where
  "app_inv s \<longleftrightarrow> 0 < log_capacity s \<and> length (debug_log s) \<le> log_capacity s"

lemma add_log_inv: "app_inv s \<Longrightarrow> app_inv (add_log e s)"
  by (auto simp: app_inv_def add_log_def Let_def)

lemma set_connection_state_inv:
  "app_inv s \<Longrightarrow> app_inv (snd (set_connection_state now cs s))"
  by (simp add: set_connection_state_def Let_def) (rule add_log_inv, simp add: app_inv_def)

text \<open>What the log holds after any sequence of insertions: the newest entries, in order.\<close>

lemma add_log_drop:
  assumes "app_inv s"
  shows "debug_log (add_log e s) =
     drop (Suc (length (debug_log s)) - log_capacity s) (debug_log s @ [e])"
proof (cases "log_capacity s \<le> length (debug_log s)")
  case True
  with assms have "length (debug_log s) = log_capacity s" "debug_log s \<noteq> []"
    by (auto simp: app_inv_def)
  then show ?thesis by (cases "debug_log s") (auto simp: add_log_def Let_def)
next
  case False
  then show ?thesis by (simp add: add_log_def Let_def)
qed

lemma add_log_frame [simp]:
  "connection_state (add_log e s) = connection_state s"
  "config (add_log e s) = config s"
  "pending_consent (add_log e s) = pending_consent s"
  "last_agreed_disclaimer (add_log e s) = last_agreed_disclaimer s"
  "log_capacity (add_log e s) = log_capacity s"
  "available_ports (add_log e s) = available_ports s"
  "agwpe_port_num (add_log e s) = agwpe_port_num s"
  by (simp_all add: add_log_def Let_def)

lemma set_connection_state_frame [simp]:
  "connection_state (snd (set_connection_state now cs s)) = cs"
  "config (snd (set_connection_state now cs s)) = config s"
  "pending_consent (snd (set_connection_state now cs s)) = pending_consent s"
  "last_agreed_disclaimer (snd (set_connection_state now cs s)) = last_agreed_disclaimer s"
  "log_capacity (snd (set_connection_state now cs s)) = log_capacity s"
  "available_ports (snd (set_connection_state now cs s)) = available_ports s"
  "agwpe_port_num (snd (set_connection_state now cs s)) = agwpe_port_num s"
  by (simp_all add: set_connection_state_def Let_def)

lemma fold_add_log_capacity: "log_capacity (fold add_log es s) = log_capacity s"
  by (induction es arbitrary: s) simp_all

lemma ring_step:
  assumes "0 < n"
  shows "drop (Suc (length (drop (length xs - n) xs)) - n) (drop (length xs - n) xs @ [e])
     = drop (Suc (length xs) - n) (xs @ [e])"
proof (cases "length xs < n")
  case True
  then show ?thesis by simp
next
  case False
  then have "length (drop (length xs - n) xs) = n" "Suc (length xs) - n = Suc (length xs - n)"
    by simp_all
  moreover have "drop (length xs - n) xs @ [e] = drop (length xs - n) (xs @ [e])" by simp
  ultimately show ?thesis by (metis Suc_diff_Suc add_Suc_right drop_drop add.commute
        cancel_comm_monoid_add_class.diff_cancel lessI plus_1_eq_Suc add_0_right diff_Suc_1)
qed

lemma fold_add_log:
  assumes "app_inv s"
  shows "app_inv (fold add_log es s) \<and>
     debug_log (fold add_log es s) =
       drop (length (debug_log s) + length es - log_capacity s) (debug_log s @ es)"
  using assms
proof (induction es rule: rev_induct)
  case Nil
  then show ?case by (simp add: app_inv_def)
next
  case (snoc e es)
  let ?s = "fold add_log es s"
  have inv: "app_inv ?s" and log: "debug_log ?s =
      drop (length (debug_log s) + length es - log_capacity s) (debug_log s @ es)"
    using snoc by auto
  have "debug_log (add_log e ?s) =
      drop (Suc (length (debug_log ?s)) - log_capacity s) (debug_log ?s @ [e])"
    using add_log_drop [OF inv] by (simp add: fold_add_log_capacity)
  also have "\<dots> = drop (length (debug_log s) + length (es @ [e]) - log_capacity s) (debug_log s @ es @ [e])"
    using snoc.prems ring_step [of "log_capacity s" "debug_log s @ es" e]
    by (simp only: log app_inv_def length_append append_assoc) simp
  finally show ?case using add_log_inv [OF inv] by simp
qed

text \<open>
  The debug log is a ring buffer. After any sequence of entries it holds exactly the
  newest \<open>log_capacity\<close> of them in order of arrival, and never more than the capacity.
\<close>

theorem debug_log_keeps_newest:
  assumes "0 < n"
  shows "debug_log (fold add_log es ((app_new c)\<lparr>log_capacity := n\<rparr>)) = drop (length es - n) es
     \<and> length (debug_log (fold add_log es ((app_new c)\<lparr>log_capacity := n\<rparr>))) \<le> n"
  using fold_add_log [of "(app_new c)\<lparr>log_capacity := n\<rparr>" es] assms
  by (auto simp: app_inv_def app_new_def)

theorem debug_log_keeps_newest_witness:
  "debug_log (fold add_log [log_entry 1 Info ''A'' ''a'', log_entry 2 Info ''B'' ''b'', log_entry 3 Debug ''C'' ''c'']
      ((app_new default_config)\<lparr>log_capacity := 2\<rparr>))
   = [log_entry 2 Info ''B'' ''b'', log_entry 3 Debug ''C'' ''c'']"
  using debug_log_keeps_newest [of 2 "[log_entry 1 Info ''A'' ''a'', log_entry 2 Info ''B'' ''b'',
      log_entry 3 Debug ''C'' ''c'']" default_config] by simp

end
