(* ===== verification/Transport.thy ===== *)
theory Transport
  imports Client_State
begin

text \<open>
  What the session driver and the transports share: the error types, the world around the
  background task, TCP streams, and the \<open>Transport\<close> trait of
  \<open>client/src/transport/mod.rs\<close> as a record of operations (the trait object's table).

  Time is explicit. \<open>clock\<close> is the current instant in milliseconds; a TCP stream carries the
  bytes still to arrive with their arrival times, so a read under a deadline either returns
  the next bytes (moving the clock to their arrival) or times out at the deadline. The
  operator is a script too: \<open>presses\<close> are the instants at which Disconnect is clicked
  (\<open>TransportManager::close_session\<close> stores the abort flag before it queues its command),
  \<open>consents\<close> the answers to the consent dialogs. Every theorem quantifies over the scripts,
  so it covers every interleaving of the operator, the peer and the task.

  \<open>sent\<close> records, in order, the byte strings that the session driver handed to
  \<open>Transport::send\<close>; the program never reads it.
\<close>

section \<open>Errors and events\<close>

datatype TransportError =
    TeNotConnected
  | TeIo bytes
  | TeModemError bytes
  | TeSessionRejected bytes
  | TeTimeout

datatype TransportEvent = Data bytes | Disconnected bytes

datatype AgwpeError =
    AgIo bytes
  | ConnectionFailed bytes
  | RegistrationFailed bytes
  | AgNotConnected
  | InvalidFrame bytes
  | AgTimeout
  | TaskStopped
  | SessionDied bytes
  | NeedsReconsent
  | DisconnectedByOperator

fun agwpe_error_to_string :: "AgwpeError \<Rightarrow> bytes" where
  "agwpe_error_to_string (AgIo e) = ''IO error: '' @ e"
| "agwpe_error_to_string (ConnectionFailed m) = ''Connection failed: '' @ m"
| "agwpe_error_to_string (RegistrationFailed m) = ''Registration failed: '' @ m"
| "agwpe_error_to_string AgNotConnected = ''Not connected''"
| "agwpe_error_to_string (InvalidFrame m) = ''Invalid frame: '' @ m"
| "agwpe_error_to_string AgTimeout = ''Timeout''"
| "agwpe_error_to_string TaskStopped = ''Background task stopped''"
| "agwpe_error_to_string (SessionDied r) = ''Session died: '' @ r"
| "agwpe_error_to_string NeedsReconsent = ''Session dropped and requires re-consent''"
| "agwpe_error_to_string DisconnectedByOperator = ''Disconnected by operator''"

fun transport_err_to_agwpe :: "TransportError \<Rightarrow> AgwpeError" where
  "transport_err_to_agwpe TeNotConnected = AgNotConnected"
| "transport_err_to_agwpe TeTimeout = AgTimeout"
| "transport_err_to_agwpe (TeIo e) = AgIo e"
| "transport_err_to_agwpe (TeModemError m) = ConnectionFailed m"
| "transport_err_to_agwpe (TeSessionRejected m) = ConnectionFailed m"

definition map_err :: "('e \<Rightarrow> 'f) \<Rightarrow> ('e, 'a) result \<Rightarrow> ('f, 'a) result" where
  "map_err f r = (case r of Inl e \<Rightarrow> Inl (f e) | Inr a \<Rightarrow> Inr a)"

lemma map_err_simps [simp]: "map_err f (Inl e) = Inl (f e)" "map_err f (Inr a) = Inr a"
  by (simp_all add: map_err_def)

lemma map_err_Ok_iff [simp]: "map_err f r = Inr a \<longleftrightarrow> r = Inr a"
  by (cases r) auto

section \<open>Debug formatting\<close>

text \<open>Unicode tables of the standard library: upper case, and the escape of a non-ASCII
  character inside a \<open>{:?}\<close>-formatted string.\<close>

record Unicode =
  upper_of :: "bytes \<Rightarrow> bytes"
  escape_of :: "bytes \<Rightarrow> bytes"

definition hex_digit :: "nat \<Rightarrow> byte" where
  "hex_digit n = ''0123456789ABCDEF'' ! n"

definition hex_lower :: "nat \<Rightarrow> byte" where
  "hex_lower n = ''0123456789abcdef'' ! n"

definition hex2 :: "byte \<Rightarrow> bytes" where
  "hex2 b = [hex_digit (byte_val b div 16), hex_digit (byte_val b mod 16)]"

definition escape_ascii :: "byte \<Rightarrow> bytes" where
  "escape_ascii b =
     (if byte_val b = 0 then [CHR 0x5C, CHR ''0'']
      else if byte_val b = 9 then [CHR 0x5C, CHR ''t'']
      else if b = LF then [CHR 0x5C, CHR ''n'']
      else if b = CR then [CHR 0x5C, CHR ''r'']
      else if byte_val b = 34 \<or> byte_val b = 92 then [CHR 0x5C, b]
      else if byte_val b < 16 then [CHR 0x5C, CHR ''u'', CHR ''{'', hex_lower (byte_val b), CHR ''}'']
      else if byte_val b < 32 \<or> byte_val b = 127 then
        [CHR 0x5C, CHR ''u'', CHR ''{'', hex_lower (byte_val b div 16), hex_lower (byte_val b mod 16), CHR ''}'']
      else [b])"

definition str_debug :: "Unicode \<Rightarrow> bytes \<Rightarrow> bytes" where
  "str_debug U s =
     CHR 0x22 # concat (map (\<lambda>c. case c of [b] \<Rightarrow> escape_ascii b | _ \<Rightarrow> escape_of U c) (utf8_chars s))
     @ [CHR 0x22]"

fun join_comma :: "bytes list \<Rightarrow> bytes" where
  "join_comma [] = []"
| "join_comma [x] = x"
| "join_comma (x # y # r) = x @ '', '' @ join_comma (y # r)"

definition bytes_debug :: "bytes \<Rightarrow> bytes" where
  "bytes_debug bs = ''['' @ join_comma (map (\<lambda>b. nat_to_string (byte_val b)) bs) @ '']''"

section \<open>TCP streams\<close>

datatype rx_event = RxBytes bytes | RxEof | RxErr bytes

record Tcp =
  rx :: "(nat \<times> rx_event) list"
  written :: bytes
  wr_results :: "bytes option list"

datatype read_result = ReadData bytes | ReadClosed | ReadFailed bytes | ReadTimeout

text \<open>
  One \<open>stream.read(&mut buf)\<close> of at most \<open>cap\<close> bytes before \<open>deadline\<close>. A result of zero
  bytes is \<open>ReadClosed\<close>; end of file and an empty delivery are read again by later calls.
\<close>

fun tcp_read :: "nat \<Rightarrow> nat \<Rightarrow> Tcp \<Rightarrow> nat \<Rightarrow> read_result \<times> Tcp \<times> nat" where
  "tcp_read cap deadline t now =
     (case rx t of
        [] \<Rightarrow> (ReadTimeout, t, max now deadline)
      | (at, ev) # r \<Rightarrow>
          if now < at \<and> deadline \<le> at then (ReadTimeout, t, max now deadline)
          else (case ev of
                  RxEof \<Rightarrow> (ReadClosed, t, max now at)
                | RxErr e \<Rightarrow> (ReadFailed e, t\<lparr>rx := r\<rparr>, max now at)
                | RxBytes bs \<Rightarrow>
                    if bs = [] then (ReadClosed, t, max now at)
                    else (ReadData (take cap bs),
                          t\<lparr>rx := (if drop cap bs = [] then r else (at, RxBytes (drop cap bs)) # r)\<rparr>,
                          max now at)))"

declare tcp_read.simps [simp del]

text \<open>\<open>write_all\<close>; \<open>flush\<close> on a TCP stream does nothing.\<close>

definition tcp_write :: "bytes \<Rightarrow> Tcp \<Rightarrow> (bytes, unit) result \<times> Tcp" where
  "tcp_write bs t =
     (case wr_results t of
        Some e # r \<Rightarrow> (Err e, t\<lparr>wr_results := r\<rparr>)
      | None # r \<Rightarrow> (Ok (), t\<lparr>wr_results := r, written := written t @ bs\<rparr>)
      | [] \<Rightarrow> (Ok (), t\<lparr>written := written t @ bs\<rparr>))"

text \<open>An upper bound on what a stream can still deliver; every successful read lowers it.\<close>

fun rx_size :: "rx_event \<Rightarrow> nat" where
  "rx_size (RxBytes bs) = length bs"
| "rx_size RxEof = 0"
| "rx_size (RxErr e) = 0"

definition tcp_size :: "Tcp \<Rightarrow> nat" where
  "tcp_size t = sum_list (map (\<lambda>(_, ev). rx_size ev) (rx t))"

lemma tcp_read_data:
  assumes "tcp_read cap dl t now = (ReadData bs, t', now')" and "0 < cap"
  shows "tcp_size t' + length bs = tcp_size t" and "bs \<noteq> []" and "length bs \<le> cap"
  using assms
  by (auto simp: tcp_read.simps tcp_size_def split: list.splits if_splits rx_event.splits)

lemma tcp_read_less:
  "tcp_read cap dl t now = (ReadData bs, t', now') \<Longrightarrow> 0 < cap \<Longrightarrow> tcp_size t' < tcp_size t"
  using tcp_read_data [of cap dl t now bs t' now'] by (cases bs) auto

lemma tcp_read_clock: "tcp_read cap dl t now = (r, t', now') \<Longrightarrow> now \<le> now'"
  by (auto simp: tcp_read.simps split: list.splits if_splits rx_event.splits)

lemma tcp_read_size: "tcp_read cap dl t now = (r, t', now') \<Longrightarrow> tcp_size t' \<le> tcp_size t"
  by (auto simp: tcp_read.simps tcp_size_def split: list.splits if_splits rx_event.splits)

lemma tcp_read_frame:
  "tcp_read cap dl t now = (r, t', now') \<Longrightarrow> written t' = written t \<and> wr_results t' = wr_results t"
  by (auto simp: tcp_read.simps split: list.splits if_splits rx_event.splits)

lemma tcp_write_size [simp]: "tcp_size (snd (tcp_write bs t)) = tcp_size t"
  by (auto simp: tcp_write_def tcp_size_def split: list.splits option.splits)

lemma tcp_write_rx [simp]: "rx (snd (tcp_write bs t)) = rx t"
  by (auto simp: tcp_write_def split: list.splits option.splits)

text \<open>Bytes cut anywhere into non-empty segments that all arrive before a deadline.\<close>

definition segments :: "(nat \<times> bytes) list \<Rightarrow> (nat \<times> rx_event) list" where
  "segments segs = map (\<lambda>(at, b). (at, RxBytes b)) segs"

definition timely :: "nat \<Rightarrow> (nat \<times> bytes) list \<Rightarrow> bool" where
  "timely dl segs \<longleftrightarrow> list_all (\<lambda>(at, b). at < dl \<and> b \<noteq> []) segs"

lemma tcp_read_segment:
  assumes "rx st = segments ((at, b) # segs) @ tail" and "at < dl" and "b \<noteq> []" and "0 < cap"
  shows "tcp_read cap dl st now =
     (ReadData (take cap b),
      st\<lparr>rx := segments (if drop cap b = [] then segs else (at, drop cap b) # segs) @ tail\<rparr>,
      max now at)"
  using assms by (auto simp: tcp_read.simps segments_def)

section \<open>The world of the background task\<close>

record World =
  app :: AppState
  log_tx :: "DebugLogEntry list"
  clock :: nat
  abort_flag :: bool
  presses :: "nat list"
  consents :: "(nat \<times> bool option) list"
  sent :: "bytes list"

record 't Sys = World +
  transport :: 't

text \<open>\<open>session::push_log\<close> and \<open>session::set_state\<close>.\<close>

definition push_log :: "DebugLogEntry \<Rightarrow> 'a World_scheme \<Rightarrow> 'a World_scheme" where
  "push_log e s = s\<lparr>app := add_log e (app s), log_tx := log_tx s @ [e]\<rparr>"

definition set_state :: "ConnectionState \<Rightarrow> 'a World_scheme \<Rightarrow> 'a World_scheme" where
  "set_state cs s =
     (let (entry, a) = set_connection_state (clock s) cs (app s)
      in s\<lparr>app := a, log_tx := log_tx s @ [entry]\<rparr>)"

text \<open>\<open>push_log\<close> of a new entry, stamped with the current time.\<close>

definition log_msg :: "LogLevel \<Rightarrow> bytes \<Rightarrow> bytes \<Rightarrow> 'a World_scheme \<Rightarrow> 'a World_scheme" where
  "log_msg lvl cat msg s = push_log (log_entry (clock s) lvl cat msg) s"

definition log_dir ::
  "Direction \<Rightarrow> LogLevel \<Rightarrow> bytes \<Rightarrow> bytes \<Rightarrow> 'a World_scheme \<Rightarrow> 'a World_scheme" where
  "log_dir d lvl cat msg s = push_log (with_direction (log_entry (clock s) lvl cat msg) d) s"

text \<open>\<open>SessionState::reset_abort\<close>, \<open>abort\<close> and \<open>is_aborted\<close>: a press up to now has stored
  \<open>true\<close> into the flag.\<close>

definition reset_abort :: "'a World_scheme \<Rightarrow> 'a World_scheme" where
  "reset_abort s = s\<lparr>abort_flag := False, presses := filter (\<lambda>p. clock s < p) (presses s)\<rparr>"

definition abort :: "'a World_scheme \<Rightarrow> 'a World_scheme" where
  "abort s = s\<lparr>abort_flag := True\<rparr>"

definition is_aborted :: "'a World_scheme \<Rightarrow> bool" where
  "is_aborted s \<longleftrightarrow> abort_flag s \<or> list_ex (\<lambda>p. p \<le> clock s) (presses s)"

text \<open>
  What a log line leaves alone: everything but the debug log and the log channel.
\<close>

definition quiet :: "'a World_scheme \<Rightarrow> 'a World_scheme \<Rightarrow> bool" where
  "quiet s s' \<longleftrightarrow>
     sent s' = sent s \<and> consents s' = consents s \<and> abort_flag s' = abort_flag s
     \<and> presses s' = presses s \<and> config (app s') = config (app s)
     \<and> pending_consent (app s') = pending_consent (app s)
     \<and> last_agreed_disclaimer (app s') = last_agreed_disclaimer (app s)
     \<and> clock s \<le> clock s'"

lemma quiet_refl [simp]: "quiet s s"
  by (simp add: quiet_def)

lemma quiet_trans [trans]: "quiet s t \<Longrightarrow> quiet t u \<Longrightarrow> quiet s u"
  by (simp add: quiet_def)

lemma push_log_frame [simp]:
  "clock (push_log e s) = clock s" "abort_flag (push_log e s) = abort_flag s"
  "presses (push_log e s) = presses s" "consents (push_log e s) = consents s"
  "sent (push_log e s) = sent s"
  "connection_state (app (push_log e s)) = connection_state (app s)"
  "config (app (push_log e s)) = config (app s)"
  "pending_consent (app (push_log e s)) = pending_consent (app s)"
  "last_agreed_disclaimer (app (push_log e s)) = last_agreed_disclaimer (app s)"
  "available_ports (app (push_log e s)) = available_ports (app s)"
  by (simp_all add: push_log_def)

lemma set_state_frame [simp]:
  "clock (set_state cs s) = clock s" "abort_flag (set_state cs s) = abort_flag s"
  "presses (set_state cs s) = presses s" "consents (set_state cs s) = consents s"
  "sent (set_state cs s) = sent s"
  "connection_state (app (set_state cs s)) = cs"
  "config (app (set_state cs s)) = config (app s)"
  "pending_consent (app (set_state cs s)) = pending_consent (app s)"
  "last_agreed_disclaimer (app (set_state cs s)) = last_agreed_disclaimer (app s)"
  "available_ports (app (set_state cs s)) = available_ports (app s)"
  by (simp_all add: set_state_def Let_def split_def)

lemma sys_log_frame [simp]:
  "transport (push_log e s) = transport s" "transport (set_state cs s) = transport s"
  by (simp_all add: push_log_def set_state_def Let_def split_def)

lemma log_frame [simp]:
  "clock (log_msg l c m s) = clock s" "clock (log_dir d l c m s) = clock s"
  "abort_flag (log_msg l c m s) = abort_flag s" "abort_flag (log_dir d l c m s) = abort_flag s"
  "presses (log_msg l c m s) = presses s" "presses (log_dir d l c m s) = presses s"
  "consents (log_msg l c m s) = consents s" "consents (log_dir d l c m s) = consents s"
  "sent (log_msg l c m s) = sent s" "sent (log_dir d l c m s) = sent s"
  "connection_state (app (log_msg l c m s)) = connection_state (app s)"
  "connection_state (app (log_dir d l c m s)) = connection_state (app s)"
  "config (app (log_msg l c m s)) = config (app s)"
  "config (app (log_dir d l c m s)) = config (app s)"
  "pending_consent (app (log_msg l c m s)) = pending_consent (app s)"
  "pending_consent (app (log_dir d l c m s)) = pending_consent (app s)"
  "last_agreed_disclaimer (app (log_msg l c m s)) = last_agreed_disclaimer (app s)"
  "last_agreed_disclaimer (app (log_dir d l c m s)) = last_agreed_disclaimer (app s)"
  "available_ports (app (log_msg l c m s)) = available_ports (app s)"
  "available_ports (app (log_dir d l c m s)) = available_ports (app s)"
  by (simp_all add: log_msg_def log_dir_def)

lemma sys_msg_frame [simp]:
  "transport (log_msg l c m s) = transport s" "transport (log_dir d l c m s) = transport s"
  by (simp_all add: log_msg_def log_dir_def)

lemma quiet_log [simp]:
  "quiet s (push_log e s)" "quiet s (set_state cs s)"
  "quiet s (log_msg l c m s)" "quiet s (log_dir d l c m s)"
  by (simp_all add: quiet_def)

lemma quiet_log_iff [simp]:
  "quiet s (push_log e s') = quiet s s'" "quiet s (set_state cs s') = quiet s s'"
  "quiet s (log_msg l c m s') = quiet s s'" "quiet s (log_dir d l c m s') = quiet s s'"
  "quiet (push_log e s) s' = quiet s s'" "quiet (set_state cs s) s' = quiet s s'"
  "quiet (log_msg l c m s) s' = quiet s s'" "quiet (log_dir d l c m s) s' = quiet s s'"
  by (simp_all add: quiet_def)

lemma is_aborted_log [simp]:
  "is_aborted (push_log e s) = is_aborted s" "is_aborted (set_state cs s) = is_aborted s"
  "is_aborted (log_msg l c m s) = is_aborted s" "is_aborted (log_dir d l c m s) = is_aborted s"
  by (simp_all add: is_aborted_def)

lemma is_aborted_quiet: "quiet s s' \<Longrightarrow> is_aborted s \<Longrightarrow> is_aborted s'"
  by (auto simp: quiet_def is_aborted_def list_ex_iff intro: order_trans)

section \<open>The trait\<close>

text \<open>
  \<open>recv\<close> and \<open>send\<close> of both implementations touch nothing but the transport (and take time);
  the other operations may log and change the shared state.
\<close>

record 't Transport =
  t_recv :: "nat \<Rightarrow> 't \<Rightarrow> nat \<Rightarrow> (TransportError, TransportEvent) result \<times> 't \<times> nat"
  t_send :: "bytes \<Rightarrow> 't \<Rightarrow> (TransportError, unit) result \<times> 't"
  t_connect_modem :: "TransportConfig \<Rightarrow> 't Sys \<Rightarrow> (TransportError, unit) result \<times> 't Sys"
  t_disconnect_modem :: "'t Sys \<Rightarrow> (TransportError, unit) result \<times> 't Sys"
  t_open_session :: "SessionConfig \<Rightarrow> 't Sys \<Rightarrow> (TransportError, unit) result \<times> 't Sys"
  t_close_session :: "'t Sys \<Rightarrow> (TransportError, unit) result \<times> 't Sys"
  t_port_query_supported :: bool
  t_open_ax25_link :: "'t Sys \<Rightarrow> (TransportError, unit) result \<times> 't Sys"
  t_reopen_modem_connection :: "'t Sys \<Rightarrow> (TransportError, unit) result \<times> 't Sys"
  t_query_ports :: "'t Sys \<Rightarrow> (TransportError, unit) result \<times> 't Sys"

text \<open>The default bodies of the trait's optional operations.\<close>

definition default_op :: "'t Sys \<Rightarrow> (TransportError, unit) result \<times> 't Sys" where
  "default_op s = (Ok (), s)"

definition sys_recv ::
  "'t Transport \<Rightarrow> nat \<Rightarrow> 't Sys \<Rightarrow> (TransportError, TransportEvent) result \<times> 't Sys" where
  "sys_recv T deadline s =
     (let (r, t, now) = t_recv T deadline (transport s) (clock s)
      in (r, s\<lparr>transport := t, clock := now\<rparr>))"

definition sys_send :: "'t Transport \<Rightarrow> bytes \<Rightarrow> 't Sys \<Rightarrow> (TransportError, unit) result \<times> 't Sys" where
  "sys_send T data s =
     (let (r, t) = t_send T data (transport s)
      in (r, s\<lparr>transport := t, sent := sent s @ [data]\<rparr>))"

text \<open>
  The contract the session driver relies on. Time does not run backwards, and an operation
  of the transport neither sends application data of its own, nor answers for the operator,
  nor changes the configuration or the consent record.
\<close>

locale transport_contract =
  fixes T :: "'t Transport"
  assumes recv_clock: "t_recv T dl t now = (ev, t', now') \<Longrightarrow> now \<le> now'"
    and open_link_quiet: "t_open_ax25_link T s = (r, s') \<Longrightarrow> quiet s s'"
    and reopen_quiet: "t_reopen_modem_connection T s = (r, s') \<Longrightarrow> quiet s s'"
    and open_session_quiet: "t_open_session T cfg s = (r, s') \<Longrightarrow> quiet s s'"
    and close_session_quiet: "t_close_session T s = (r, s') \<Longrightarrow> quiet s s'"
    and connect_quiet: "t_connect_modem T tc s = (r, s') \<Longrightarrow> quiet s s'"
    and disconnect_quiet: "t_disconnect_modem T s = (r, s') \<Longrightarrow> quiet s s'"
    and query_quiet: "t_query_ports T s = (r, s') \<Longrightarrow> quiet s s'"
begin

lemma sys_recv_quiet: "sys_recv T dl s = (r, s') \<Longrightarrow> quiet s s'"
  by (auto simp: sys_recv_def quiet_def Let_def split: prod.splits dest: recv_clock)

lemma sys_recv_app: "sys_recv T dl s = (r, s') \<Longrightarrow> app s' = app s"
  by (auto simp: sys_recv_def split: prod.splits)

end

text \<open>
  A transport that drains: every delivery of data uses up something of a finite supply.
  This is what makes the receive loops of the session driver end.
\<close>

locale draining_transport = transport_contract T for T :: "'t Transport" +
  fixes rank :: "'t \<Rightarrow> nat"
  assumes recv_drains: "t_recv T dl t now = (Ok (Data bs), t', now') \<Longrightarrow> rank t' < rank t"

text \<open>
  What the local interface relies on besides: talking to the modem never makes a session. Only the
  session driver declares one open.
\<close>

definition stays_closed :: "'a World_scheme \<Rightarrow> 'a World_scheme \<Rightarrow> bool" where
  "stays_closed s s' \<longleftrightarrow> (connection_state (app s') = CsConnected \<longrightarrow> connection_state (app s) = CsConnected)"

lemma stays_closed_refl [simp]: "stays_closed s s"
  by (simp add: stays_closed_def)

locale modem_contract = transport_contract T for T :: "'t Transport" +
  assumes connect_closed: "t_connect_modem T tc s = (r, s') \<Longrightarrow> stays_closed s s'"
    and disconnect_closed: "t_disconnect_modem T s = (r, s') \<Longrightarrow> stays_closed s s'"
    and query_closed: "t_query_ports T s = (r, s') \<Longrightarrow> stays_closed s s'"
    and close_closed: "t_close_session T s = (r, s') \<Longrightarrow> stays_closed s s'"

lemma sys_send_frame:
  "sys_send T d s = (r, s') \<Longrightarrow> sent s' = sent s @ [d] \<and> app s' = app s \<and> clock s' = clock s
     \<and> consents s' = consents s \<and> abort_flag s' = abort_flag s \<and> presses s' = presses s"
  by (auto simp: sys_send_def split: prod.splits)

end
