(* ===== verification/Base64.thy ===== *)
theory Base64
  imports Rust_Str
begin

text \<open>
  The base64 engine of the \<open>base64\<close> crate is code outside the repository: the protocol
  model takes its \<open>encode\<close> and \<open>decode\<close> as arguments. The locale \<open>base64_codec\<close> names
  what the protocol relies on (decoding undoes encoding, the output stays in the RFC 4648
  standard alphabet with padding), and its facts are what the protocol proofs use.

  The second half writes RFC 4648 section 4 out as executable functions and interprets the
  locale on them, so every hypothesis about the engine is known to be satisfiable.
\<close>

definition is_base64_byte :: "byte \<Rightarrow> bool" where
  "is_base64_byte b \<longleftrightarrow>
     is_ascii_alphanumeric b \<or> b = CHR ''+'' \<or> b = CHR ''/'' \<or> b = CHR ''=''"

text \<open>Bytes that LinBPQ's telnet driver leaves alone.\<close>

definition telnet_safe :: "byte \<Rightarrow> bool" where
  "telnet_safe b \<longleftrightarrow> b = LF \<or> in_range b 0x20 0x7E"

lemma base64_byte_safe: "is_base64_byte b \<Longrightarrow> telnet_safe b \<and> is_ascii b"
  by (auto simp: is_base64_byte_def telnet_safe_def ascii_class_defs)

lemma base64_byte_neq:
  "is_base64_byte b \<Longrightarrow> b \<noteq> LF \<and> b \<noteq> CR \<and> b \<noteq> CHR '' '' \<and> b \<noteq> CHR ''*''"
  by (auto simp: is_base64_byte_def ascii_class_defs LF_def CR_def)

locale base64_codec =
  fixes enc :: "bytes \<Rightarrow> bytes"
    and dec :: "bytes \<Rightarrow> bytes option"
  assumes dec_enc: "dec (enc p) = Some p"
    and enc_alphabet: "b \<in> set (enc p) \<Longrightarrow> is_base64_byte b"
begin

lemma enc_safe: "b \<in> set (enc p) \<Longrightarrow> telnet_safe b"
  using enc_alphabet base64_byte_safe by blast

lemma enc_no_control:
  "LF \<notin> set (enc p)" "CR \<notin> set (enc p)" "CHR '' '' \<notin> set (enc p)" "CHR ''*'' \<notin> set (enc p)"
  using enc_alphabet base64_byte_neq by blast+

lemma enc_inject: "enc p = enc q \<longleftrightarrow> p = q"
  by (metis dec_enc option.inject)

end

section \<open>RFC 4648\<close>

definition b64_alphabet :: bytes where
  "b64_alphabet = ''ABCDEFGHIJKLMNOPQRSTUVWXYZabcdefghijklmnopqrstuvwxyz0123456789+/''"

definition b64_char :: "nat \<Rightarrow> byte" where
  "b64_char n = b64_alphabet ! n"

definition b64_value :: "byte \<Rightarrow> nat option" where
  "b64_value b = position (\<lambda>c. c = b) b64_alphabet"

fun b64_encode :: "bytes \<Rightarrow> bytes" where
  "b64_encode [] = []"
| "b64_encode [a] =
     [b64_char (byte_val a div 4), b64_char (byte_val a mod 4 * 16), CHR ''='', CHR ''='']"
| "b64_encode [a, b] =
     [b64_char (byte_val a div 4), b64_char (byte_val a mod 4 * 16 + byte_val b div 16),
      b64_char (byte_val b mod 16 * 4), CHR ''='']"
| "b64_encode (a # b # c # r) =
     b64_char (byte_val a div 4) # b64_char (byte_val a mod 4 * 16 + byte_val b div 16) #
     b64_char (byte_val b mod 16 * 4 + byte_val c div 64) # b64_char (byte_val c mod 64) #
     b64_encode r"

fun b64_decode :: "bytes \<Rightarrow> bytes option" where
  "b64_decode [] = Some []"
| "b64_decode (w # x # y # z # r) =
     (case (b64_value w, b64_value x) of
        (Some i, Some j) \<Rightarrow>
          if z = CHR ''='' then
            if r \<noteq> [] then None
            else if y = CHR ''='' then
              (if j mod 16 = 0 then Some [char_of (i * 4 + j div 16)] else None)
            else (case b64_value y of
                    Some k \<Rightarrow>
                      if k mod 4 = 0
                      then Some [char_of (i * 4 + j div 16), char_of (j mod 16 * 16 + k div 4)]
                      else None
                  | None \<Rightarrow> None)
          else (case (b64_value y, b64_value z) of
                  (Some k, Some l) \<Rightarrow>
                    map_option
                      (\<lambda>t. char_of (i * 4 + j div 16) # char_of (j mod 16 * 16 + k div 4)
                           # char_of (k mod 4 * 64 + l) # t)
                      (b64_decode r)
                | _ \<Rightarrow> None)
      | _ \<Rightarrow> None)"
| "b64_decode _ = None"

lemma b64_table_check:
  "list_all (\<lambda>n. b64_value (b64_char n) = Some n \<and> is_base64_byte (b64_char n)
     \<and> b64_char n \<noteq> CHR ''='') [0..<64]"
  by code_simp

lemma b64_table:
  assumes "n < 64"
  shows "b64_value (b64_char n) = Some n" "is_base64_byte (b64_char n)" "b64_char n \<noteq> CHR ''=''"
  using b64_table_check assms by (auto simp: list_all_iff)

lemma is_base64_byte_pad [simp]: "is_base64_byte CHR ''=''"
  by (simp add: is_base64_byte_def)

text \<open>Arithmetic of three octets and four sextets.\<close>

lemma sextets:
  fixes a b c :: nat
  assumes "a < 256" "b < 256" "c < 256"
  shows "a div 4 < 64" "a mod 4 * 16 < 64" "a mod 4 * 16 + b div 16 < 64"
    "b mod 16 * 4 < 64" "b mod 16 * 4 + c div 64 < 64" "c mod 64 < 64"
  using assms by arith+

lemma octets:
  fixes b c :: nat
  assumes "b < 256" "c < 256"
  shows "b div 16 div 16 = 0" "b div 16 mod 16 = b div 16"
    "c div 64 div 4 = 0" "c div 64 mod 4 = c div 64"
  using assms by simp_all

lemmas byte_sextets = sextets [OF byte_val_less byte_val_less byte_val_less]
lemmas byte_octets = octets [OF byte_val_less byte_val_less]

lemma b64_decode_encode: "b64_decode (b64_encode p) = Some p"
proof (induction p rule: b64_encode.induct)
  case 1
  show ?case by simp
next
  case (2 a)
  show ?case by (simp add: b64_table byte_sextets byte_octets)
next
  case (3 a b)
  show ?case by (simp add: b64_table byte_sextets byte_octets)
next
  case (4 a b c r)
  then show ?case by (simp add: b64_table byte_sextets byte_octets)
qed

lemma b64_encode_alphabet: "b \<in> set (b64_encode p) \<Longrightarrow> is_base64_byte b"
  by (induction p rule: b64_encode.induct) (auto simp: b64_table byte_sextets)

interpretation rfc4648: base64_codec b64_encode b64_decode
  by unfold_locales (rule b64_decode_encode, rule b64_encode_alphabet)

end
