(* ===== verification/Protocol.thy ===== *)
theory Protocol
  imports Base64
begin

text \<open>
  The wire protocol of \<open>shared/src/protocol.rs\<close>: requests as text lines (with a binary
  body for POST), responses as a printable frame

    \<^verbatim>\<open>RESP<status> <base64_len> <etag> <max_age>\n<base64_payload>\n\<close>

  The base64 engine is an argument (\<open>enc\<close>, \<open>dec\<close>), and so are SHA-256 and the URL-safe
  engine behind the etag. Definitions first, then the codec laws: requests and responses
  round-trip, a response frame is found behind any banner text, it is telnet-safe, and a
  header decoded from a prefix of the stream never changes when more bytes arrive.
\<close>

section \<open>Data\<close>

datatype ProtocolError = InvalidRequest | InvalidResponse | UrlTooLong | PayloadTooLarge

datatype Request =
    Get (req_url: bytes) (if_none_match: "bytes option")
  | Post (req_url: bytes) (post_body: bytes)

datatype Status = StatusOk | StatusErr | StatusBlocked | StatusNotModified

fun status_try_from :: "byte \<Rightarrow> (ProtocolError, Status) result" where
  "status_try_from v =
     (if byte_val v = 0 then Ok StatusOk
      else if byte_val v = 1 then Ok StatusErr
      else if byte_val v = 2 then Ok StatusBlocked
      else if byte_val v = 3 then Ok StatusNotModified
      else Err InvalidResponse)"

record Response =
  status :: Status
  etag :: bytes
  max_age :: int
  payload :: bytes

section \<open>Requests\<close>

definition sentinel :: bytes where
  "sentinel = '' IF-NONE-MATCH ''"

fun request_encode :: "Request \<Rightarrow> bytes" where
  "request_encode (Get url None) = ''GET '' @ url @ [LF]"
| "request_encode (Get url (Some tag)) = ''GET '' @ url @ sentinel @ tag @ [LF]"
| "request_encode (Post url body) =
     ''POST '' @ url @ [LF] @ to_be_bytes (of_nat (length body)) @ body"

definition decode_get_line :: "bytes \<Rightarrow> Request" where
  "decode_get_line line =
     (case split_once sentinel line of
        Some (url, tag) \<Rightarrow> Get url (Some tag)
      | None \<Rightarrow> Get line None)"

definition request_decode :: "bytes \<Rightarrow> (ProtocolError, Request) result" where
  "request_decode data =
     (if data = [] then Err InvalidRequest
      else if prefix ''GET '' data then
        (case position (\<lambda>b. b = LF) (drop 4 data) of
           None \<Rightarrow> Err InvalidRequest
         | Some line_end \<Rightarrow>
             (case from_utf8 (take line_end (drop 4 data)) of
                None \<Rightarrow> Err InvalidRequest
              | Some line \<Rightarrow> Ok (decode_get_line line)))
      else if prefix ''POST '' data then
        (case position (\<lambda>b. b = LF) (drop 5 data) of
           None \<Rightarrow> Err InvalidRequest
         | Some url_end \<Rightarrow>
             (case from_utf8 (take url_end (drop 5 data)) of
                None \<Rightarrow> Err InvalidRequest
              | Some url \<Rightarrow>
                  let body_start = 5 + url_end + 1 in
                  if length data < body_start + 4 then Err InvalidRequest
                  else
                    let body_len = unat (u32_of_bytes (data ! body_start) (data ! (body_start + 1))
                                           (data ! (body_start + 2)) (data ! (body_start + 3))) in
                    if length data < body_start + 4 + body_len then Err InvalidRequest
                    else Ok (Post url (take body_len (drop (body_start + 4) data)))))
      else Err InvalidRequest)"

section \<open>Responses\<close>

definition MAGIC :: bytes where
  "MAGIC = ''RESP''"

fun status_digit :: "Status \<Rightarrow> byte" where
  "status_digit StatusOk = CHR ''0''"
| "status_digit StatusErr = CHR ''1''"
| "status_digit StatusBlocked = CHR ''2''"
| "status_digit StatusNotModified = CHR ''3''"

definition response_encode :: "(bytes \<Rightarrow> bytes) \<Rightarrow> Response \<Rightarrow> bytes" where
  "response_encode enc r =
     (let encoded_payload = enc (payload r) in
      MAGIC @ [status_digit (status r), CHR '' ''] @ nat_to_string (length encoded_payload)
      @ [CHR '' ''] @ etag r @ [CHR '' ''] @ int_to_string (max_age r) @ [LF]
      @ encoded_payload @ [LF])"

definition status_of_digit :: "byte \<Rightarrow> Status option" where
  "status_of_digit b =
     (if b = CHR ''0'' then Some StatusOk
      else if b = CHR ''1'' then Some StatusErr
      else if b = CHR ''2'' then Some StatusBlocked
      else if b = CHR ''3'' then Some StatusNotModified
      else None)"

definition valid_etag :: "bytes \<Rightarrow> bool" where
  "valid_etag e \<longleftrightarrow>
     e = ''-'' \<or>
     length e = 16 \<and>
     list_all (\<lambda>b. is_ascii_alphanumeric b \<or> b = CHR ''-'' \<or> b = CHR ''_'') e"

text \<open>The fields of the header line: \<open>len etag max_age\<close>, each error in the source's order.\<close>

definition decode_fields :: "bytes \<Rightarrow> (ProtocolError, nat \<times> bytes \<times> int) result" where
  "decode_fields header_line =
     (case split_char (CHR '' '') header_line of
        len_str # tag # rest \<Rightarrow>
          if \<not> valid_etag tag then Err InvalidResponse
          else (case rest of
                  [max_age_str] \<Rightarrow>
                    (case parse_u32 len_str of
                       None \<Rightarrow> Err InvalidResponse
                     | Some payload_len \<Rightarrow>
                         (case parse_i32 max_age_str of
                            None \<Rightarrow> Err InvalidResponse
                          | Some age \<Rightarrow> Ok (payload_len, tag, age)))
                | _ \<Rightarrow> Err InvalidResponse)
      | _ \<Rightarrow> Err InvalidResponse)"

type_synonym header = "Status \<times> nat \<times> bytes \<times> int \<times> nat"

definition decode_header :: "bytes \<Rightarrow> (ProtocolError, header option) result" where
  "decode_header data =
     (case find_sub MAGIC data of
        None \<Rightarrow> Ok None
      | Some magic_pos \<Rightarrow>
          let after_magic = magic_pos + length MAGIC in
          if length data < after_magic + 2 then Ok None
          else (case status_of_digit (data ! after_magic) of
                  None \<Rightarrow> Err InvalidResponse
                | Some st \<Rightarrow>
                    if data ! (after_magic + 1) \<noteq> CHR '' '' then Err InvalidResponse
                    else
                      let fields_start = after_magic + 2 in
                      (case position (\<lambda>b. b = LF \<or> b = CR) (drop fields_start data) of
                         None \<Rightarrow> Ok None
                       | Some nl_offset \<Rightarrow>
                           (case from_utf8 (take nl_offset (drop fields_start data)) of
                              None \<Rightarrow> Err InvalidResponse
                            | Some header_line \<Rightarrow>
                                (case decode_fields header_line of
                                   Inl e \<Rightarrow> Err e
                                 | Inr (payload_len, tag, age) \<Rightarrow>
                                     Ok (Some (st, payload_len, tag, age,
                                               fields_start + nl_offset + 1)))))))"

definition decode_payload ::
  "(bytes \<Rightarrow> bytes option) \<Rightarrow> bytes \<Rightarrow> (ProtocolError, bytes) result" where
  "decode_payload dec base64_bytes = ok_or (dec base64_bytes) InvalidResponse"

text \<open>\<open>sanitized_html_etag\<close>: URL-safe base64 of the first 12 bytes of the SHA-256 hash.\<close>

definition sanitized_html_etag :: "(bytes \<Rightarrow> bytes) \<Rightarrow> (bytes \<Rightarrow> bytes) \<Rightarrow> bytes \<Rightarrow> bytes" where
  "sanitized_html_etag sha256 url_safe html = url_safe (take 12 (sha256 html))"

section \<open>Requests round-trip\<close>

text \<open>What the browser side may put into a request: URLs and etags are valid UTF-8 without
  a line feed, a URL has no space (it would be percent-encoded), a body fits a \<open>u32\<close>.\<close>

fun sendable :: "Request \<Rightarrow> bool" where
  "sendable (Get url tag) \<longleftrightarrow>
     utf8_valid url \<and> LF \<notin> set url \<and> CHR '' '' \<notin> set url \<and>
     (case tag of None \<Rightarrow> True | Some t \<Rightarrow> utf8_valid t \<and> LF \<notin> set t)"
| "sendable (Post url body) \<longleftrightarrow>
     utf8_valid url \<and> LF \<notin> set url \<and> length body < 2 ^ 32"

lemma sentinel_Cons: "sentinel = CHR '' '' # ''IF-NONE-MATCH ''"
  by (simp add: sentinel_def)

lemma sublist_set: "sublist xs ys \<Longrightarrow> set xs \<subseteq> set ys"
  by (auto simp: sublist_def)

lemma no_sentinel: "CHR '' '' \<notin> set url \<Longrightarrow> \<not> sublist sentinel url"
  using sublist_set by (fastforce simp: sentinel_def)

lemma find_sentinel:
  "CHR '' '' \<notin> set url \<Longrightarrow> find_sub sentinel (url @ sentinel @ t) = Some (length url)"
  by (induction url) (auto simp: sentinel_def)

lemma split_sentinel [wire_simps]:
  "CHR '' '' \<notin> set url \<Longrightarrow> split_once sentinel (url @ sentinel @ t) = Some (url, t)"
  "CHR '' '' \<notin> set url \<Longrightarrow> split_once sentinel url = None"
  by (simp_all add: split_once_def find_sentinel find_sub_None_iff no_sentinel)

lemma utf8_valid_sentinel [wire_simps]:
  "utf8_valid url \<Longrightarrow> utf8_valid t \<Longrightarrow> utf8_valid (url @ sentinel @ t)"
proof -
  assume "utf8_valid url" and "utf8_valid t"
  moreover have "utf8_valid sentinel"
    by (rule utf8_valid_ascii) (simp add: sentinel_def ascii_class_defs)
  ultimately show ?thesis by (simp add: utf8_valid_append)
qed

lemma LF_sentinel [simp]: "LF \<notin> set sentinel"
  by (simp add: sentinel_def LF_def)

lemma decode_get_roundtrip:
  assumes "LF \<notin> set line" and "utf8_valid line"
  shows "request_decode (''GET '' @ line @ LF # rest) = Ok (decode_get_line line)"
proof -
  have "position (\<lambda>b. b = LF) (line @ LF # rest) = Some (length line)"
    using assms(1) by (intro position_first) auto
  then show ?thesis using assms(2) by (simp add: request_decode_def from_utf8_def)
qed

lemma decode_post_roundtrip:
  assumes "LF \<notin> set url" and "utf8_valid url" and "length body < 2 ^ 32"
  shows "request_decode (''POST '' @ url @ LF # to_be_bytes (of_nat (length body)) @ body @ rest)
     = Ok (Post url body)"
proof -
  let ?n = "of_nat (length body) :: u32"
  let ?tl = "to_be_bytes ?n @ body @ rest"
  let ?data = "''POST '' @ url @ LF # ?tl"
  let ?bs = "5 + length url + 1"
  have pos: "position (\<lambda>b. b = LF) (drop 5 ?data) = Some (length url)"
    using assms(1) position_first [of url "\<lambda>b. b = LF" LF ?tl] by auto
  have nth: "?data ! (?bs + k) = to_be_bytes ?n ! k" if "k < 4" for k
    using that by (auto simp: nth_append nth_Cons')
  have unat: "unat ?n = length body"
    using assms(3) by (simp add: unat_of_nat)
  have four: "to_be_bytes ?n ! 0 = u32_byte 3 ?n" "to_be_bytes ?n ! 1 = u32_byte 2 ?n"
    "to_be_bytes ?n ! 2 = u32_byte 1 ?n" "to_be_bytes ?n ! 3 = u32_byte 0 ?n"
    by (simp_all add: to_be_bytes_def numeral_2_eq_2 numeral_3_eq_3)
  have len: "unat (u32_of_bytes (?data ! ?bs) (?data ! (?bs + 1)) (?data ! (?bs + 2)) (?data ! (?bs + 3)))
     = length body"
    using nth [of 0] nth [of 1] nth [of 2] nth [of 3] by (simp only: four add_0_right) (simp add: unat)
  have "?data = (''POST '' @ url @ LF # to_be_bytes ?n) @ body @ rest"
    and "length (''POST '' @ url @ LF # to_be_bytes ?n) = ?bs + 4"
    by simp_all
  then have body: "drop (?bs + 4) ?data = body @ rest" by (metis append_eq_conv_conj)
  show ?thesis
    unfolding request_decode_def Let_def pos option.case len body
    using assms(2) by (simp add: from_utf8_def)
qed

text \<open>A request is recovered whatever follows it in the buffer.\<close>

lemma request_decode_encode:
  assumes "sendable r"
  shows "request_decode (request_encode r @ rest) = Ok r"
proof (cases r)
  case (Get url tag)
  show ?thesis
  proof (cases tag)
    case None
    with Get assms decode_get_roundtrip [of url rest] show ?thesis
      by (simp add: decode_get_line_def wire_simps)
  next
    case (Some t)
    with Get assms have l: "LF \<notin> set (url @ sentinel @ t)" "utf8_valid (url @ sentinel @ t)"
      by (auto simp: utf8_valid_sentinel)
    show ?thesis
      using decode_get_roundtrip [OF l, of rest] Get Some assms
      by (simp add: decode_get_line_def wire_simps)
  qed
next
  case (Post url body)
  with assms decode_post_roundtrip [of url body rest] show ?thesis by simp
qed

section \<open>The response frame\<close>

definition well_formed :: "(bytes \<Rightarrow> bytes) \<Rightarrow> Response \<Rightarrow> bool" where
  "well_formed enc r \<longleftrightarrow>
     valid_etag (etag r) \<and> - (2 ^ 31) \<le> max_age r \<and> max_age r < 2 ^ 31 \<and>
     length (enc (payload r)) < 2 ^ 32"

definition header_line :: "(bytes \<Rightarrow> bytes) \<Rightarrow> Response \<Rightarrow> bytes" where
  "header_line enc r =
     nat_to_string (length (enc (payload r))) @ CHR '' '' # etag r
     @ CHR '' '' # int_to_string (max_age r)"

text \<open>The length of the frame's header, line terminator included.\<close>

definition header_size :: "(bytes \<Rightarrow> bytes) \<Rightarrow> Response \<Rightarrow> nat" where
  "header_size enc r = 7 + length (header_line enc r)"

lemma response_encode_shape:
  "response_encode enc r =
     MAGIC @ status_digit (status r) # CHR '' '' # header_line enc r @ LF # enc (payload r) @ [LF]"
  by (simp add: response_encode_def header_line_def Let_def)

lemma status_digit_inverse [simp]: "status_of_digit (status_digit st) = Some st"
  by (cases st) (simp_all add: status_of_digit_def)

lemma etag_bytes:
  "valid_etag e \<Longrightarrow> b \<in> set e \<Longrightarrow> is_ascii_alphanumeric b \<or> b = CHR ''-'' \<or> b = CHR ''_''"
  by (auto simp: valid_etag_def list_all_iff)

lemma header_line_bytes:
  assumes "valid_etag (etag r)" and "b \<in> set (header_line enc r)"
  shows "is_ascii_alphanumeric b \<or> b = CHR ''-'' \<or> b = CHR ''_'' \<or> b = CHR '' ''"
  using assms etag_bytes int_to_string_bytes nat_to_string_bytes
  by (fastforce simp: header_line_def is_ascii_alphanumeric_def)

lemma header_line_ascii:
  assumes "valid_etag (etag r)"
  shows "\<forall>b\<in>set (header_line enc r). is_ascii b \<and> b \<noteq> LF \<and> b \<noteq> CR"
  using header_line_bytes [OF assms]
  by (fastforce simp: ascii_class_defs LF_def CR_def)

lemma decode_fields_header_line [wire_simps]:
  assumes "well_formed enc r"
  shows "decode_fields (header_line enc r) = Ok (length (enc (payload r)), etag r, max_age r)"
proof -
  have "CHR '' '' \<notin> set (nat_to_string n)" "CHR '' '' \<notin> set (int_to_string i)" for n i
    using nat_to_string_bytes int_to_string_bytes by (fastforce simp: ascii_class_defs)+
  moreover have "CHR '' '' \<notin> set (etag r)"
    using assms etag_bytes by (fastforce simp: well_formed_def ascii_class_defs)
  ultimately have "split_char (CHR '' '') (header_line enc r) =
      [nat_to_string (length (enc (payload r))), etag r, int_to_string (max_age r)]"
    by (simp add: header_line_def bytes_simps)
  with assms show ?thesis
    by (simp add: decode_fields_def well_formed_def parse_u32_def parse_i32_def parse_simps)
qed

lemma MAGIC_Cons: "MAGIC = CHR ''R'' # ''ESP''"
  by (simp add: MAGIC_def)

lemma length_MAGIC [simp]: "length MAGIC = 4"
  by (simp add: MAGIC_def)

lemma decode_header_at:
  assumes "\<not> sublist MAGIC pre" and "status_of_digit d = Some st"
    and line: "\<forall>b\<in>set line. is_ascii b \<and> b \<noteq> LF \<and> b \<noteq> CR"
  shows "decode_header (pre @ MAGIC @ d # CHR '' '' # line @ LF # rest) =
     (case decode_fields line of
        Inl e \<Rightarrow> Err e
      | Inr (n, tag, age) \<Rightarrow> Ok (Some (st, n, tag, age, length pre + 7 + length line)))"
proof -
  let ?data = "pre @ MAGIC @ d # CHR '' '' # line @ LF # rest"
  have find: "find_sub MAGIC ?data = Some (length pre)"
    using find_sub_behind [of "CHR ''R''" "''ESP''" pre "d # CHR '' '' # line @ LF # rest"] assms(1)
    by (simp add: MAGIC_Cons)
  have "?data = (pre @ MAGIC @ [d, CHR '' '']) @ line @ LF # rest"
    and len: "length (pre @ MAGIC @ [d, CHR '' '']) = length pre + 4 + 2"
    by simp_all
  then have drop: "drop (length pre + 4 + 2) ?data = line @ LF # rest"
    by (metis append_eq_conv_conj)
  have pos: "position (\<lambda>b. b = LF \<or> b = CR) (line @ LF # rest) = Some (length line)"
    using line by (intro position_first) auto
  have utf8: "from_utf8 (take (length line) (line @ LF # rest)) = Some line"
    using line by (simp add: from_utf8_def)
  have nth: "?data ! (length pre + 4) = d" "?data ! (length pre + 4 + 1) = CHR '' ''"
    by (simp_all add: nth_append)
  have long: "\<not> length ?data < length pre + 4 + 2" by simp
  show ?thesis
    unfolding decode_header_def Let_def find option.case length_MAGIC drop pos utf8 nth assms(2)
    using long by (auto split: sum.splits)
qed

lemma decode_header_frame [wire_simps]:
  assumes "well_formed enc r" and "\<not> sublist MAGIC pre"
  shows "decode_header (pre @ response_encode enc r @ rest) =
     Ok (Some (status r, length (enc (payload r)), etag r, max_age r,
               length pre + header_size enc r))"
proof -
  have "valid_etag (etag r)" using assms(1) by (simp add: well_formed_def)
  note line = header_line_ascii [OF this, of enc]
  show ?thesis
    using decode_header_at [OF assms(2) status_digit_inverse line, of "status r" "enc (payload r) @ LF # rest"]
    by (simp add: response_encode_shape decode_fields_header_line [OF assms(1)] header_size_def
        add.commute add.left_commute)
qed

section \<open>Incremental decoding\<close>

lemma decode_header_extend:
  assumes "decode_header data \<noteq> Ok None"
  shows "decode_header (data @ ms) = decode_header data"
proof -
  obtain p where p: "find_sub MAGIC data = Some p"
    using assms by (cases "find_sub MAGIC data") (simp_all add: decode_header_def)
  note p' = find_sub_Some_append [OF p, of ms]
  have len: "\<not> length data < p + 4 + 2"
    using assms p by (auto simp: decode_header_def)
  then have nth: "(data @ ms) ! (p + 4) = data ! (p + 4)"
      "(data @ ms) ! (p + 4 + 1) = data ! (p + 4 + 1)"
    by (simp_all add: nth_append)
  have drop: "drop (p + 4 + 2) (data @ ms) = drop (p + 4 + 2) data @ ms"
    using len by simp
  have nshort: "\<not> length (data @ ms) < p + 4 + 2" using len by simp
  show ?thesis
  proof (cases "position (\<lambda>b. b = LF \<or> b = CR) (drop (p + 4 + 2) data)")
    case None
    with assms p len show ?thesis
      unfolding decode_header_def Let_def p p' option.case length_MAGIC nth drop
      using nshort by (auto split: option.splits)
  next
    case (Some i)
    have i: "i < length (drop (p + 4 + 2) data)" using position_SomeD [OF Some] by simp
    then have tk: "take i (drop (p + 4 + 2) data @ ms) = take i (drop (p + 4 + 2) data)"
      by simp
    show ?thesis
      unfolding decode_header_def Let_def p p' option.case length_MAGIC nth drop
        position_Some_append [OF Some] Some tk
      using nshort len by simp
  qed
qed

lemma decode_header_end_le:
  assumes "decode_header data = Ok (Some (st, n, tag, age, he))"
  shows "he \<le> length data"
proof -
  obtain p i where "find_sub MAGIC data = Some p" "\<not> length data < p + 4 + 2"
    and pos: "position (\<lambda>b. b = LF \<or> b = CR) (drop (p + 4 + 2) data) = Some i"
    and he: "he = p + 4 + 2 + i + 1"
    using assms
    by (auto simp: decode_header_def Let_def split: option.splits if_splits sum.splits)
  then show ?thesis using position_SomeD [OF pos] by (auto simp: less_diff_conv)
qed

text \<open>However the stream is cut, decoding what has arrived so far answers "not yet" until the
  whole header is there, and from then on the one final answer.\<close>

lemma decode_header_prefix:
  assumes "well_formed enc r" and "\<not> sublist MAGIC pre"
  defines "he \<equiv> length pre + header_size enc r"
  shows "decode_header (take k (pre @ response_encode enc r @ rest)) =
     (if k < he then Ok None
      else Ok (Some (status r, length (enc (payload r)), etag r, max_age r, he)))"
proof -
  let ?data = "pre @ response_encode enc r @ rest"
  let ?h = "Ok (Some (status r, length (enc (payload r)), etag r, max_age r, he)) :: (ProtocolError, header option) result"
  have full: "decode_header ?data = ?h"
    using decode_header_frame [OF assms(1,2)] by (simp add: he_def)
  have ext: "decode_header (take k ?data) = Ok None \<or> decode_header (take k ?data) = ?h"
    using decode_header_extend [of "take k ?data" "drop k ?data"] full
    unfolding append_take_drop_id by metis
  show ?thesis
  proof (cases "k < he")
    case True
    then have "decode_header (take k ?data) \<noteq> ?h"
      using decode_header_end_le [of "take k ?data"] by fastforce
    with ext True show ?thesis by simp
  next
    case False
    let ?hd = "MAGIC @ status_digit (status r) # CHR '' '' # header_line enc r @ [LF]"
    have "?data = (pre @ ?hd) @ enc (payload r) @ LF # rest" "length (pre @ ?hd) = he"
      by (simp_all add: response_encode_shape he_def header_size_def)
    with False have "take k ?data = pre @ ?hd @ take (k - he) (enc (payload r) @ LF # rest)"
      by (metis append.assoc linorder_not_less take_all take_append)
    with assms(1,2) have "decode_header (take k ?data) \<noteq> Ok None"
      using decode_header_at [OF assms(2) status_digit_inverse header_line_ascii,
          of r "status r" enc "take (k - he) (enc (payload r) @ LF # rest)"]
      by (simp add: well_formed_def decode_fields_header_line [OF assms(1)])
    with ext False show ?thesis by simp
  qed
qed

section \<open>Telnet safety\<close>

lemma response_encode_safe:
  assumes "base64_codec enc dec" and "valid_etag (etag r)" and "b \<in> set (response_encode enc r)"
  shows "telnet_safe b"
proof -
  have "telnet_safe b" if "b \<in> set (enc (payload r))"
    using base64_codec.enc_safe [OF assms(1)] that by blast
  moreover have "telnet_safe b" if "b \<in> set (header_line enc r)"
    using header_line_bytes [OF assms(2) that] by (auto simp: telnet_safe_def ascii_class_defs)
  moreover have "telnet_safe (status_digit (status r))"
    by (cases "status r") (auto simp: telnet_safe_def ascii_class_defs)
  ultimately show ?thesis
    using assms(3) by (auto simp: response_encode_shape MAGIC_def telnet_safe_def ascii_class_defs)
qed

section \<open>The codec laws\<close>

text \<open>
  C29: requests survive the wire. Any GET or POST whose URL and etag are valid UTF-8 without a
  line feed (a GET URL also without a space) and whose body fits a 32-bit length decodes to
  itself, whatever bytes follow it in the receive buffer.
\<close>

theorem request_roundtrip:
  assumes "sendable r"
  shows "request_decode (request_encode r @ rest) = Ok r"
  using assms by (rule request_decode_encode)

theorem request_roundtrip_witness:
  "request_decode (request_encode (Get ''http://x/'' (Some ''abc'')) @ ''GET y'')
     = Ok (Get ''http://x/'' (Some ''abc''))
   \<and> request_decode (request_encode (Post ''http://x/'' [CHR 0xFF, LF, CHR 0x00])) = Ok (Post ''http://x/'' [CHR 0xFF, LF, CHR 0x00])"
  using request_roundtrip [of "Get ''http://x/'' (Some ''abc'')" "''GET y''"]
    request_roundtrip [of "Post ''http://x/'' [CHR 0xFF, LF, CHR 0x00]" "[]"]
  by (simp add: LF_def ascii_class_defs)

text \<open>
  Responses survive the wire. Behind any banner text that does not contain the magic word,
  and whatever follows, decoding the header of an encoded response yields its status, etag and
  maximum age, and the payload bytes at the announced place decode to the payload.
\<close>

theorem response_roundtrip:
  assumes "base64_codec enc dec" and "well_formed enc r" and "\<not> sublist MAGIC pre"
  shows "\<exists>len he. decode_header (pre @ response_encode enc r @ rest)
       = Ok (Some (status r, len, etag r, max_age r, he))
     \<and> decode_payload dec (take len (drop he (pre @ response_encode enc r @ rest))) = Ok (payload r)"
proof (intro exI conjI)
  let ?h = "pre @ MAGIC @ status_digit (status r) # CHR '' '' # header_line enc r @ [LF]"
  show "decode_header (pre @ response_encode enc r @ rest)
     = Ok (Some (status r, length (enc (payload r)), etag r, max_age r, length pre + header_size enc r))"
    using assms(2,3) by (rule decode_header_frame)
  have "pre @ response_encode enc r @ rest = ?h @ enc (payload r) @ LF # rest"
    "length ?h = length pre + header_size enc r"
    by (simp_all add: response_encode_shape header_size_def)
  then have "drop (length pre + header_size enc r) (pre @ response_encode enc r @ rest)
      = enc (payload r) @ LF # rest"
    by (metis append_eq_conv_conj)
  then show "decode_payload dec (take (length (enc (payload r)))
      (drop (length pre + header_size enc r) (pre @ response_encode enc r @ rest))) = Ok (payload r)"
    using base64_codec.dec_enc [OF assms(1)] by (simp add: decode_payload_def)
qed

text \<open>A response for the witnesses: the empty payload encodes to nothing.\<close>

definition tiny_response :: Response where
  "tiny_response = \<lparr>status = StatusNotModified, etag = ''-'', max_age = 0, payload = []\<rparr>"

lemma tiny_response_ok: "well_formed b64_encode tiny_response"
  by (simp add: tiny_response_def well_formed_def valid_etag_def)

theorem response_roundtrip_witness:
  "\<exists>len he. decode_header (''bpq> '' @ response_encode b64_encode tiny_response @ [])
       = Ok (Some (StatusNotModified, len, ''-'', 0, he))"
proof -
  have "\<not> sublist MAGIC ''bpq> ''" by (simp add: MAGIC_def sublist_code)
  from response_roundtrip [OF rfc4648.base64_codec_axioms tiny_response_ok this, of "[]"]
  show ?thesis by (auto simp: tiny_response_def)
qed

text \<open>
  C28: decoding is incremental. On the first \<open>k\<close> bytes of a stream with one response in it,
  \<open>decode_header\<close> says "not yet" as long as the header is incomplete and gives the one right
  answer from then on; no prefix of a good stream is ever an error.
\<close>

theorem header_decoding_is_incremental:
  assumes "well_formed enc r" and "\<not> sublist MAGIC pre"
  shows "decode_header (take k (pre @ response_encode enc r @ rest)) =
     (if k < length pre + header_size enc r then Ok None
      else Ok (Some (status r, length (enc (payload r)), etag r, max_age r, length pre + header_size enc r)))"
  using decode_header_prefix [OF assms] .

theorem header_decoding_is_incremental_witness:
  "decode_header (take 9 ([] @ response_encode b64_encode tiny_response @ [])) = Ok None"
proof -
  have "\<not> sublist MAGIC []" by (simp add: MAGIC_def)
  from header_decoding_is_incremental [OF tiny_response_ok this, of 9 "[]"]
  show ?thesis
    by (simp add: header_size_def header_line_def tiny_response_def int_to_string_def nat_to_string.simps)
qed

text \<open>
  A response frame is telnet-safe. Every byte of it is a line feed or printable ASCII, so
  LinBPQ's telnet driver, which eats IAC and rewrites carriage returns, leaves it alone.
\<close>

theorem response_is_telnet_safe:
  assumes "base64_codec enc dec" and "valid_etag (etag r)"
  shows "list_all telnet_safe (response_encode enc r)"
  using response_encode_safe [OF assms] by (simp add: list_all_iff)

theorem response_is_telnet_safe_witness:
  "list_all telnet_safe (response_encode b64_encode \<lparr>status = StatusOk, etag = ''-'', max_age = -1, payload = [CHR 0xFF, CHR 0x0D]\<rparr>)"
  using response_is_telnet_safe [OF rfc4648.base64_codec_axioms, of "\<lparr>status = StatusOk, etag = ''-'', max_age = -1, payload = [CHR 0xFF, CHR 0x0D]\<rparr>"]
  by (simp add: valid_etag_def)

end
