(* ===== verification/Agwpe_Frame.thy ===== *)
theory Agwpe_Frame
  imports Transport Protocol
begin

text \<open>
  The AGWPE-P frame codec of \<open>client/src/transport/agwpe.rs\<close>: a 36-byte header (port, kind,
  two ten-byte callsign fields, little-endian lengths) and the data. The lemmas show that
  frames round-trip, that a frame can be cut off the front of a buffer whatever follows it,
  and that an encoded response never looks like a disconnect notice.
\<close>

section \<open>Data\<close>

datatype FrameType =
    RegisterCallsign
  | RegistrationResponse
  | Connect
  | Connected
  | Disconnect
  | SendData
  | ConnectionRejected
  | QueryPorts
  | PortInfoFrame

fun frame_type_code :: "FrameType \<Rightarrow> byte" where
  "frame_type_code RegisterCallsign = CHR 0x58"
| "frame_type_code RegistrationResponse = CHR 0x78"
| "frame_type_code Connect = CHR 0x43"
| "frame_type_code Connected = CHR 0x63"
| "frame_type_code Disconnect = CHR 0x64"
| "frame_type_code SendData = CHR 0x44"
| "frame_type_code ConnectionRejected = CHR 0x52"
| "frame_type_code QueryPorts = CHR 0x47"
| "frame_type_code PortInfoFrame = CHR 0x67"

definition frame_type_try_from :: "byte \<Rightarrow> (AgwpeError, FrameType) result" where
  "frame_type_try_from v =
     (if v = CHR 0x58 then Ok RegisterCallsign
      else if v = CHR 0x78 then Ok RegistrationResponse
      else if v = CHR 0x43 then Ok Connect
      else if v = CHR 0x63 then Ok Connected
      else if v = CHR 0x64 then Ok Disconnect
      else if v = CHR 0x44 then Ok SendData
      else if v = CHR 0x52 then Ok ConnectionRejected
      else if v = CHR 0x47 then Ok QueryPorts
      else if v = CHR 0x67 then Ok PortInfoFrame
      else Err (InvalidFrame (''Unknown frame type: 0x'' @ hex2 v)))"

fun frame_type_debug :: "FrameType \<Rightarrow> bytes" where
  "frame_type_debug RegisterCallsign = ''RegisterCallsign''"
| "frame_type_debug RegistrationResponse = ''RegistrationResponse''"
| "frame_type_debug Connect = ''Connect''"
| "frame_type_debug Connected = ''Connected''"
| "frame_type_debug Disconnect = ''Disconnect''"
| "frame_type_debug SendData = ''SendData''"
| "frame_type_debug ConnectionRejected = ''ConnectionRejected''"
| "frame_type_debug QueryPorts = ''QueryPorts''"
| "frame_type_debug PortInfoFrame = ''PortInfo''"

record AgwpeFrame =
  frame_port :: byte
  frame_type :: FrameType
  pid :: byte
  call_from :: bytes
  call_to :: bytes
  data_len :: u32
  user_data :: u32
  frame_data :: bytes

definition MAX_FRAME_DATA_SIZE :: nat where
  "MAX_FRAME_DATA_SIZE = 64 * 1024"

definition HEADER_SIZE :: nat where
  "HEADER_SIZE = 36"

section \<open>Encoding and decoding\<close>

definition frame_new :: "byte \<Rightarrow> FrameType \<Rightarrow> bytes \<Rightarrow> bytes \<Rightarrow> bytes \<Rightarrow> AgwpeFrame" where
  "frame_new p ft from_call to_call d =
     \<lparr>frame_port = p, frame_type = ft, pid = CHR 0x00, call_from = from_call, call_to = to_call,
      data_len = of_nat (length d), user_data = 0, frame_data = d\<rparr>"

text \<open>A callsign in its ten-byte field: at most nine bytes, padded with zeros.\<close>

definition callsign_field :: "bytes \<Rightarrow> bytes" where
  "callsign_field c = (let len = min (length c) 9 in take len c @ replicate (10 - len) (CHR 0x00))"

definition frame_encode :: "AgwpeFrame \<Rightarrow> bytes" where
  "frame_encode f =
     [frame_port f] @ replicate 3 (CHR 0x00) @ [frame_type_code (frame_type f)]
     @ replicate 3 (CHR 0x00) @ callsign_field (call_from f) @ callsign_field (call_to f)
     @ to_le_bytes (data_len f) @ to_le_bytes (user_data f) @ frame_data f"

definition extract_callsign :: "bytes \<Rightarrow> (AgwpeError, bytes) result" where
  "extract_callsign bs =
     (let len = (case position (\<lambda>b. b = CHR 0x00) bs of Some i \<Rightarrow> i | None \<Rightarrow> length bs)
      in ok_or (from_utf8 (take len bs)) (InvalidFrame ''Invalid callsign encoding''))"

definition slice :: "nat \<Rightarrow> nat \<Rightarrow> 'a list \<Rightarrow> 'a list" where
  "slice a b xs = take (b - a) (drop a xs)"

definition le_word :: "nat \<Rightarrow> bytes \<Rightarrow> u32" where
  "le_word i d = u32_of_bytes (d ! (i + 3)) (d ! (i + 2)) (d ! (i + 1)) (d ! i)"

definition frame_decode :: "bytes \<Rightarrow> (AgwpeError, AgwpeFrame) result" where
  "frame_decode d =
     (if length d < HEADER_SIZE then Err (InvalidFrame ''Frame too short'')
      else
        res_bind (frame_type_try_from (d ! 4)) (\<lambda>ft.
        res_bind (extract_callsign (slice 8 18 d)) (\<lambda>from_call.
        res_bind (extract_callsign (slice 18 28 d)) (\<lambda>to_call.
        let dlen = le_word 28 d; udata = le_word 32 d in
        if unat dlen > MAX_FRAME_DATA_SIZE then
          Err (InvalidFrame (''Frame data_len '' @ nat_to_string (unat dlen) @ '' exceeds maximum ''
                 @ nat_to_string MAX_FRAME_DATA_SIZE))
        else if length d < HEADER_SIZE + unat dlen then Err (InvalidFrame ''Frame data truncated'')
        else Ok \<lparr>frame_port = d ! 0, frame_type = ft, pid = CHR 0x00, call_from = from_call,
                 call_to = to_call, data_len = dlen, user_data = udata,
                 frame_data = slice HEADER_SIZE (HEADER_SIZE + unat dlen) d\<rparr>))))"

section \<open>Disconnect notices\<close>

definition contains_slice :: "bytes \<Rightarrow> bytes \<Rightarrow> bool" where
  "contains_slice haystack needle \<longleftrightarrow>
     (if needle = [] \<or> length haystack < length needle then False
      else find_sub needle haystack \<noteq> None)"

definition is_session_dead_payload :: "bytes \<Rightarrow> bool" where
  "is_session_dead_payload d \<longleftrightarrow>
     contains_slice d ''*** DISCONNECTED'' \<or> contains_slice d ''Returned to Node''"

section \<open>Frames round-trip\<close>

text \<open>A callsign that fits its field.\<close>

definition callsign_fits :: "bytes \<Rightarrow> bool" where
  "callsign_fits c \<longleftrightarrow> length c \<le> 9 \<and> utf8_valid c \<and> CHR 0x00 \<notin> set c"

definition frame_ok :: "AgwpeFrame \<Rightarrow> bool" where
  "frame_ok f \<longleftrightarrow>
     pid f = CHR 0x00 \<and> callsign_fits (call_from f) \<and> callsign_fits (call_to f)
     \<and> data_len f = of_nat (length (frame_data f)) \<and> length (frame_data f) \<le> MAX_FRAME_DATA_SIZE"

lemma frame_type_code_inverse [simp]: "frame_type_try_from (frame_type_code ft) = Ok ft"
  by (cases ft) (simp_all add: frame_type_try_from_def)

lemma frame_type_try_from_Ok: "frame_type_try_from b = Ok ft \<Longrightarrow> frame_type_code ft = b"
  by (auto simp: frame_type_try_from_def split: if_splits)

lemma length_callsign_field [simp]: "length (callsign_field c) = 10"
  by (simp add: callsign_field_def Let_def)

lemma extract_callsign_field [wire_simps]:
  assumes "callsign_fits c"
  shows "extract_callsign (callsign_field c) = Ok c"
proof -
  have field: "callsign_field c = c @ CHR 0x00 # replicate (9 - length c) (CHR 0x00)"
    using assms by (simp add: callsign_fits_def callsign_field_def flip: replicate_Suc)
      auto
  have "position (\<lambda>b. b = CHR 0x00) (callsign_field c) = Some (length c)"
    unfolding field using assms by (intro position_first) (auto simp: callsign_fits_def)
  then show ?thesis
    using assms by (simp add: extract_callsign_def field callsign_fits_def from_utf8_def)
qed

lemma le_word_to_le_bytes [wire_simps]: "le_word (length pre) (pre @ to_le_bytes w @ post) = w"
  using u32_of_bytes_split [of w] by (simp add: le_word_def to_le_bytes_def nth_append numeral_3_eq_3 numeral_2_eq_2)

text \<open>The header laid out at its offsets.\<close>

lemma frame_encode_layout:
  fixes f :: AgwpeFrame and rest :: bytes
  defines "d \<equiv> frame_encode f @ rest"
  shows "d ! 0 = frame_port f" and "d ! 4 = frame_type_code (frame_type f)"
    and "slice 8 18 d = callsign_field (call_from f)"
    and "slice 18 28 d = callsign_field (call_to f)"
    and "le_word 28 d = data_len f" and "le_word 32 d = user_data f"
    and "drop 36 d = frame_data f @ rest" and "length d = 36 + length (frame_data f) + length rest"
proof -
  let ?z = "replicate 3 (CHR 0x00)"
  let ?h0 = "[frame_port f] @ ?z @ [frame_type_code (frame_type f)] @ ?z"
  let ?cf = "callsign_field (call_from f)" and ?ct = "callsign_field (call_to f)"
  let ?dl = "to_le_bytes (data_len f)" and ?ud = "to_le_bytes (user_data f)"
  have h0: "length ?h0 = 8" by simp
  have d: "d = ?h0 @ ?cf @ ?ct @ ?dl @ ?ud @ frame_data f @ rest"
    by (simp add: d_def frame_encode_def)
  show "d ! 0 = frame_port f" by (simp add: d)
  show "d ! 4 = frame_type_code (frame_type f)" by (simp add: d nth_append numeral_3_eq_3)
  have "drop 8 d = ?cf @ ?ct @ ?dl @ ?ud @ frame_data f @ rest"
    unfolding d using h0 by (metis append_eq_conv_conj)
  then show "slice 8 18 d = ?cf" by (simp add: slice_def)
  have "d = (?h0 @ ?cf) @ ?ct @ ?dl @ ?ud @ frame_data f @ rest" "length (?h0 @ ?cf) = 18"
    by (simp_all add: d)
  then have "drop 18 d = ?ct @ ?dl @ ?ud @ frame_data f @ rest" by (metis append_eq_conv_conj)
  then show "slice 18 28 d = ?ct" by (simp add: slice_def)
  have "d = (?h0 @ ?cf @ ?ct) @ ?dl @ (?ud @ frame_data f @ rest)" "length (?h0 @ ?cf @ ?ct) = 28"
    by (simp_all add: d)
  then show "le_word 28 d = data_len f" by (metis le_word_to_le_bytes)
  have "d = (?h0 @ ?cf @ ?ct @ ?dl) @ ?ud @ (frame_data f @ rest)" "length (?h0 @ ?cf @ ?ct @ ?dl) = 32"
    by (simp_all add: d)
  then show "le_word 32 d = user_data f" by (metis le_word_to_le_bytes)
  have "d = (?h0 @ ?cf @ ?ct @ ?dl @ ?ud) @ (frame_data f @ rest)" "length (?h0 @ ?cf @ ?ct @ ?dl @ ?ud) = 36"
    by (simp_all add: d)
  then show "drop 36 d = frame_data f @ rest" by (metis append_eq_conv_conj)
  show "length d = 36 + length (frame_data f) + length rest" by (simp add: d)
qed

lemma unat_data_len: "frame_ok f \<Longrightarrow> unat (data_len f) = length (frame_data f)"
  by (simp add: frame_ok_def MAX_FRAME_DATA_SIZE_def unat_of_nat)

lemma length_frame_encode [simp]: "length (frame_encode f) = 36 + length (frame_data f)"
  by (simp add: frame_encode_def)

lemma frame_decode_encode:
  assumes "frame_ok f"
  shows "frame_decode (frame_encode f @ rest) = Ok f"
proof -
  note lay = frame_encode_layout [of f rest]
  have "slice HEADER_SIZE (HEADER_SIZE + length (frame_data f)) (frame_encode f @ rest) = frame_data f"
    by (simp only: slice_def HEADER_SIZE_def lay) simp
  then show ?thesis
    using assms unat_data_len [OF assms]
    by (simp add: frame_decode_def lay HEADER_SIZE_def frame_ok_def wire_simps)
qed

lemma frame_new_ok:
  "callsign_fits a \<Longrightarrow> callsign_fits b \<Longrightarrow> length d \<le> MAX_FRAME_DATA_SIZE
     \<Longrightarrow> frame_ok (frame_new p ft a b d)"
  by (simp add: frame_ok_def frame_new_def)

lemma frame_new_data [simp]:
  "frame_data (frame_new p ft a b d) = d" "frame_type (frame_new p ft a b d) = ft"
  by (simp_all add: frame_new_def)

text \<open>What the decoder accepts is bounded.\<close>

lemma frame_decode_Ok:
  assumes "frame_decode d = Ok f"
  shows "frame_type_code (frame_type f) = d ! 4"
    and "length (frame_data f) = unat (data_len f)" and "length (frame_data f) \<le> MAX_FRAME_DATA_SIZE"
  using assms
  by (auto simp: frame_decode_def Let_def res_bind_Ok_iff slice_def HEADER_SIZE_def
      dest: frame_type_try_from_Ok split: if_splits)

section \<open>A response is never taken for a disconnect notice\<close>

lemma split_char_inner:
  assumes "c \<notin> set w"
  shows "w \<in> set (split_char c (pre @ c # w @ c # post))"
proof (induction pre)
  case Nil
  show ?case using assms by (simp add: split_char_append)
next
  case (Cons x pre)
  obtain p ps where ps: "split_char c (pre @ c # w @ c # post) = p # ps"
    by (cases "split_char c (pre @ c # w @ c # post)") auto
  have tl: "w \<in> set (tl (split_char c (pre @ c # w @ c # post)))"
  proof (induction pre)
    case Nil
    show ?case using assms by (simp add: split_char_append)
  next
    case (Cons y pre)
    then show ?case by (auto split: list.splits dest: list.set_sel(2) [rotated])
  qed
  with Cons ps show ?case by auto
qed

lemma frame_pieces:
  assumes "well_formed enc r" and "\<forall>b\<in>set (enc (payload r)). is_base64_byte b"
  shows "split_char (CHR '' '') (response_encode enc r) =
     [MAGIC @ [status_digit (status r)], nat_to_string (length (enc (payload r))), etag r,
      int_to_string (max_age r) @ LF # enc (payload r) @ [LF]]"
proof -
  have "CHR '' '' \<notin> set (nat_to_string n)" "CHR '' '' \<notin> set (int_to_string i)" for n i
    using nat_to_string_bytes int_to_string_bytes by (fastforce simp: ascii_class_defs)+
  moreover have "CHR '' '' \<notin> set (etag r)"
    using assms(1) etag_bytes by (fastforce simp: well_formed_def ascii_class_defs)
  moreover have "CHR '' '' \<notin> set (enc (payload r))"
    using assms(2) by (auto simp: is_base64_byte_def ascii_class_defs)
  moreover have "CHR '' '' \<noteq> status_digit (status r)" by (cases "status r") auto
  moreover have "response_encode enc r = (MAGIC @ [status_digit (status r)]) @ CHR '' '' #
      (nat_to_string (length (enc (payload r))) @ CHR '' '' # (etag r @ CHR '' '' #
       (int_to_string (max_age r) @ LF # enc (payload r) @ [LF])))"
    by (simp add: response_encode_def Let_def)
  ultimately show ?thesis
    by (simp add: split_char_append split_char_none MAGIC_def)
qed

lemma frame_no_star:
  assumes "well_formed enc r" and "\<forall>b\<in>set (enc (payload r)). is_base64_byte b"
  shows "CHR ''*'' \<notin> set (response_encode enc r)"
proof
  assume "CHR ''*'' \<in> set (response_encode enc r)"
  moreover have "CHR ''*'' \<notin> set (header_line enc r)"
    using header_line_bytes [of r "CHR ''*''" enc] assms(1) by (auto simp: well_formed_def ascii_class_defs)
  moreover have "CHR ''*'' \<notin> set (enc (payload r))"
    using assms(2) by (auto simp: is_base64_byte_def ascii_class_defs)
  moreover have "CHR ''*'' \<noteq> status_digit (status r)" by (cases "status r") auto
  ultimately show False by (auto simp: response_encode_shape MAGIC_def LF_def)
qed

lemma frame_not_dead:
  assumes "well_formed enc r" and b64: "\<forall>b\<in>set (enc (payload r)). is_base64_byte b"
    and "sublist d (response_encode enc r)"
  shows "\<not> is_session_dead_payload d"
proof -
  have "\<not> sublist ''*** DISCONNECTED'' d"
  proof
    assume "sublist ''*** DISCONNECTED'' d"
    then have "CHR ''*'' \<in> set d" by (auto dest: sublist_set)
    with assms(3) have "CHR ''*'' \<in> set (response_encode enc r)" by (auto dest: sublist_set)
    with frame_no_star [OF assms(1,2)] show False by simp
  qed
  moreover have "\<not> sublist ''Returned to Node'' d"
  proof
    assume a: "sublist ''Returned to Node'' d"
    have "sublist '' to '' ''Returned to Node''" 
      using sublist_appendI [of "'' to ''" "''Returned''" "''Node''"] by simp
    with a assms(3) have "sublist '' to '' (response_encode enc r)"
      using sublist_order.order_trans by blast
    then obtain p q where "response_encode enc r = p @ CHR '' '' # ''to'' @ CHR '' '' # q"
      by (auto simp: sublist_def)
    then have to: "''to'' \<in> set (split_char (CHR '' '') (response_encode enc r))"
      using split_char_inner [of "CHR '' ''" "''to''" p q] by simp
    have "nat_to_string n \<noteq> ''to''" for n
      using nat_to_string_hd [of n] by (auto simp: ascii_class_defs)
    moreover have "etag r \<noteq> ''to''" using assms(1) by (auto simp: well_formed_def valid_etag_def)
    moreover have "int_to_string i @ LF # x \<noteq> ''to''" for i x
    proof
      assume "int_to_string i @ LF # x = ''to''"
      then have "LF \<in> set ''to''" by (metis in_set_conv_decomp)
      then show False by (simp add: LF_def)
    qed
    moreover have "MAGIC @ [z] \<noteq> ''to''" for z by (simp add: MAGIC_def)
    ultimately show False using to
      unfolding frame_pieces [OF assms(1,2)] list.set insert_iff empty_iff by metis
  qed
  ultimately show ?thesis
    by (auto simp: is_session_dead_payload_def contains_slice_def find_sub_None_iff)
qed

text \<open>
  A response is never mistaken for a disconnect notice. No piece of an encoded response,
  however the frames cut it, contains one of the two notices that end a session, whatever the
  payload says.
\<close>

theorem response_never_looks_dead:
  assumes "base64_codec enc dec" and "well_formed enc r" and "sublist d (response_encode enc r)"
  shows "\<not> is_session_dead_payload d"
  using frame_not_dead [OF assms(2) _ assms(3)] base64_codec.enc_alphabet [OF assms(1)] by blast

theorem response_never_looks_dead_witness:
  "\<not> is_session_dead_payload (response_encode b64_encode
      \<lparr>status = StatusOk, etag = ''-'', max_age = 0, payload = ''Returned to Node''\<rparr>)"
  using response_never_looks_dead [OF rfc4648.base64_codec_axioms _ sublist_order.order_refl,
      of "\<lparr>status = StatusOk, etag = ''-'', max_age = 0, payload = ''Returned to Node''\<rparr>"]
  by (simp add: well_formed_def valid_etag_def)

text \<open>
  AGWPE frames round-trip. A frame with callsigns of at most nine bytes and at most 64 KiB
  of data decodes to itself from the front of any buffer, and its size is the header plus the
  data.
\<close>

theorem agwpe_frame_roundtrip:
  assumes "frame_ok f"
  shows "frame_decode (frame_encode f @ rest) = Ok f
     \<and> length (frame_encode f) = HEADER_SIZE + length (frame_data f)"
  using frame_decode_encode [OF assms] by (simp add: HEADER_SIZE_def)

theorem agwpe_frame_roundtrip_witness:
  "frame_decode (frame_encode (frame_new (CHR 0x01) SendData ''K1ABC-12'' ''N0CALL'' [CHR 0x00, CHR 0xFF]) @ ''more'')
     = Ok (frame_new (CHR 0x01) SendData ''K1ABC-12'' ''N0CALL'' [CHR 0x00, CHR 0xFF])"
  using agwpe_frame_roundtrip [of "frame_new (CHR 0x01) SendData ''K1ABC-12'' ''N0CALL'' [CHR 0x00, CHR 0xFF]" "''more''"]
  by (simp add: frame_ok_def frame_new_def callsign_fits_def ascii_class_defs MAX_FRAME_DATA_SIZE_def)

end
