(* ===== verification/Agwpe.thy ===== *)
theory Agwpe
  imports Agwpe_Frame
begin

text \<open>
  \<open>AgwpeTransport\<close> of \<open>client/src/transport/agwpe.rs\<close>: the TCP connection to the modem, the
  read buffer that reassembles frames, and the operations of the \<open>Transport\<close> trait.

  \<open>dials\<close> scripts what \<open>TcpStream::connect\<close> answers (the time it takes, then an error text or
  a stream); past its end every connection attempt is refused. \<open>attached\<close> says that
  \<open>attach_state\<close> was called, so that the transport can log and change the shared state.
  A future wrapped in \<open>tokio::time::timeout\<close> becomes a function of the deadline: what the
  future left in \<open>read_buf\<close> when the timer fired is still there for the next call.

  The theory ends with the table \<open>agwpe_transport\<close> and the interpretation of the transport
  contract on it.
\<close>

section \<open>State\<close>

record AgwpeTransport =
  stream :: "Tcp option"
  read_buf :: bytes
  local_callsign :: bytes
  remote_callsign :: bytes
  link_port :: byte
  attached :: bool
  dials :: "(nat \<times> (bytes, Tcp) result) list"

definition agwpe_new :: "(nat \<times> (bytes, Tcp) result) list \<Rightarrow> AgwpeTransport" where
  "agwpe_new ds =
     \<lparr>stream = None, read_buf = [], local_callsign = [], remote_callsign = [],
      link_port = CHR 0x00, attached = False, dials = ds\<rparr>"

definition attach_state :: "AgwpeTransport \<Rightarrow> AgwpeTransport" where
  "attach_state t = t\<lparr>attached := True\<rparr>"

definition is_connected :: "AgwpeTransport \<Rightarrow> bool" where
  "is_connected t \<longleftrightarrow> stream t \<noteq> None"

text \<open>\<open>TcpStream::connect\<close>.\<close>

definition dial :: "AgwpeTransport \<Rightarrow> nat \<Rightarrow> (bytes, Tcp) result \<times> AgwpeTransport \<times> nat" where
  "dial t now =
     (case dials t of
        [] \<Rightarrow> (Err ''Connection refused'', t, now)
      | (d, r) # ds \<Rightarrow> (r, t\<lparr>dials := ds\<rparr>, now + d))"

type_synonym asys = "AgwpeTransport Sys"

text \<open>\<open>self.push_log\<close> and \<open>self.set_state\<close>.\<close>

definition agw_log :: "LogLevel \<Rightarrow> bytes \<Rightarrow> bytes \<Rightarrow> asys \<Rightarrow> asys" where
  "agw_log lvl cat msg s = (if attached (transport s) then log_msg lvl cat msg s else s)"

definition agw_log_dir :: "Direction \<Rightarrow> LogLevel \<Rightarrow> bytes \<Rightarrow> bytes \<Rightarrow> asys \<Rightarrow> asys" where
  "agw_log_dir d lvl cat msg s = (if attached (transport s) then log_dir d lvl cat msg s else s)"

definition agw_set_state :: "ConnectionState \<Rightarrow> asys \<Rightarrow> asys" where
  "agw_set_state cs s = (if attached (transport s) then set_state cs s else s)"

section \<open>Frames on the stream\<close>

text \<open>The upper half of the read loop: a complete frame at the front of the buffer, with its
  size; \<open>None\<close> when more bytes are needed.\<close>

definition buffered_frame :: "bytes \<Rightarrow> (AgwpeError, AgwpeFrame \<times> nat) result option" where
  "buffered_frame buf =
     (if HEADER_SIZE \<le> length buf then
        let dlen = unat (le_word 28 buf) in
        if MAX_FRAME_DATA_SIZE < dlen then
          Some (Err (InvalidFrame (''Peer announced frame data_len '' @ nat_to_string dlen
                  @ '' exceeds maximum '' @ nat_to_string MAX_FRAME_DATA_SIZE)))
        else
          let tot = HEADER_SIZE + dlen in
          if tot \<le> length buf then
            Some (case frame_decode (take tot buf) of
                    Inl e \<Rightarrow> Err e
                  | Inr frame \<Rightarrow> Ok (frame, tot))
          else None
      else None)"

function read_frame_from_stream ::
  "nat \<Rightarrow> AgwpeTransport \<Rightarrow> nat \<Rightarrow> (AgwpeError, AgwpeFrame) result \<times> AgwpeTransport \<times> nat" where
  "read_frame_from_stream deadline t now =
     (case buffered_frame (read_buf t) of
        Some (Inl e) \<Rightarrow> (Err e, t, now)
      | Some (Inr (frame, tot)) \<Rightarrow> (Ok frame, t\<lparr>read_buf := drop tot (read_buf t)\<rparr>, now)
      | None \<Rightarrow>
          (case stream t of
             None \<Rightarrow> (Err AgNotConnected, t, now)
           | Some st \<Rightarrow>
               (case tcp_read 4096 deadline st now of
                  (ReadTimeout, st', now') \<Rightarrow> (Err AgTimeout, t\<lparr>stream := Some st'\<rparr>, now')
                | (ReadFailed e, st', now') \<Rightarrow> (Err (AgIo e), t\<lparr>stream := Some st'\<rparr>, now')
                | (ReadClosed, st', now') \<Rightarrow>
                    (Err (ConnectionFailed ''Connection closed''), t\<lparr>stream := Some st'\<rparr>, now')
                | (ReadData bs, st', now') \<Rightarrow>
                    read_frame_from_stream deadline
                      (t\<lparr>stream := Some st', read_buf := read_buf t @ bs\<rparr>) now')))"
  by pat_completeness auto
termination
proof (relation "measure (\<lambda>(dl, t, now). case stream t of None \<Rightarrow> 0 | Some st \<Rightarrow> tcp_size st)",
    goal_cases)
  case 1
  show ?case by simp
next
  case 2
  then show ?case by (auto dest!: sym [of _ "tcp_read _ _ _ _"] tcp_read_less)
qed

declare read_frame_from_stream.simps [simp del]

definition read_frame_with_timeout_deadline ::
  "nat \<Rightarrow> AgwpeTransport \<Rightarrow> nat \<Rightarrow> (AgwpeError, AgwpeFrame) result \<times> AgwpeTransport \<times> nat" where
  "read_frame_with_timeout_deadline deadline t now =
     (if deadline \<le> now then (Err AgTimeout, t, now)
      else read_frame_from_stream deadline t now)"

definition read_frame_with_timeout ::
  "nat \<Rightarrow> AgwpeTransport \<Rightarrow> nat \<Rightarrow> (AgwpeError, AgwpeFrame) result \<times> AgwpeTransport \<times> nat" where
  "read_frame_with_timeout timeout_secs t now =
     read_frame_from_stream (now + timeout_secs * 1000) t now"

text \<open>\<open>stream.write_all(..)\<close> on the transport's stream, and \<open>send_frame_internal\<close>.\<close>

definition write_stream :: "bytes \<Rightarrow> AgwpeTransport \<Rightarrow> (bytes, unit) result option \<times> AgwpeTransport" where
  "write_stream bs t =
     (case stream t of
        None \<Rightarrow> (None, t)
      | Some st \<Rightarrow> (let (r, st') = tcp_write bs st in (Some r, t\<lparr>stream := Some st'\<rparr>)))"

definition send_frame_internal ::
  "AgwpeFrame \<Rightarrow> AgwpeTransport \<Rightarrow> (AgwpeError, unit) result \<times> AgwpeTransport" where
  "send_frame_internal frame t =
     (case write_stream (frame_encode frame) t of
        (None, t') \<Rightarrow> (Err AgNotConnected, t')
      | (Some r, t') \<Rightarrow> (map_err AgIo r, t'))"

text \<open>Reads and writes of the transport inside the running system.\<close>

definition on_clock ::
  "(AgwpeTransport \<Rightarrow> nat \<Rightarrow> 'r \<times> AgwpeTransport \<times> nat) \<Rightarrow> asys \<Rightarrow> 'r \<times> asys" where
  "on_clock f s = (let (r, t, now) = f (transport s) (clock s) in (r, s\<lparr>transport := t, clock := now\<rparr>))"

definition on_transport :: "(AgwpeTransport \<Rightarrow> 'r \<times> AgwpeTransport) \<Rightarrow> asys \<Rightarrow> 'r \<times> asys" where
  "on_transport f s = (let (r, t) = f (transport s) in (r, s\<lparr>transport := t\<rparr>))"

definition upd_transport :: "(AgwpeTransport \<Rightarrow> AgwpeTransport) \<Rightarrow> asys \<Rightarrow> asys" where
  "upd_transport f s = s\<lparr>transport := f (transport s)\<rparr>"

text \<open>What the stream can still deliver: the bytes to come and the bytes buffered.\<close>

definition agwpe_rank :: "AgwpeTransport \<Rightarrow> nat" where
  "agwpe_rank t = (case stream t of None \<Rightarrow> 0 | Some st \<Rightarrow> tcp_size st) + length (read_buf t)"

lemma buffered_frame_Ok:
  assumes "buffered_frame buf = Some (Ok (f, tot))"
  shows "HEADER_SIZE \<le> tot" and "tot \<le> length buf" and "frame_decode (take tot buf) = Ok f"
  using assms by (auto simp: buffered_frame_def Let_def split: if_splits sum.splits)

lemma buffered_frame_size:
  "buffered_frame buf = Some (Ok (f, tot)) \<Longrightarrow> length buf - tot + HEADER_SIZE \<le> length buf"
  using buffered_frame_Ok(1,2) [of buf f tot] by simp

text \<open>Every frame read costs at least a header of the supply.\<close>

lemma read_frame_rank:
  "read_frame_from_stream dl t now = (r, t', now') \<Longrightarrow>
     agwpe_rank t' + (case r of Inl e \<Rightarrow> 0 | Inr f \<Rightarrow> HEADER_SIZE) \<le> agwpe_rank t
     \<and> now \<le> now' \<and> attached t' = attached t"
proof (induction dl t now rule: read_frame_from_stream.induct)
  case (1 dl t now)
  show ?case
  proof (cases "buffered_frame (read_buf t)")
    case (Some b)
    with "1.prems" show ?thesis
      by (auto simp: read_frame_from_stream.simps [of dl t now] agwpe_rank_def
          dest: buffered_frame_size split: sum.splits prod.splits)
  next
    case None
    note buf = this
    show ?thesis
    proof (cases "stream t")
      case None
      with buf "1.prems" show ?thesis
        by (auto simp: read_frame_from_stream.simps [of dl t now])
    next
      case (Some st)
      obtain rr st' now1 where rd: "tcp_read 4096 dl st now = (rr, st', now1)"
        by (cases "tcp_read 4096 dl st now") auto
      note sz = tcp_read_size [OF rd] tcp_read_clock [OF rd]
      show ?thesis
      proof (cases rr)
        case (ReadData bs)
        let ?t = "t\<lparr>stream := Some st', read_buf := read_buf t @ bs\<rparr>"
        have "read_frame_from_stream dl ?t now1 = (r, t', now')"
          using "1.prems" buf Some rd ReadData
          by (simp add: read_frame_from_stream.simps [of dl t now])
        from "1.IH" [OF buf Some rd [symmetric] _ _ this] ReadData
        have "agwpe_rank t' + (case r of Inl e \<Rightarrow> 0 | Inr f \<Rightarrow> HEADER_SIZE) \<le> agwpe_rank ?t
            \<and> now1 \<le> now' \<and> attached t' = attached t" by simp
        moreover have "agwpe_rank ?t = agwpe_rank t"
          using tcp_read_data(1) [OF rd [unfolded ReadData]] Some by (simp add: agwpe_rank_def)
        ultimately show ?thesis using sz(2) by simp
      qed (use "1.prems" buf Some rd sz in
          \<open>auto simp: read_frame_from_stream.simps [of dl t now] agwpe_rank_def\<close>)
    qed
  qed
qed

lemma read_frame_with_timeout_rank:
  "read_frame_with_timeout secs t now = (r, t', now') \<Longrightarrow>
     agwpe_rank t' + (case r of Inl e \<Rightarrow> 0 | Inr f \<Rightarrow> HEADER_SIZE) \<le> agwpe_rank t
     \<and> now \<le> now' \<and> attached t' = attached t"
  unfolding read_frame_with_timeout_def by (rule read_frame_rank)

lemma read_frame_with_timeout_deadline_rank:
  "read_frame_with_timeout_deadline dl t now = (r, t', now') \<Longrightarrow>
     agwpe_rank t' + (case r of Inl e \<Rightarrow> 0 | Inr f \<Rightarrow> HEADER_SIZE) \<le> agwpe_rank t
     \<and> now \<le> now' \<and> attached t' = attached t"
  using read_frame_rank [of dl t now] by (auto simp: read_frame_with_timeout_deadline_def split: if_splits)

lemma on_clock_less:
  "(r, s') = on_clock (read_frame_with_timeout secs) s \<Longrightarrow> r = Inr f
     \<Longrightarrow> agwpe_rank (transport s') < agwpe_rank (transport s)"
  "(r, s') = on_clock (read_frame_from_stream dl) s \<Longrightarrow> r = Inr f
     \<Longrightarrow> agwpe_rank (transport s') < agwpe_rank (transport s)"
  "(r, s') = on_clock (read_frame_with_timeout_deadline dl) s \<Longrightarrow> r = Inr f
     \<Longrightarrow> agwpe_rank (transport s') < agwpe_rank (transport s)"
  using read_frame_with_timeout_rank [of secs "transport s" "clock s"]
    read_frame_rank [of dl "transport s" "clock s"]
    read_frame_with_timeout_deadline_rank [of dl "transport s" "clock s"]
  by (fastforce simp: on_clock_def HEADER_SIZE_def split: prod.splits)+

lemma agw_log_frame [simp]:
  "transport (agw_log l c m s) = transport s" "transport (agw_log_dir d l c m s) = transport s"
  "transport (agw_set_state cs s) = transport s"
  "clock (agw_log l c m s) = clock s" "clock (agw_log_dir d l c m s) = clock s"
  "clock (agw_set_state cs s) = clock s"
  by (simp_all add: agw_log_def agw_log_dir_def agw_set_state_def)

lemma quiet_agw_log [simp]:
  "quiet s (agw_log l c m s') = quiet s s'" "quiet s (agw_log_dir d l c m s') = quiet s s'"
  "quiet s (agw_set_state cs s') = quiet s s'"
  "quiet (agw_log l c m s) s' = quiet s s'" "quiet (agw_log_dir d l c m s) s' = quiet s s'"
  "quiet (agw_set_state cs s) s' = quiet s s'"
  by (simp_all add: agw_log_def agw_log_dir_def agw_set_state_def)

section \<open>Modem operations\<close>

definition connect_modem_internal ::
  "bytes \<Rightarrow> nat \<Rightarrow> bytes \<Rightarrow> asys \<Rightarrow> (AgwpeError, unit) result \<times> asys" where
  "connect_modem_internal host port callsign s =
     (let s = agw_log Info ''AGWPE''
                (''Connecting to AGWPE at '' @ host @ '':'' @ nat_to_string port) s in
      case on_clock dial s of
        (Inl e, s) \<Rightarrow>
          let msg = ''TCP connection failed: '' @ e in
          (Err (ConnectionFailed msg), agw_set_state (CsError msg) (agw_log Info ''ERROR'' msg s))
      | (Inr st, s) \<Rightarrow>
          let s = agw_log Info ''AGWPE'' ''TCP connection established'' s;
              s = upd_transport (\<lambda>t. t\<lparr>stream := Some st, local_callsign := callsign, read_buf := []\<rparr>) s;
              reg_frame = frame_new (CHR 0x00) RegisterCallsign callsign [] [];
              s = agw_log_dir Tx Debug ''AGWPE'' (''Sending registration for '' @ callsign) s
          in case on_transport (write_stream (frame_encode reg_frame)) s of
               (Some (Inl e), s) \<Rightarrow>
                 let s = upd_transport (\<lambda>t. t\<lparr>stream := None\<rparr>) s;
                     msg = ''Registration send failed: '' @ e in
                 (Err (RegistrationFailed msg), agw_set_state (CsError msg) s)
             | (_, s) \<Rightarrow>
                 (case on_clock (read_frame_with_timeout 5) s of
                    (Inr frame, s) \<Rightarrow>
                      if frame_type frame = RegisterCallsign \<and> frame_data frame = [CHR 0x01] then
                        let s = agw_log_dir Rx Debug ''AGWPE'' ''Registration successful'' s in
                        (Ok (), agw_set_state AgwpeConnected s)
                      else
                        let s = upd_transport (\<lambda>t. t\<lparr>stream := None\<rparr>) s;
                            msg = ''Unexpected response to registration: '' @ frame_type_debug (frame_type frame)
                              @ '' (port='' @ nat_to_string (byte_val (frame_port frame))
                              @ '', call_from='' @ call_from frame @ '', call_to='' @ call_to frame
                              @ '', data='' @ bytes_debug (frame_data frame) @ '')'';
                            s = agw_log Debug ''AGWPE'' msg s in
                        (Err (RegistrationFailed msg), agw_set_state (CsError msg) s)
                  | (Inl e, s) \<Rightarrow>
                      let s = upd_transport (\<lambda>t. t\<lparr>stream := None\<rparr>) s;
                          msg = ''Registration timeout: '' @ agwpe_error_to_string e in
                      (Err (RegistrationFailed msg), agw_set_state (CsError msg) s)))"

text \<open>The port list in a port-information payload: \<open>count;name;name;...\<close>, empty names
  skipped, a port numbered by its position (\<open>as u8\<close>).\<close>

fun port_list :: "nat \<Rightarrow> bytes list \<Rightarrow> PortInfo list" where
  "port_list i [] = []"
| "port_list i (name # names) =
     (if name = [] then port_list (Suc i) names
      else \<lparr>port_num = i mod 256, description = name\<rparr> # port_list (Suc i) names)"

fun log_ports :: "nat \<Rightarrow> bytes list \<Rightarrow> asys \<Rightarrow> asys" where
  "log_ports i [] s = s"
| "log_ports i (name # names) s =
     log_ports (Suc i) names
       (if name = [] then s
        else agw_log_dir Rx Debug ''AGWPE'' (''Port '' @ nat_to_string i @ '': '' @ name) s)"

definition port_names :: "bytes \<Rightarrow> bytes list" where
  "port_names d =
     (let data_str = trim_end_matches (\<lambda>b. b = CHR 0x00) (from_utf8_lossy d) in
      case split_char (CHR '';'') data_str of
        count # names \<Rightarrow>
          if names \<noteq> [] \<and> parse_u64 count \<noteq> None then names else []
      | [] \<Rightarrow> [])"

function query_ports_loop :: "asys \<Rightarrow> (AgwpeError, PortInfo list) result \<times> asys" where
  "query_ports_loop s =
     (case on_clock (read_frame_with_timeout 5) s of
        (Inl e, s) \<Rightarrow> (Err e, s)
      | (Inr frame, s) \<Rightarrow>
          let s = agw_log_dir Rx Debug ''AGWPE''
                    (''Port query response: frame_type='' @ frame_type_debug (frame_type frame)
                     @ '', data_len='' @ nat_to_string (unat (data_len frame))
                     @ '', data='' @ bytes_debug (frame_data frame)) s in
          if frame_type frame = QueryPorts \<or> frame_type frame = PortInfoFrame then
            (if data_len frame = 0 \<or> frame_data frame = [] then (Ok [], s)
             else (Ok (port_list 0 (port_names (frame_data frame))),
                   log_ports 0 (port_names (frame_data frame)) s))
          else query_ports_loop s)"
  by pat_completeness auto
termination
proof (relation "measure (\<lambda>s. agwpe_rank (transport s))", goal_cases)
  case 1
  show ?case by simp
next
  case 2
  then show ?case
    by (simp add: on_clock_less(1))
qed

declare query_ports_loop.simps [simp del]

definition query_ports_internal :: "asys \<Rightarrow> (AgwpeError, unit) result \<times> asys" where
  "query_ports_internal s =
     (if \<not> is_connected (transport s) then (Err AgNotConnected, s)
      else
        let query_frame = frame_new (CHR 0x00) QueryPorts (local_callsign (transport s)) [] [];
            s = agw_log_dir Tx Debug ''AGWPE'' ''Querying ports'' s in
        case on_transport (send_frame_internal query_frame) s of
          (Inl e, s) \<Rightarrow> (Err e, s)
        | (Inr _, s) \<Rightarrow>
            (case query_ports_loop s of
               (Inl e, s) \<Rightarrow> (Err e, s)
             | (Inr ports, s) \<Rightarrow>
                 let s = agw_log Info ''AGWPE''
                           (''Discovered '' @ nat_to_string (length ports) @ '' port(s)'') s in
                 (Ok (), if attached (transport s) then s\<lparr>app := set_ports ports (app s)\<rparr> else s)))"

function drain_loop :: "nat \<Rightarrow> asys \<Rightarrow> asys" where
  "drain_loop deadline s =
     (case on_clock (read_frame_from_stream deadline) s of
        (Inr frame, s) \<Rightarrow>
          if frame_type frame = Disconnect then
            agw_log_dir Rx Debug ''PROTOCOL'' ''Received AX.25 disconnect confirmation'' s
          else drain_loop deadline s
      | (Inl e, s) \<Rightarrow> s)"
  by pat_completeness auto
termination
proof (relation "measure (\<lambda>(dl, s). agwpe_rank (transport s))", goal_cases)
  case 1
  show ?case by simp
next
  case 2
  then show ?case
    by (simp add: on_clock_less(2))
qed

declare drain_loop.simps [simp del]

definition send_disconnect_and_drain :: "asys \<Rightarrow> asys" where
  "send_disconnect_and_drain s =
     (let t = transport s;
          disc = frame_new (link_port t) Disconnect (local_callsign t) (remote_callsign t) [];
          s = agw_log_dir Tx Info ''PROTOCOL'' (''AX.25 disconnect (AGWPE '' @ [CHR 0x27] @ ''d'' @ [CHR 0x27] @ '')'') s in
      if stream t = None then s
      else
        let (_, s) = on_transport (send_frame_internal disc) s
        in drain_loop (clock s + 3 * 1000) s)"

section \<open>The Transport trait\<close>

fun agwpe_to_transport_err :: "AgwpeError \<Rightarrow> TransportError" where
  "agwpe_to_transport_err AgTimeout = TeTimeout"
| "agwpe_to_transport_err AgNotConnected = TeNotConnected"
| "agwpe_to_transport_err (AgIo e) = TeIo e"
| "agwpe_to_transport_err other = TeModemError (agwpe_error_to_string other)"

definition agwpe_connect_modem :: "TransportConfig \<Rightarrow> asys \<Rightarrow> (TransportError, unit) result \<times> asys" where
  "agwpe_connect_modem cfg s =
     apfst (map_err agwpe_to_transport_err)
       (connect_modem_internal (agwpe_params_host (agwpe cfg)) (agwpe_params_port (agwpe cfg))
          (tc_local_callsign cfg) s)"

definition agwpe_disconnect_modem :: "asys \<Rightarrow> (TransportError, unit) result \<times> asys" where
  "agwpe_disconnect_modem s =
     (let s = upd_transport (\<lambda>t. t\<lparr>stream := None, read_buf := []\<rparr>) s;
          s = (if attached (transport s) then
                 set_state CsDisconnected (s\<lparr>app := clear_ports (app s)\<rparr>)
               else s)
      in (Ok (), agw_log Info ''AGWPE'' ''Disconnected from AGWPE'' s))"

definition agwpe_open_session :: "SessionConfig \<Rightarrow> asys \<Rightarrow> (TransportError, unit) result \<times> asys" where
  "agwpe_open_session cfg s =
     (Ok (), upd_transport (\<lambda>t. t\<lparr>remote_callsign := sc_remote_callsign cfg,
               link_port := char_of (sc_agwpe_port cfg), local_callsign := sc_local_callsign cfg\<rparr>) s)"

definition agwpe_close_session :: "asys \<Rightarrow> (TransportError, unit) result \<times> asys" where
  "agwpe_close_session s =
     (if \<not> is_connected (transport s) then (Err TeNotConnected, s)
      else (Ok (), send_disconnect_and_drain s))"

text \<open>\<open>data.chunks(n)\<close>.\<close>

function chunks :: "nat \<Rightarrow> 'a list \<Rightarrow> 'a list list" where
  "chunks n xs = (if xs = [] \<or> n = 0 then [] else take n xs # chunks n (drop n xs))"
  by pat_completeness auto
termination
  by (relation "measure (\<lambda>(n, xs). length xs)") auto

declare chunks.simps [simp del]

definition data_frame :: "AgwpeTransport \<Rightarrow> bytes \<Rightarrow> AgwpeFrame" where
  "data_frame t chunk = frame_new (link_port t) SendData (local_callsign t) (remote_callsign t) chunk"

fun send_chunks :: "bytes list \<Rightarrow> AgwpeTransport \<Rightarrow> (TransportError, unit) result \<times> AgwpeTransport" where
  "send_chunks [] t = (Ok (), t)"
| "send_chunks (c # cs) t =
     (case write_stream (frame_encode (data_frame t c)) t of
        (Some (Inl e), t') \<Rightarrow> (Err (TeIo e), t')
      | (_, t') \<Rightarrow> send_chunks cs t')"

definition agwpe_send :: "bytes \<Rightarrow> AgwpeTransport \<Rightarrow> (TransportError, unit) result \<times> AgwpeTransport" where
  "agwpe_send d t =
     (if stream t = None then (Err TeNotConnected, t) else send_chunks (chunks 256 d) t)"

definition frame_event :: "AgwpeFrame \<Rightarrow> TransportEvent" where
  "frame_event frame =
     (case frame_type frame of
        Disconnect \<Rightarrow> Disconnected (from_utf8_lossy (frame_data frame))
      | SendData \<Rightarrow>
          if is_session_dead_payload (frame_data frame)
          then Disconnected (from_utf8_lossy (frame_data frame))
          else Data (frame_data frame)
      | Connected \<Rightarrow> Data []
      | Connect \<Rightarrow> Data (frame_data frame)
      | ConnectionRejected \<Rightarrow>
          Disconnected (''connection rejected by peer: '' @ from_utf8_lossy (frame_data frame))
      | _ \<Rightarrow> Data [])"

definition agwpe_recv ::
  "nat \<Rightarrow> AgwpeTransport \<Rightarrow> nat \<Rightarrow> (TransportError, TransportEvent) result \<times> AgwpeTransport \<times> nat" where
  "agwpe_recv deadline t now =
     (case read_frame_with_timeout_deadline deadline t now of
        (Inl e, t', now') \<Rightarrow> (Err (agwpe_to_transport_err e), t', now')
      | (Inr frame, t', now') \<Rightarrow> (Ok (frame_event frame), t', now'))"

function await_link :: "nat \<Rightarrow> asys \<Rightarrow> (TransportError, unit) result \<times> asys" where
  "await_link deadline s =
     (case on_clock (read_frame_with_timeout_deadline deadline) s of
        (Inl e, s) \<Rightarrow> (Err (agwpe_to_transport_err e), s)
      | (Inr frame, s) \<Rightarrow>
          if frame_type frame = Connected then
            (Ok (), agw_log_dir Rx Info ''PROTOCOL''
                      (''AX.25 connected (AGWPE '' @ [CHR 0x27] @ ''c'' @ [CHR 0x27] @ '')'') s)
          else if frame_type frame = Connect \<and> prefix ''***'' (frame_data frame)
                  \<and> find_sub ''CONNECTED'' (frame_data frame) \<noteq> None then
            (Ok (), agw_log_dir Rx Info ''PROTOCOL''
                      (''AX.25 connected (LinBPQ '' @ [CHR 0x27] @ ''*** CONNECTED'' @ [CHR 0x27] @ '')'') s)
          else if frame_type frame = ConnectionRejected then
            let reason = ''connection rejected by peer: '' @ from_utf8_lossy (frame_data frame) in
            (Err (TeSessionRejected reason), agw_log_dir Rx Info ''ERROR'' reason s)
          else
            await_link deadline
              (agw_log Debug ''PROTOCOL''
                 (''Ignoring '' @ frame_type_debug (frame_type frame)
                  @ '' frame while awaiting AX.25 connect confirmation'') s))"
  by pat_completeness auto
termination
proof (relation "measure (\<lambda>(dl, s). agwpe_rank (transport s))", goal_cases)
  case 1
  show ?case by simp
next
  case 2
  then show ?case by (simp add: on_clock_less(3))
qed

declare await_link.simps [simp del]

definition agwpe_open_ax25_link :: "asys \<Rightarrow> (TransportError, unit) result \<times> asys" where
  "agwpe_open_ax25_link s =
     (if \<not> is_connected (transport s) then (Err TeNotConnected, s)
      else
        let t = transport s;
            connect_frame = frame_new (link_port t) Connect (local_callsign t) (remote_callsign t) [];
            s = agw_log_dir Tx Info ''PROTOCOL''
                  (''AX.25 connect to '' @ remote_callsign t @ '' on port ''
                   @ nat_to_string (byte_val (link_port t))) s in
        case on_transport (send_frame_internal connect_frame) s of
          (Inl e, s) \<Rightarrow> (Err (agwpe_to_transport_err e), s)
        | (Inr _, s) \<Rightarrow> await_link (clock s + 30 * 1000) s)"

definition agwpe_reopen_modem_connection :: "asys \<Rightarrow> (TransportError, unit) result \<times> asys" where
  "agwpe_reopen_modem_connection s =
     (if \<not> attached (transport s) then
        (Err (TeModemError ''reopen_modem_connection called without attached state''), s)
      else
        let host = agwpe_host (config (app s));
            port = agwpe_port (config (app s));
            callsign = local_callsign (transport s);
            s = (if stream (transport s) \<noteq> None then send_disconnect_and_drain s else s);
            s = upd_transport (\<lambda>t. t\<lparr>stream := None, read_buf := []\<rparr>) s
        in apfst (map_err agwpe_to_transport_err) (connect_modem_internal host port callsign s))"

definition agwpe_query_ports :: "asys \<Rightarrow> (TransportError, unit) result \<times> asys" where
  "agwpe_query_ports s = apfst (map_err agwpe_to_transport_err) (query_ports_internal s)"

definition agwpe_transport :: "AgwpeTransport Transport" where
  "agwpe_transport =
     \<lparr>t_recv = agwpe_recv, t_send = agwpe_send, t_connect_modem = agwpe_connect_modem,
      t_disconnect_modem = agwpe_disconnect_modem, t_open_session = agwpe_open_session,
      t_close_session = agwpe_close_session, t_port_query_supported = True,
      t_open_ax25_link = agwpe_open_ax25_link,
      t_reopen_modem_connection = agwpe_reopen_modem_connection,
      t_query_ports = agwpe_query_ports\<rparr>"

section \<open>The contract\<close>

lemma quiet_on_clock:
  "on_clock (read_frame_with_timeout secs) s = (r, s') \<Longrightarrow> quiet s s'"
  "on_clock (read_frame_from_stream dl) s = (r, s') \<Longrightarrow> quiet s s'"
  "on_clock (read_frame_with_timeout_deadline dl) s = (r, s') \<Longrightarrow> quiet s s'"
  "on_clock dial s = (r2, s') \<Longrightarrow> quiet s s'"
  by (auto simp: on_clock_def quiet_def dial_def split: prod.splits list.splits
      dest: read_frame_rank read_frame_with_timeout_rank read_frame_with_timeout_deadline_rank)

lemma quiet_on_transport: "on_transport f s = (r, s') \<Longrightarrow> quiet s s'"
  by (auto simp: on_transport_def quiet_def split: prod.splits)

lemma quiet_upd_transport [simp]: "quiet s (upd_transport f s') = quiet s s'"
  by (simp add: upd_transport_def quiet_def)

lemma quiet_set_ports [simp]:
  "quiet s (s'\<lparr>app := set_ports p (app s')\<rparr>) = quiet s s'"
  "quiet s (s'\<lparr>app := clear_ports (app s')\<rparr>) = quiet s s'"
  by (simp_all add: quiet_def set_ports_def clear_ports_def)

lemma quiet_log_ports [simp]: "quiet s (log_ports i names s') = quiet s s'"
  by (induction names arbitrary: i s') simp_all

lemmas quiet_dest = quiet_on_clock quiet_on_transport

lemma quiet_upd_transport_left [simp]: "quiet (upd_transport f s) s' = quiet s s'"
  by (simp add: upd_transport_def quiet_def)

lemma connect_modem_internal_quiet:
  "connect_modem_internal h p c s = (r, s') \<Longrightarrow> quiet s s'"
  by (auto simp: connect_modem_internal_def Let_def split: prod.splits sum.splits option.splits if_splits
      dest!: quiet_dest) (meson quiet_trans)+

lemma query_ports_loop_quiet: "query_ports_loop s = (r, s') \<Longrightarrow> quiet s s'"
proof (induction s rule: query_ports_loop.induct)
  case (1 s)
  obtain fr s1 where rd: "on_clock (read_frame_with_timeout 5) s = (fr, s1)" by fastforce
  have q: "quiet s s1" using rd by (rule quiet_on_clock)
  show ?case
  proof (cases fr)
    case (Inl e)
    with "1.prems" rd q show ?thesis by (simp add: query_ports_loop.simps [of s])
  next
    case (Inr f)
    show ?thesis
    proof (cases "frame_type f = QueryPorts \<or> frame_type f = PortInfoFrame")
      case True
      with "1.prems" rd q Inr show ?thesis
        by (auto simp: query_ports_loop.simps [of s] Let_def split: if_splits)
    next
      case False
      with "1.IH" [OF rd [symmetric] Inr refl] "1.prems" rd Inr
      have "quiet s1 s'" by (simp add: query_ports_loop.simps [of s] Let_def)
      with q show ?thesis by (rule quiet_trans)
    qed
  qed
qed

lemma query_ports_internal_quiet: "query_ports_internal s = (r, s') \<Longrightarrow> quiet s s'"
  by (auto simp: query_ports_internal_def Let_def split: prod.splits sum.splits if_splits
      dest!: quiet_dest query_ports_loop_quiet) (meson quiet_trans)+

lemma drain_loop_quiet: "quiet s (drain_loop dl s)"
proof (induction dl s rule: drain_loop.induct)
  case (1 dl s)
  obtain fr s1 where rd: "on_clock (read_frame_from_stream dl) s = (fr, s1)" by fastforce
  have q: "quiet s s1" using rd by (rule quiet_on_clock)
  show ?case
  proof (cases fr)
    case (Inl e)
    with rd q show ?thesis by (simp add: drain_loop.simps [of dl s])
  next
    case (Inr f)
    with "1.IH" [OF rd [symmetric] Inr] rd q show ?thesis
      by (auto simp: drain_loop.simps [of dl s] intro: quiet_trans)
  qed
qed

lemma send_disconnect_and_drain_quiet: "quiet s (send_disconnect_and_drain s)"
  using drain_loop_quiet
  by (auto simp: send_disconnect_and_drain_def Let_def split: prod.splits dest!: quiet_dest
      intro: quiet_trans)

lemma await_link_quiet: "await_link dl s = (r, s') \<Longrightarrow> quiet s s'"
proof (induction dl s rule: await_link.induct)
  case (1 dl s)
  obtain fr s1 where rd: "on_clock (read_frame_with_timeout_deadline dl) s = (fr, s1)" by fastforce
  have q: "quiet s s1" using rd by (rule quiet_on_clock)
  show ?case
  proof (cases fr)
    case (Inl e)
    with "1.prems" rd q show ?thesis by (simp add: await_link.simps [of dl s])
  next
    case (Inr f)
    with "1.IH" [OF rd [symmetric] Inr] "1.prems" rd q show ?thesis
      by (auto simp: await_link.simps [of dl s] Let_def split: if_splits intro: quiet_trans)
  qed
qed

lemma open_ax25_link_quiet: "agwpe_open_ax25_link s = (r, s') \<Longrightarrow> quiet s s'"
  by (auto simp: agwpe_open_ax25_link_def Let_def split: prod.splits sum.splits if_splits
      dest!: quiet_dest await_link_quiet) (meson quiet_trans)+

lemma apfst_eqD: "apfst f p = (r, s) \<Longrightarrow> \<exists>r0. p = (r0, s)"
  by (cases p) auto

lemma reopen_modem_connection_quiet: "agwpe_reopen_modem_connection s = (r, s') \<Longrightarrow> quiet s s'"
  using send_disconnect_and_drain_quiet [of s]
  by (auto simp: agwpe_reopen_modem_connection_def Let_def split: if_splits
      dest!: apfst_eqD connect_modem_internal_quiet intro: quiet_trans)

lemma agwpe_recv_rank:
  assumes "agwpe_recv dl t now = (r, t', now')"
  shows "now \<le> now'" and "r = Ok ev \<Longrightarrow> agwpe_rank t' < agwpe_rank t"
  using assms
  by (auto simp: agwpe_recv_def HEADER_SIZE_def split: prod.splits sum.splits
      dest!: read_frame_with_timeout_deadline_rank)

interpretation agw: draining_transport agwpe_transport agwpe_rank
proof
  fix dl t now r t' now'
  assume "t_recv agwpe_transport dl t now = (r, t', now')"
  then show "now \<le> now'" by (auto simp: agwpe_transport_def dest: agwpe_recv_rank)
next
  fix dl t now bs t' now'
  assume "t_recv agwpe_transport dl t now = (Ok (Data bs), t', now')"
  then show "agwpe_rank t' < agwpe_rank t" by (auto simp: agwpe_transport_def dest: agwpe_recv_rank)
qed (auto simp: agwpe_transport_def agwpe_open_session_def agwpe_close_session_def
    agwpe_connect_modem_def agwpe_disconnect_modem_def agwpe_query_ports_def Let_def
    dest!: apfst_eqD connect_modem_internal_quiet query_ports_internal_quiet
    intro: open_ax25_link_quiet reopen_modem_connection_quiet send_disconnect_and_drain_quiet
    split: if_splits)

lemma agw_log_state [simp]:
  "connection_state (app (agw_log l c m s)) = connection_state (app s)"
  "connection_state (app (agw_log_dir d l c m s)) = connection_state (app s)"
  "connection_state (app (upd_transport f s)) = connection_state (app s)"
  by (simp_all add: agw_log_def agw_log_dir_def upd_transport_def)

lemma log_ports_state [simp]: "connection_state (app (log_ports i names s)) = connection_state (app s)"
  by (induction names arbitrary: i s) simp_all

lemma on_clock_app: "on_clock f s = (r, s') \<Longrightarrow> app s' = app s"
  by (auto simp: on_clock_def split: prod.splits)

lemma on_transport_app: "on_transport f s = (r, s') \<Longrightarrow> app s' = app s"
  by (auto simp: on_transport_def split: prod.splits)

lemma query_ports_loop_state: "query_ports_loop s = (r, s') \<Longrightarrow> connection_state (app s') = connection_state (app s)"
proof (induction s rule: query_ports_loop.induct)
  case (1 s)
  obtain fr s1 where rd: "on_clock (read_frame_with_timeout 5) s = (fr, s1)" by fastforce
  show ?case
  proof (cases fr)
    case (Inl e)
    with "1.prems" rd on_clock_app [OF rd] show ?thesis by (simp add: query_ports_loop.simps [of s])
  next
    case (Inr f)
    with "1.IH" [OF rd [symmetric] Inr refl] "1.prems" rd on_clock_app [OF rd] show ?thesis
      by (auto simp: query_ports_loop.simps [of s] Let_def split: if_splits)
  qed
qed

lemma drain_loop_state: "connection_state (app (drain_loop dl s)) = connection_state (app s)"
proof (induction dl s rule: drain_loop.induct)
  case (1 dl s)
  obtain fr s1 where rd: "on_clock (read_frame_from_stream dl) s = (fr, s1)" by fastforce
  with "1.IH" [OF rd [symmetric]] on_clock_app [OF rd] show ?case
    by (cases fr) (auto simp: drain_loop.simps [of dl s])
qed

lemma connect_modem_internal_closed: "connect_modem_internal h p c s = (r, s') \<Longrightarrow> stays_closed s s'"
  by (auto simp: connect_modem_internal_def stays_closed_def agw_set_state_def Let_def
      split: prod.splits sum.splits option.splits if_splits dest!: on_clock_app on_transport_app)

lemma query_ports_internal_closed: "query_ports_internal s = (r, s') \<Longrightarrow> stays_closed s s'"
  by (auto simp: query_ports_internal_def stays_closed_def set_ports_def Let_def
      split: prod.splits sum.splits if_splits dest!: on_clock_app on_transport_app query_ports_loop_state)

lemma send_disconnect_and_drain_closed: "stays_closed s (send_disconnect_and_drain s)"
  by (auto simp: send_disconnect_and_drain_def stays_closed_def drain_loop_state Let_def
      split: prod.splits dest!: on_transport_app)

lemma agwpe_disconnect_closed: "agwpe_disconnect_modem s = (r, s') \<Longrightarrow> stays_closed s s'"
  by (auto simp: agwpe_disconnect_modem_def stays_closed_def Let_def split: if_splits)

interpretation agw_modem: modem_contract agwpe_transport
  by unfold_locales
    (auto simp: agwpe_transport_def agwpe_close_session_def agwpe_connect_modem_def agwpe_query_ports_def
      dest!: apfst_eqD connect_modem_internal_closed query_ports_internal_closed
      intro: agwpe_disconnect_closed send_disconnect_and_drain_closed split: if_splits)

section \<open>Reassembly\<close>

text \<open>
  \<open>delivers dl t bs tail\<close>: a healthy link whose buffer and stream hold the bytes \<open>bs\<close>, cut
  anywhere into non-empty TCP segments that all arrive before \<open>dl\<close>; \<open>tail\<close> is what the stream
  does after them. Writes to the link succeed.
\<close>

definition delivers ::
  "nat \<Rightarrow> AgwpeTransport \<Rightarrow> bytes \<Rightarrow> (nat \<times> rx_event) list \<Rightarrow> bool" where
  "delivers dl t bs tail \<longleftrightarrow>
     (\<exists>st segs. stream t = Some st \<and> rx st = segments segs @ tail \<and> timely dl segs
        \<and> wr_results st = [] \<and> read_buf t @ concat (map snd segs) = bs)"

definition same_link :: "AgwpeTransport \<Rightarrow> AgwpeTransport \<Rightarrow> bool" where
  "same_link t t' \<longleftrightarrow>
     local_callsign t' = local_callsign t \<and> remote_callsign t' = remote_callsign t
     \<and> link_port t' = link_port t \<and> attached t' = attached t \<and> dials t' = dials t"

lemma same_link_trans: "same_link t u \<Longrightarrow> same_link u v \<Longrightarrow> same_link t v"
  by (simp add: same_link_def)

lemma le_word_prefix: "i + 3 < length a \<Longrightarrow> le_word i (a @ b) = le_word i a"
  by (simp add: le_word_def nth_append)

lemma buffered_frame_prefix:
  assumes "frame_ok f" and "buf @ more_bytes = frame_encode f @ rest"
  shows "buffered_frame buf =
     (if length buf < 36 + length (frame_data f) then None
      else Some (Ok (f, 36 + length (frame_data f))))"
proof (cases "36 \<le> length buf")
  case False
  then show ?thesis by (simp add: buffered_frame_def HEADER_SIZE_def)
next
  case True
  have "le_word 28 buf = data_len f"
    using frame_encode_layout(5) [of f rest] le_word_prefix [of 28 buf more_bytes] True assms(2) by simp
  then have dl: "unat (le_word 28 buf) = length (frame_data f)"
    using unat_data_len [OF assms(1)] by simp
  have small: "\<not> MAX_FRAME_DATA_SIZE < length (frame_data f)" using assms(1) by (simp add: frame_ok_def)
  show ?thesis
  proof (cases "length buf < 36 + length (frame_data f)")
    case True
    then show ?thesis using dl small by (simp add: buffered_frame_def HEADER_SIZE_def)
  next
    case False
    then have "take (36 + length (frame_data f)) buf = take (36 + length (frame_data f)) (buf @ more_bytes)"
      by simp
    also have "\<dots> = frame_encode f" unfolding assms(2) by simp
    finally have "frame_decode (take (36 + length (frame_data f)) buf) = Ok f"
      using frame_decode_encode [OF assms(1), of "[]"] by simp
    with False dl small True show ?thesis by (simp add: buffered_frame_def HEADER_SIZE_def)
  qed
qed

lemma read_frame_step:
  assumes "delivers b t bs tail" and "b \<le> dl" and "buffered_frame (read_buf t) = None" and "read_buf t \<noteq> bs"
  obtains t1 now1 where "read_frame_from_stream dl t now = read_frame_from_stream dl t1 now1"
    and "delivers b t1 bs tail" and "length (read_buf t) < length (read_buf t1)"
    and "now < b \<Longrightarrow> now1 < b" and "same_link t t1"
proof -
  obtain st segs where st: "stream t = Some st" "rx st = segments segs @ tail" "timely b segs"
      "read_buf t @ concat (map snd segs) = bs" "wr_results st = []"
    using assms(1) by (auto simp: delivers_def)
  then obtain at w segs' where sg: "segs = (at, w) # segs'" using assms(4) by (cases segs) auto
  let ?segs = "if drop 4096 w = [] then segs' else (at, drop 4096 w) # segs'"
  let ?st = "st\<lparr>rx := segments ?segs @ tail\<rparr>"
  let ?t = "t\<lparr>stream := Some ?st, read_buf := read_buf t @ take 4096 w\<rparr>"
  have w: "at < b" "w \<noteq> []" using st(3) sg by (auto simp: timely_def)
  have "tcp_read 4096 dl st now = (ReadData (take 4096 w), ?st, max now at)"
    using tcp_read_segment [of st at w segs' tail dl 4096 now] st(2) sg w assms(2) by simp
  then have rec: "read_frame_from_stream dl t now = read_frame_from_stream dl ?t (max now at)"
    using assms(3) st(1) by (simp add: read_frame_from_stream.simps [of dl t now])
  have cat: "take 4096 w @ concat (map snd ?segs) = concat (map snd segs)"
    using sg append_take_drop_id [of 4096 w] by (auto simp del: append_take_drop_id)
  have "timely b ?segs" using st(3) sg by (auto simp: timely_def)
  then have "delivers b ?t bs tail"
    using cat st(4,5) by (auto simp: delivers_def)
  then show thesis using rec w by (intro that [of ?t "max now at"]) (auto simp: same_link_def)
qed

lemma read_frame_reassembles:
  assumes "delivers b t (frame_encode f @ rest) tail" and "frame_ok f" and "b \<le> dl"
  shows "\<exists>t' now'. read_frame_from_stream dl t now = (Ok f, t', now') \<and> delivers b t' rest tail
     \<and> (now < b \<longrightarrow> now' < b) \<and> same_link t t'"
  using assms(1)
proof (induction "length (frame_encode f @ rest) - length (read_buf t)" arbitrary: t now rule: less_induct)
  case less
  obtain st segs where st: "stream t = Some st" "rx st = segments segs @ tail" "timely b segs"
      "read_buf t @ concat (map snd segs) = frame_encode f @ rest" "wr_results st = []"
    using less.prems by (auto simp: delivers_def)
  let ?n = "36 + length (frame_data f)"
  note buf = buffered_frame_prefix [OF assms(2) st(4)]
  show ?case
  proof (cases "length (read_buf t) < ?n")
    case False
    let ?t = "t\<lparr>read_buf := drop ?n (read_buf t)\<rparr>"
    have "read_frame_from_stream dl t now = (Ok f, ?t, now)"
      using buf False by (simp add: read_frame_from_stream.simps [of dl t now])
    moreover have "drop ?n (read_buf t) @ concat (map snd segs) = rest"
      using arg_cong [OF st(4), of "drop ?n"] False by simp
    then have "delivers b ?t rest tail" using st by (auto simp: delivers_def)
    moreover have "same_link t ?t" by (simp add: same_link_def)
    ultimately show ?thesis by blast
  next
    case True
    then have none: "buffered_frame (read_buf t) = None" using buf by simp
    have "read_buf t \<noteq> frame_encode f @ rest" using True by auto
    then obtain t1 now1 where t1: "read_frame_from_stream dl t now = read_frame_from_stream dl t1 now1"
      "delivers b t1 (frame_encode f @ rest) tail" "length (read_buf t) < length (read_buf t1)"
      "now < b \<Longrightarrow> now1 < b" "same_link t t1"
      using read_frame_step [OF less.prems assms(3) none] by metis
    have "length (frame_encode f @ rest) - length (read_buf t1) < length (frame_encode f @ rest) - length (read_buf t)"
      using t1(3) True by simp
    from less.hyps [OF this t1(2), of now1] t1 show ?thesis
      by (metis same_link_trans)
  qed
qed

lemma delivers_later: "delivers dl t bs tail \<Longrightarrow> dl \<le> dl' \<Longrightarrow> delivers dl' t bs tail"
  unfolding delivers_def timely_def by (fastforce simp: list_all_iff)

lemma recv_delivers:
  assumes "delivers b t (frame_encode f @ rest) tail" and "frame_ok f" and "b \<le> dl" and "now < b"
  shows "\<exists>t' now'. agwpe_recv dl t now = (Ok (frame_event f), t', now') \<and> delivers b t' rest tail
     \<and> now \<le> now' \<and> now' < b \<and> same_link t t'"
proof -
  obtain t' now' where rd: "read_frame_from_stream dl t now = (Ok f, t', now')"
    and t': "delivers b t' rest tail" "now < b \<longrightarrow> now' < b" "same_link t t'"
    using read_frame_reassembles [OF assms(1-3), of now] by blast
  then have "agwpe_recv dl t now = (Ok (frame_event f), t', now')"
    using assms(3,4) by (simp add: agwpe_recv_def read_frame_with_timeout_deadline_def)
  with t' assms(4) read_frame_rank [OF rd] show ?thesis by blast
qed

text \<open>The event stream a client sees: \<open>n\<close> successive receives before one deadline.\<close>

fun recv_many ::
  "nat \<Rightarrow> nat \<Rightarrow> AgwpeTransport \<Rightarrow> nat \<Rightarrow> (TransportError, TransportEvent) result list \<times> AgwpeTransport" where
  "recv_many 0 dl t now = ([], t)"
| "recv_many (Suc n) dl t now =
     (let (r, t', now') = agwpe_recv dl t now; (rs, t'') = recv_many n dl t' now' in (r # rs, t''))"

text \<open>A sample link for the witnesses: two data frames in flight, cut inside the first
  header.\<close>

definition sample_frames :: "AgwpeFrame list" where
  "sample_frames = [frame_new (CHR 0x00) SendData ''N0CALL'' ''K1ABC-1'' ''hello'',
                    frame_new (CHR 0x00) SendData ''N0CALL'' ''K1ABC-1'' ''world'']"

definition sample_link :: "bytes \<Rightarrow> AgwpeTransport" where
  "sample_link bs =
     (agwpe_new [])\<lparr>stream := Some \<lparr>rx = segments [(5, take 20 bs), (9, drop 20 bs)],
        written = [], wr_results = []\<rparr>, local_callsign := ''K1ABC-1'', remote_callsign := ''N0CALL''\<rparr>"

lemma sample_frames_ok [simp]: "list_all frame_ok sample_frames"
  by (simp add: sample_frames_def frame_ok_def frame_new_def callsign_fits_def ascii_class_defs
      MAX_FRAME_DATA_SIZE_def)

lemma sample_link_delivers: "20 < length bs \<Longrightarrow> delivers 1000 (sample_link bs) bs []"
  unfolding delivers_def
  by (intro exI [of _ "\<lparr>rx = segments [(5, take 20 bs), (9, drop 20 bs)], written = [], wr_results = []\<rparr>"]
      exI [of _ "[(5, take 20 bs), (9, drop 20 bs)]"])
    (auto simp: sample_link_def agwpe_new_def timely_def)

text \<open>
  C27: frames survive TCP. When the bytes of a sequence of well-formed frames arrive before
  the deadline, cut into TCP segments at arbitrary places (inside headers, several frames
  per segment, more than one read's worth), the receives return exactly the events of those
  frames, in order, and the bytes behind the last frame are left for the next call.
\<close>

theorem agwpe_recv_reassembles:
  assumes "list_all frame_ok fs" and "delivers dl t (concat (map frame_encode fs) @ rest) tail"
    and "now < dl"
  shows "\<exists>t'. recv_many (length fs) dl t now = (map (Ok \<circ> frame_event) fs, t')
     \<and> delivers dl t' rest tail"
  using assms
proof (induction fs arbitrary: t now)
  case Nil
  then show ?case by simp
next
  case (Cons f fs)
  then obtain t' now' where "agwpe_recv dl t now = (Ok (frame_event f), t', now')"
      "delivers dl t' (concat (map frame_encode fs) @ rest) tail" "now' < dl"
    using recv_delivers [of dl t f "concat (map frame_encode fs) @ rest" tail dl now] by auto
  with Cons.IH [of t' now'] Cons.prems show ?case by auto
qed

theorem agwpe_recv_reassembles_witness:
  "\<exists>t'. recv_many 2 1000 (sample_link (concat (map frame_encode sample_frames))) 0
     = ([Ok (Data ''hello''), Ok (Data ''world'')], t')"
proof -
  have "map (Ok \<circ> frame_event) sample_frames =
      ([Ok (Data ''hello''), Ok (Data ''world'')] :: (TransportError, TransportEvent) result list)"
    by (simp add: sample_frames_def frame_event_def is_session_dead_payload_def contains_slice_def)
  moreover have "length sample_frames = 2" "20 < length (concat (map frame_encode sample_frames) @ [])"
    by (simp_all add: sample_frames_def)
  ultimately show ?thesis
    using agwpe_recv_reassembles [OF sample_frames_ok sample_link_delivers, of "[]" 0] by auto
qed

section \<open>Sending\<close>

lemma concat_chunks: "0 < n \<Longrightarrow> concat (chunks n xs) = xs"
  by (induction n xs rule: chunks.induct) (auto simp: chunks.simps)

lemma chunks_bound: "c \<in> set (chunks n xs) \<Longrightarrow> c \<noteq> [] \<and> length c \<le> n"
  by (induction n xs rule: chunks.induct) (subst (asm) (2) chunks.simps, auto split: if_splits)

lemma send_chunks_ok:
  assumes "stream t = Some st" and "wr_results st = []"
  shows "send_chunks cs t =
     (Ok (), t\<lparr>stream := Some (st\<lparr>written := written st @ concat (map (\<lambda>c. frame_encode (data_frame t c)) cs)\<rparr>)\<rparr>)"
  using assms
proof (induction cs arbitrary: t st)
  case Nil
  then show ?case by simp
next
  case (Cons c cs)
  let ?st = "st\<lparr>written := written st @ frame_encode (data_frame t c)\<rparr>"
  have "write_stream (frame_encode (data_frame t c)) t = (Some (Ok ()), t\<lparr>stream := Some ?st\<rparr>)"
    using Cons.prems by (simp add: write_stream_def tcp_write_def)
  moreover have "data_frame (t\<lparr>stream := x\<rparr>) = data_frame t" for x
    by (simp add: data_frame_def fun_eq_iff)
  ultimately show ?case using Cons.IH [of "t\<lparr>stream := Some ?st\<rparr>" ?st] Cons.prems by simp
qed

text \<open>
  \<open>send\<close> cuts application data into frames of 1 to 256 bytes. Every frame is well formed,
  their payloads joined are the data, and the bytes written to the modem are those frames
  in order, so that a peer that reassembles frames recovers the data.
\<close>

theorem agwpe_send_frames:
  assumes "stream t = Some st" and "wr_results st = []"
    and "callsign_fits (local_callsign t)" and "callsign_fits (remote_callsign t)"
  shows "\<exists>fs. agwpe_send d t =
        (Ok (), t\<lparr>stream := Some (st\<lparr>written := written st @ concat (map frame_encode fs)\<rparr>)\<rparr>)
     \<and> concat (map frame_data fs) = d
     \<and> (\<forall>f\<in>set fs. frame_ok f \<and> frame_type f = SendData \<and> frame_data f \<noteq> []
          \<and> length (frame_data f) \<le> 256)"
proof (intro exI conjI ballI)
  let ?fs = "map (data_frame t) (chunks 256 d)"
  show "agwpe_send d t =
     (Ok (), t\<lparr>stream := Some (st\<lparr>written := written st @ concat (map frame_encode ?fs)\<rparr>)\<rparr>)"
    using send_chunks_ok [OF assms(1,2), of "chunks 256 d"] assms(1)
    by (simp add: agwpe_send_def comp_def)
  have "map frame_data ?fs = chunks 256 d" by (simp add: data_frame_def comp_def)
  then show "concat (map frame_data ?fs) = d" using concat_chunks [of 256 d] by simp
  fix f assume "f \<in> set ?fs"
  then obtain c where c: "c \<in> set (chunks 256 d)" "f = data_frame t c" by auto
  then have "c \<noteq> []" "length c \<le> 256" using chunks_bound by auto
  with c assms(3,4) show "frame_ok f" "frame_type f = SendData" "frame_data f \<noteq> []"
    "length (frame_data f) \<le> 256"
    by (auto simp: data_frame_def MAX_FRAME_DATA_SIZE_def intro!: frame_new_ok)
qed

theorem agwpe_send_frames_witness:
  "\<exists>fs. agwpe_send ''GET http://x'' (sample_link []) =
      (Ok (), (sample_link [])\<lparr>stream := Some (the (stream (sample_link []))
         \<lparr>written := concat (map frame_encode fs)\<rparr>)\<rparr>)
     \<and> concat (map frame_data fs) = ''GET http://x''"
proof -
  let ?t = "sample_link []"
  have "stream ?t = Some (the (stream ?t))" "wr_results (the (stream ?t)) = []"
    "callsign_fits (local_callsign ?t)" "callsign_fits (remote_callsign ?t)"
    by (simp_all add: sample_link_def callsign_fits_def ascii_class_defs)
  from agwpe_send_frames [OF this, of "''GET http://x''"]
  show ?thesis by (auto simp: sample_link_def)
qed

section \<open>A frame of unknown kind\<close>

text \<open>
  A complete frame whose kind is not one of the nine known codes is never removed from
  the read buffer: every receive from then on fails with the same modem error and leaves the
  transport exactly as it was, so nothing behind that frame is ever delivered.
\<close>

theorem unknown_frame_blocks_link:
  assumes "HEADER_SIZE + unat (le_word 28 (read_buf t)) \<le> length (read_buf t)"
    and "unat (le_word 28 (read_buf t)) \<le> MAX_FRAME_DATA_SIZE"
    and "frame_type_try_from (read_buf t ! 4) = Err e" and "now < dl"
  shows "agwpe_recv dl t now = (Err (TeModemError (agwpe_error_to_string e)), t, now)"
proof -
  let ?n = "HEADER_SIZE + unat (le_word 28 (read_buf t))"
  have "frame_decode (take ?n (read_buf t)) = Err e"
    using assms(1,3) by (simp add: frame_decode_def HEADER_SIZE_def)
  then have "read_frame_from_stream dl t now = (Err e, t, now)"
    using assms(1,2) by (simp add: read_frame_from_stream.simps [of dl t now] buffered_frame_def Let_def)
  moreover have "agwpe_to_transport_err e = TeModemError (agwpe_error_to_string e)"
    using assms(3) by (auto simp: frame_type_try_from_def split: if_splits)
  ultimately show ?thesis
    using assms(4) by (simp add: agwpe_recv_def read_frame_with_timeout_deadline_def)
qed

theorem unknown_frame_blocks_link_witness:
  "agwpe_recv 1000 ((agwpe_new [])\<lparr>read_buf := replicate 4 (CHR 0x00) @ [CHR ''y''] @ replicate 31 (CHR 0x00)
      @ frame_encode (frame_new (CHR 0x00) SendData ''N0CALL'' ''K1ABC'' ''lost'')\<rparr>) 0
   = (Err (TeModemError ''Invalid frame: Unknown frame type: 0x79''),
      (agwpe_new [])\<lparr>read_buf := replicate 4 (CHR 0x00) @ [CHR ''y''] @ replicate 31 (CHR 0x00)
      @ frame_encode (frame_new (CHR 0x00) SendData ''N0CALL'' ''K1ABC'' ''lost'')\<rparr>, 0)"
  (is "agwpe_recv 1000 ?t 0 = _")
proof -
  have "le_word 28 (read_buf ?t) = 0"
    by (simp add: le_word_def nth_append u32_of_bytes_def)
  moreover have "read_buf ?t ! 4 = CHR ''y''" by (simp add: nth_append)
  then have "frame_type_try_from (read_buf ?t ! 4) = Err (InvalidFrame ''Unknown frame type: 0x79'')"
    by (simp add: frame_type_try_from_def hex2_def hex_digit_def)
  ultimately show ?thesis
    using unknown_frame_blocks_link [of ?t "InvalidFrame ''Unknown frame type: 0x79''" 0 1000]
    by (simp add: HEADER_SIZE_def)
qed

end
