(* ===== verification/Session_Driver.thy ===== *)
theory Session_Driver
  imports Agwpe
begin

text \<open>
  The session driver of \<open>client/src/transport/session.rs\<close>: the BPQ handshake with the consent
  step, one request and its response, the reconnect flow. It is written against the
  \<open>Transport\<close> trait, so every operation takes the table \<open>T\<close> of a transport.

  An action maps the running system to a result and a new system, or to \<open>None\<close> when it never
  returns: the receive loops have no bound of their own. \<open>recv_loop\<close> is their common shape (a
  \<open>recv\<close> under a fresh deadline, then the body, which either finishes or goes round again with a
  new accumulator). The lemmas show what may be put on the air and when (consent, abort, at
  most one retry), what a returned response looks like, and that every action returns on a
  transport that drains.
\<close>

section \<open>Actions\<close>

type_synonym ('t, 'a) act = "'t Sys \<Rightarrow> ((AgwpeError, 'a) result \<times> 't Sys) option"

definition sbind :: "('t, 'a) act \<Rightarrow> ('a \<Rightarrow> ('t, 'b) act) \<Rightarrow> ('t, 'b) act" where
  "sbind m f s =
     (case m s of
        None \<Rightarrow> None
      | Some (Inl e, s') \<Rightarrow> Some (Inl e, s')
      | Some (Inr a, s') \<Rightarrow> f a s')"

definition lift_op :: "('t Sys \<Rightarrow> (TransportError, 'a) result \<times> 't Sys) \<Rightarrow> ('t, 'a) act" where
  "lift_op f s = (let (r, s') = f s in Some (map_err transport_err_to_agwpe r, s'))"

definition pure_act :: "('t Sys \<Rightarrow> 't Sys) \<Rightarrow> ('t, unit) act" where
  "pure_act f s = Some (Ok (), f s)"

text \<open>\<open>if session_state.is_aborted() { return Err(DisconnectedByOperator) }\<close>\<close>

definition check_abort :: "('t, unit) act" where
  "check_abort s = Some (if is_aborted s then Err DisconnectedByOperator else Ok (), s)"

type_synonym recv_result = "(TransportError, TransportEvent) result"

type_synonym ('t, 'acc, 'a) body =
  "recv_result \<Rightarrow> 'acc \<Rightarrow> 't Sys \<Rightarrow> ((AgwpeError, 'a) result \<times> 't Sys) + ('acc \<times> 't Sys)"

partial_function (option) recv_loop ::
  "'t Transport \<Rightarrow> nat \<Rightarrow> ('t, 'acc, 'a) body \<Rightarrow> 'acc \<Rightarrow> ('t, 'a) act" where
  "recv_loop T secs body acc s =
     (case sys_recv T (clock s + secs * 1000) s of
        (r, s1) \<Rightarrow>
          (case body r acc s1 of
             Inl done \<Rightarrow> Some done
           | Inr (acc', s2) \<Rightarrow> recv_loop T secs body acc' s2))"

section \<open>Session state\<close>

definition MAX_RESPONSE_SIZE :: nat where
  "MAX_RESPONSE_SIZE = 10 * 1024 * 1024"

definition MAX_HANDSHAKE_TEXT :: nat where
  "MAX_HANDSHAKE_TEXT = 64 * 1024"

record SessionState =
  ss_response_timeout_secs :: nat

definition session_new :: "nat \<Rightarrow> SessionState" where
  "session_new secs = \<lparr>ss_response_timeout_secs = max secs 1\<rparr>"

definition matches_stored_disclaimer :: "bytes \<Rightarrow> bytes option \<Rightarrow> bool" where
  "matches_stored_disclaimer server_text stored =
     (case stored of Some s \<Rightarrow> s = server_text | None \<Rightarrow> False)"

section \<open>The handshake\<close>

definition ax25_open_and_await_connected :: "'t Transport \<Rightarrow> ('t, unit) act" where
  "ax25_open_and_await_connected T =
     sbind (lift_op (t_open_ax25_link T)) (\<lambda>_.
     pure_act (log_dir Rx Info ''PROTOCOL'' ''AX.25 link open confirmed''))"

definition bpq_send_app_command :: "Unicode \<Rightarrow> 't Transport \<Rightarrow> ('t, unit) act" where
  "bpq_send_app_command U T s =
     (let cmd = bpq_command (config (app s));
          s = log_msg Info ''BPQ'' (''Starting BPQ handshake with command: '' @ cmd) s;
          cmd_data = cmd @ [LF];
          s = log_dir Tx Debug ''BPQ'' (''Sending BPQ command: '' @ str_debug U cmd_data) s
      in lift_op (sys_send T cmd_data) s)"

definition callsign_prompt_body :: "('t, bytes, unit) body" where
  "callsign_prompt_body r received_text s =
     (case r of
        Inl e \<Rightarrow> Inl (Err (transport_err_to_agwpe e), s)
      | Inr (Data bs) \<Rightarrow>
          let text = from_utf8_lossy bs in
          if MAX_HANDSHAKE_TEXT < length received_text + length text then
            Inl (Err (ConnectionFailed ''Handshake text exceeded maximum size''), s)
          else
            let received_text = received_text @ text in
            if contains_str received_text ''callsign'' \<or> contains_str received_text ''AGREE'' then
              Inl (Ok (), s)
            else Inr (received_text, s)
      | Inr (Disconnected why) \<Rightarrow>
          Inl (Err (ConnectionFailed (''Peer disconnected during BPQ handshake: '' @ why)), s))"

definition bpq_await_callsign_prompt_and_send_callsign ::
  "Unicode \<Rightarrow> 't Transport \<Rightarrow> bytes \<Rightarrow> ('t, unit) act" where
  "bpq_await_callsign_prompt_and_send_callsign U T callsign =
     sbind (pure_act (log_dir Rx Debug ''BPQ'' ''Waiting for callsign prompt...'')) (\<lambda>_.
     sbind (recv_loop T 30 callsign_prompt_body []) (\<lambda>_.
     let call_data = callsign @ [LF] in
     sbind (pure_act (log_dir Tx Debug ''BPQ'' (''Sending callsign: '' @ str_debug U call_data))) (\<lambda>_.
     lift_op (sys_send T call_data))))"

definition disclaimer_body :: "Unicode \<Rightarrow> ('t, bytes, bytes) body" where
  "disclaimer_body U r received_text s =
     (case r of
        Inl e \<Rightarrow> Inl (Err (transport_err_to_agwpe e), s)
      | Inr (Data bs) \<Rightarrow>
          let text = from_utf8_lossy bs in
          if MAX_HANDSHAKE_TEXT < length received_text + length text then
            Inl (Err (ConnectionFailed ''Handshake text exceeded maximum size''), s)
          else
            let received_text = received_text @ text;
                s = log_dir Rx Trace ''BPQ'' (''Received text: '' @ str_debug U text) s in
            if contains_str (to_uppercase (upper_of U) received_text) ''AGREE'' then
              Inl (Ok received_text, s)
            else Inr (received_text, s)
      | Inr (Disconnected why) \<Rightarrow>
          Inl (Err (ConnectionFailed (''Peer disconnected during BPQ handshake: '' @ why)), s))"

definition bpq_await_disclaimer :: "Unicode \<Rightarrow> 't Transport \<Rightarrow> ('t, bytes) act" where
  "bpq_await_disclaimer U T =
     sbind (pure_act (log_dir Rx Debug ''BPQ'' ''Waiting for AGREE prompt...'')) (\<lambda>_.
     recv_loop T 30 (disclaimer_body U) [])"

text \<open>
  Parking the handshake: the disclaimer becomes the connection state and the channel's
  sending end goes into \<open>pending_consent\<close>.
\<close>

definition park_for_consent :: "bytes \<Rightarrow> 't Sys \<Rightarrow> 't Sys" where
  "park_for_consent text s =
     (let s = set_state (AwaitingConsent text)
                (s\<lparr>app := (app s)\<lparr>pending_consent := Some (clock s)\<rparr>\<rparr>)
      in s\<lparr>log_tx := log_tx s @ [log_entry (clock s) Info ''BPQ'' ''Waiting for operator consent'']\<rparr>)"

text \<open>
  \<open>timeout(300s, consent_rx)\<close>. The operator's next answer comes after its delay through
  \<open>POST /api/consent\<close>, which takes the sender out of the shared state and records the
  text agreed to; \<open>None\<close> as the answer drops the sender. The result is \<open>None\<close> on a timeout.
\<close>

definition wait_consent :: "'t Sys \<Rightarrow> bool option \<times> 't Sys" where
  "wait_consent s =
     (case consents s of
        [] \<Rightarrow> (None, s\<lparr>clock := clock s + 300 * 1000\<rparr>)
      | (delay, answer) # rest \<Rightarrow>
          if 300 * 1000 \<le> delay then (None, s\<lparr>clock := clock s + 300 * 1000, consents := rest\<rparr>)
          else
            let s = s\<lparr>clock := clock s + delay, consents := rest\<rparr> in
            (case answer of
               None \<Rightarrow> (Some False, s\<lparr>app := (app s)\<lparr>pending_consent := None\<rparr>\<rparr>)
             | Some accepted \<Rightarrow>
                 let (_, a, decision) = api_consent_post True accepted (app s) in
                 (Some (decision = Some True), s\<lparr>app := a\<rparr>)))"

definition consent_step :: "bytes \<Rightarrow> ('t, unit) act" where
  "consent_step text s =
     (case wait_consent (park_for_consent text s) of
        (None, s) \<Rightarrow>
          Some (Err (ConnectionFailed ''Consent timeout: operator did not respond''),
                s\<lparr>app := (app s)\<lparr>pending_consent := None\<rparr>\<rparr>)
      | (Some accepted, s) \<Rightarrow>
          if \<not> accepted then
            Some (Err (ConnectionFailed ''Operator declined the logging disclaimer''), s)
          else Some (Ok (), s))"

definition perform_bpq_handshake :: "Unicode \<Rightarrow> 't Transport \<Rightarrow> bytes \<Rightarrow> ('t, unit) act" where
  "perform_bpq_handshake U T callsign s =
     sbind (if skip_bpq_app (config (app s)) then
              pure_act (log_msg Info ''BPQ'' ''Skipping BPQ application command (direct connection mode)'')
            else bpq_send_app_command U T) (\<lambda>_.
     sbind (bpq_await_callsign_prompt_and_send_callsign U T callsign) (\<lambda>_.
     sbind (bpq_await_disclaimer U T) (\<lambda>received_text.
     sbind (consent_step received_text) (\<lambda>_.
     sbind (pure_act (log_dir Tx Debug ''BPQ'' ''Sending AGREE'')) (\<lambda>_.
     sbind (lift_op (sys_send T (''AGREE'' @ [LF]))) (\<lambda>_.
     pure_act (log_msg Info ''BPQ'' ''BPQ handshake completed successfully''))))))) s"

section \<open>One request\<close>

fun protocol_error_debug :: "ProtocolError \<Rightarrow> bytes" where
  "protocol_error_debug InvalidRequest = ''InvalidRequest''"
| "protocol_error_debug InvalidResponse = ''InvalidResponse''"
| "protocol_error_debug UrlTooLong = ''UrlTooLong''"
| "protocol_error_debug PayloadTooLarge = ''PayloadTooLarge''"

definition em_dash :: bytes where
  "em_dash = [CHR 0xE2, CHR 0x80, CHR 0x94]"

record RespAcc =
  response_data :: bytes
  expected_len :: "nat option"
  frame_start :: nat

text \<open>The header search of the response loop, run while no header has been found.\<close>

definition find_header ::
  "Unicode \<Rightarrow> RespAcc \<Rightarrow> 't Sys \<Rightarrow> (AgwpeError, RespAcc) result \<times> 't Sys" where
  "find_header U acc s =
     (let rd = response_data acc in
      if expected_len acc \<noteq> None then (Ok acc, s)
      else (case decode_header rd of
              Inr (Some (_, b64_len, _, _, header_end)) \<Rightarrow>
                let s = (if 0 < header_end then
                           log_msg Info ''PROTOCOL''
                             (''Framed header found at offset '' @ nat_to_string header_end
                              @ ''. Preceding bytes: ''
                              @ str_debug U (from_utf8_lossy (take (min header_end 128) rd))) s
                         else s);
                    s = log_msg Debug ''PROTOCOL''
                          (''Response header: base64_payload_size='' @ nat_to_string b64_len) s
                in (Ok (acc\<lparr>expected_len := Some b64_len, frame_start := header_end\<rparr>), s)
            | Inr None \<Rightarrow>
                if find_sub MAGIC rd = None \<and> 32 * 1024 < length rd then
                  (Err (SessionDied (''malformed response ('' @ nat_to_string (length rd)
                         @ '' bytes with no RESP magic: ''
                         @ str_debug U (from_utf8_lossy (take (min (length rd) 256) rd)) @ '')'')), s)
                else (Ok acc, s)
            | Inl e \<Rightarrow>
                (Err (SessionDied (''malformed response header: '' @ protocol_error_debug e)), s)))"

definition response_data_step :: "Unicode \<Rightarrow> bytes \<Rightarrow> RespAcc \<Rightarrow> 't Sys \<Rightarrow>
    ((AgwpeError, bytes) result \<times> 't Sys) + (RespAcc \<times> 't Sys)" where
  "response_data_step U bs acc s =
     (if MAX_RESPONSE_SIZE < length (response_data acc) + length bs then
        Inl (Err (InvalidFrame (''Response exceeded maximum size of ''
               @ nat_to_string MAX_RESPONSE_SIZE @ '' bytes'')), s)
      else
        let rd = response_data acc @ bs; acc = acc\<lparr>response_data := rd\<rparr> in
        if is_session_dead_payload rd then
          Inl (Err (SessionDied ''remote sent AX.25 disconnect notification''),
               log_dir Rx Info ''PROTOCOL'' (''Received AX.25 disconnect notification '' @ em_dash
                 @ '' treating as SessionDied'') s)
        else if is_aborted s then Inl (Err DisconnectedByOperator, s)
        else
          let s = log_dir Rx Trace ''PROTOCOL'' (''Received '' @ nat_to_string (length bs)
                    @ '' bytes (total: '' @ nat_to_string (length rd) @ '')'') s in
          (case find_header U acc s of
             (Inl e, s) \<Rightarrow> Inl (Err e, s)
           | (Inr acc, s) \<Rightarrow>
               (case expected_len acc of
                  Some len \<Rightarrow>
                    if frame_start acc + len \<le> length rd then
                      Inl (Ok rd, log_msg Debug ''PROTOCOL''
                             (''Response complete: '' @ nat_to_string (length rd) @ '' bytes'') s)
                    else Inr (acc, s)
                | None \<Rightarrow> Inr (acc, s))))"

definition response_body :: "Unicode \<Rightarrow> nat \<Rightarrow> ('t, RespAcc, bytes) body" where
  "response_body U timeout_secs r acc s =
     (case r of
        Inl TeTimeout \<Rightarrow>
          Inl (Err (SessionDied (''no response after '' @ nat_to_string timeout_secs @ ''s'')),
               log_dir Rx Info ''PROTOCOL'' (''Response timed out after '' @ nat_to_string timeout_secs
                 @ ''s '' @ em_dash @ '' treating as SessionDied'') s)
      | Inl e \<Rightarrow> Inl (Err (transport_err_to_agwpe e), s)
      | Inr (Data bs) \<Rightarrow> response_data_step U bs acc s
      | Inr (Disconnected why) \<Rightarrow>
          Inl (Err (SessionDied why),
               log_dir Rx Info ''PROTOCOL'' (''Peer disconnected mid-request '' @ em_dash
                 @ '' treating as SessionDied: '' @ why) s))"

definition empty_acc :: RespAcc where
  "empty_acc = \<lparr>response_data = [], expected_len = None, frame_start = 0\<rparr>"

definition handle_send_request ::
  "Unicode \<Rightarrow> 't Transport \<Rightarrow> SessionState \<Rightarrow> bytes \<Rightarrow> ('t, bytes) act" where
  "handle_send_request U T ss d =
     sbind check_abort (\<lambda>_.
     sbind (pure_act (log_dir Tx Debug ''PROTOCOL''
              (''Sending '' @ nat_to_string (length d) @ '' bytes''))) (\<lambda>_.
     sbind (lift_op (sys_send T d)) (\<lambda>_.
     sbind (pure_act (log_dir Rx Debug ''PROTOCOL'' ''Waiting for response...'')) (\<lambda>_.
     recv_loop T (ss_response_timeout_secs ss) (response_body U (ss_response_timeout_secs ss)) empty_acc))))"

section \<open>Reconnecting\<close>

text \<open>The async block of \<open>handle_reconnect\<close>, in four stages: the link, the application
  command, the login and the disclaimer, the automatic consent.\<close>

definition auto_consent :: "bytes \<Rightarrow> ('t, unit) act" where
  "auto_consent text s =
     (if \<not> matches_stored_disclaimer text (last_agreed_disclaimer (app s)) then
        Some (Err NeedsReconsent,
              set_state (AwaitingConsent text)
                (log_msg Info ''PROTOCOL''
                   ''Server disclaimer differs from stored consent; re-consent required'' s))
      else Some (Ok (), s))"

definition reconnect_link :: "'t Transport \<Rightarrow> bytes \<Rightarrow> ('t, unit) act" where
  "reconnect_link T why =
     sbind (lift_op (t_reopen_modem_connection T)) (\<lambda>_.
     sbind (pure_act (set_state (Reconnecting why))) (\<lambda>_.
     sbind check_abort (\<lambda>_.
     sbind (ax25_open_and_await_connected T) (\<lambda>_.
     check_abort))))"

definition reconnect_command :: "Unicode \<Rightarrow> 't Transport \<Rightarrow> ('t, unit) act" where
  "reconnect_command U T s =
     (if \<not> skip_bpq_app (config (app s)) then
        sbind (bpq_send_app_command U T) (\<lambda>_. check_abort) s
      else
        pure_act (log_msg Info ''BPQ'' ''Skipping BPQ application command (direct connection mode)'') s)"

definition reconnect_agree :: "'t Transport \<Rightarrow> bytes \<Rightarrow> ('t, unit) act" where
  "reconnect_agree T text =
     sbind check_abort (\<lambda>_.
     sbind (auto_consent text) (\<lambda>_.
     sbind check_abort (\<lambda>_.
     sbind (pure_act (log_dir Tx Info ''BPQ'' ''Auto-sending AGREE (matches stored consent)'')) (\<lambda>_.
     sbind (lift_op (sys_send T (''AGREE'' @ [LF]))) (\<lambda>_.
     pure_act (log_msg Info ''PROTOCOL'' ''Reconnect successful'' \<circ> set_state CsConnected))))))"

definition reconnect_steps :: "Unicode \<Rightarrow> 't Transport \<Rightarrow> bytes \<Rightarrow> bytes \<Rightarrow> ('t, unit) act" where
  "reconnect_steps U T why callsign =
     sbind (reconnect_link T why) (\<lambda>_.
     sbind (sbind (reconnect_command U T) (\<lambda>_.
            bpq_await_callsign_prompt_and_send_callsign U T callsign)) (\<lambda>_.
     sbind check_abort (\<lambda>_.
     sbind (bpq_await_disclaimer U T) (reconnect_agree T))))"

definition handle_reconnect :: "Unicode \<Rightarrow> 't Transport \<Rightarrow> bytes \<Rightarrow> bytes \<Rightarrow> ('t, unit) act" where
  "handle_reconnect U T why callsign s =
     (let s = set_state (Reconnecting why) s;
          s = log_msg Info ''PROTOCOL'' (''Session lost ('' @ why @ ''); attempting reconnect'') s in
      case reconnect_steps U T why callsign s of
        None \<Rightarrow> None
      | Some (Inr _, s) \<Rightarrow> Some (Ok (), s)
      | Some (Inl NeedsReconsent, s) \<Rightarrow> Some (Err NeedsReconsent, s)
      | Some (Inl e, s) \<Rightarrow>
          let msg = ''Reconnect failed: '' @ agwpe_error_to_string e in
          Some (Err e, set_state (CsError msg) (log_msg Info ''ERROR'' msg s)))"

definition handle_send_request_with_reconnect ::
  "Unicode \<Rightarrow> 't Transport \<Rightarrow> SessionState \<Rightarrow> bytes \<Rightarrow> bytes \<Rightarrow> ('t, bytes) act" where
  "handle_send_request_with_reconnect U T ss d callsign =
     sbind check_abort (\<lambda>_ s.
     (case handle_send_request U T ss d s of
        None \<Rightarrow> None
      | Some (Inr bs, s) \<Rightarrow> Some (Ok bs, s)
      | Some (Inl (SessionDied why), s) \<Rightarrow>
          sbind (handle_reconnect U T why callsign) (\<lambda>_.
          sbind check_abort (\<lambda>_.
          handle_send_request U T ss d)) s
      | Some (Inl e, s) \<Rightarrow> Some (Err e, s)))"

section \<open>Reasoning about actions\<close>

lemma sbind_SomeE:
  assumes "sbind m f s = Some (r, s')"
  obtains (err) e where "m s = Some (Err e, s')" and "r = Err e"
  | (ok) a s1 where "m s = Some (Ok a, s1)" and "f a s1 = Some (r, s')"
  using assms by (auto simp: sbind_def split: option.splits sum.splits)

lemma sbind_Some: "m s = Some (Ok a, s1) \<Longrightarrow> sbind m f s = f a s1"
  by (simp add: sbind_def)

lemma sbind_assoc: "sbind (sbind m f) g = sbind m (\<lambda>a. sbind (f a) g)"
  by (simp add: sbind_def fun_eq_iff split: option.split sum.split prod.split)

lemma sbind_total:
  "\<exists>res. m s = Some res \<Longrightarrow> (\<And>a s1. m s = Some (Ok a, s1) \<Longrightarrow> \<exists>res. f a s1 = Some res)
     \<Longrightarrow> \<exists>res. sbind m f s = Some res"
  by (auto simp: sbind_def split: sum.splits)

text \<open>The rule for the receive loop: an invariant of the accumulator and the system that every
  round keeps or turns into the postcondition.\<close>

lemma recv_loop_rule:
  assumes "recv_loop T secs body acc s = Some (r, s')" and "I acc s"
    and step: "\<And>acc s ev s1. I acc s \<Longrightarrow> sys_recv T (clock s + secs * 1000) s = (ev, s1) \<Longrightarrow>
           (case body ev acc s1 of Inl (r, s2) \<Rightarrow> Q r s2 | Inr (acc', s2) \<Rightarrow> I acc' s2)"
  shows "Q r s'"
proof -
  have "T = T \<longrightarrow> secs = secs \<longrightarrow> body = body \<longrightarrow> I acc s \<longrightarrow> Q (fst (r, s')) (snd (r, s'))"
  proof (rule recv_loop.raw_induct [where P = "\<lambda>T1 secs1 body1 acc s y.
        T1 = T \<longrightarrow> secs1 = secs \<longrightarrow> body1 = body \<longrightarrow> I acc s \<longrightarrow> Q (fst y) (snd y)", OF _ assms(1)], intro impI)
    fix loop T1 secs1 body1 acc s y
    assume IH: "\<And>T1 secs1 body1 acc s y. loop T1 secs1 body1 acc s = Some y \<Longrightarrow>
          T1 = T \<longrightarrow> secs1 = secs \<longrightarrow> body1 = body \<longrightarrow> I acc s \<longrightarrow> Q (fst y) (snd y)"
      and eq: "(case sys_recv T1 (clock s + secs1 * 1000) s of
            (r, s1) \<Rightarrow> (case body1 r acc s1 of Inl done \<Rightarrow> Some done
              | Inr (acc', s2) \<Rightarrow> loop T1 secs1 body1 acc' s2)) = Some y"
      and same: "T1 = T" "secs1 = secs" "body1 = body" and inv: "I acc s"
    obtain ev s1 where rc: "sys_recv T (clock s + secs * 1000) s = (ev, s1)" by fastforce
    from step [OF inv rc] eq same rc IH show "Q (fst y) (snd y)"
      by (auto split: sum.splits prod.splits)
  qed
  with assms(2) show ?thesis by simp
qed

text \<open>What an action put on the air: \<open>puts s s' ds\<close> says that \<open>ds\<close> was sent and otherwise
  only the log, the connection state, the transport and the clock moved.\<close>

definition puts :: "'t Sys \<Rightarrow> bytes list \<Rightarrow> 't Sys \<Rightarrow> bool" where
  "puts s ds s' \<longleftrightarrow> quiet (s\<lparr>sent := sent s @ ds\<rparr>) s'"

lemma puts_Nil: "quiet s s' \<Longrightarrow> puts s [] s'"
  by (simp add: puts_def)

lemma puts_trans: "puts s xs t \<Longrightarrow> puts t ys u \<Longrightarrow> puts s (xs @ ys) u"
  by (auto simp: puts_def quiet_def)

lemma puts_sent: "puts s ds s' \<Longrightarrow> sent s' = sent s @ ds"
  by (simp add: puts_def quiet_def)

lemma puts_frame:
  "puts s ds s' \<Longrightarrow> consents s' = consents s \<and> config (app s') = config (app s)
     \<and> last_agreed_disclaimer (app s') = last_agreed_disclaimer (app s)
     \<and> pending_consent (app s') = pending_consent (app s)
     \<and> abort_flag s' = abort_flag s \<and> presses s' = presses s \<and> clock s \<le> clock s'"
  by (simp add: puts_def quiet_def)

lemma puts_quiet: "puts s xs t \<Longrightarrow> quiet t u \<Longrightarrow> puts s xs u"
  using puts_trans [of s xs t "[]" u] by (simp add: puts_Nil)

lemma quiet_puts: "quiet s t \<Longrightarrow> puts t ys u \<Longrightarrow> puts s ys u"
  using puts_trans [of s "[]" t ys u] by (simp add: puts_Nil)

lemma puts_log [simp]:
  "puts s ds (push_log e s') = puts s ds s'" "puts s ds (set_state cs s') = puts s ds s'"
  "puts s ds (log_msg l c m s') = puts s ds s'" "puts s ds (log_dir d l c m s') = puts s ds s'"
  by (simp_all add: puts_def)

lemma puts_log_left [simp]:
  "puts (push_log e s) ds s' = puts s ds s'" "puts (set_state cs s) ds s' = puts s ds s'"
  "puts (log_msg l c m s) ds s' = puts s ds s'" "puts (log_dir d l c m s) ds s' = puts s ds s'"
  by (auto simp: puts_def quiet_def)

lemma send_puts:
  assumes "lift_op (sys_send T d) s = Some (r, s')"
  shows "puts s [d] s'" and "connection_state (app s') = connection_state (app s)"
  using assms
  by (auto simp: lift_op_def sys_send_def puts_def quiet_def split: prod.splits)

lemma check_abort_simps [simp]:
  "check_abort s = Some (Ok a, s') \<longleftrightarrow> \<not> is_aborted s \<and> s' = s"
  "check_abort s = Some (Err e, s') \<longleftrightarrow> is_aborted s \<and> s' = s \<and> e = DisconnectedByOperator"
  by (auto simp: check_abort_def)

lemma pure_act_simps [simp]:
  "pure_act f s = Some (r, s') \<longleftrightarrow> r = Ok () \<and> s' = f s"
  by (auto simp: pure_act_def)

lemma transport_err_neq: "map_err transport_err_to_agwpe r = Err NeedsReconsent \<Longrightarrow> P"
  by (cases r) (auto elim: transport_err_to_agwpe.elims)

lemma send_not_reconsent: "lift_op op s \<noteq> Some (Err NeedsReconsent, s')"
  by (auto simp: lift_op_def split: prod.splits elim!: transport_err_neq)

section \<open>The bodies of the loops\<close>

definition body_quiet :: "('t, 'acc, 'a) body \<Rightarrow> bool" where
  "body_quiet body \<longleftrightarrow>
     (\<forall>ev acc s. case body ev acc s of Inl (r, s2) \<Rightarrow> quiet s s2 | Inr (acc', s2) \<Rightarrow> quiet s s2)"

text \<open>A body that goes round again only after data, and leaves the transport alone.\<close>

definition body_drains :: "('t, 'acc, 'a) body \<Rightarrow> bool" where
  "body_drains body \<longleftrightarrow>
     (\<forall>ev acc s acc' s2. body ev acc s = Inr (acc', s2) \<longrightarrow>
        (\<exists>bs. ev = Ok (Data bs)) \<and> transport s2 = transport s)"

lemma find_header_quiet: "find_header U acc s = (r, s') \<Longrightarrow> quiet s s' \<and> transport s' = transport s
    \<and> is_aborted s' = is_aborted s"
  by (auto simp: find_header_def Let_def split: sum.splits option.splits if_splits prod.splits)

lemma callsign_prompt_body_ok [simp]: "body_quiet callsign_prompt_body" "body_drains callsign_prompt_body"
  by (auto simp: body_quiet_def body_drains_def callsign_prompt_body_def Let_def
      split: sum.splits TransportEvent.splits if_splits)

lemma disclaimer_body_ok [simp]: "body_quiet (disclaimer_body U)" "body_drains (disclaimer_body U)"
  by (auto simp: body_quiet_def body_drains_def disclaimer_body_def Let_def
      split: sum.splits TransportEvent.splits if_splits)

lemma response_data_step_cases:
  "response_data_step U bs acc s = Inl (r, s2) \<Longrightarrow> quiet s s2"
  "response_data_step U bs acc s = Inr (acc', s2) \<Longrightarrow> quiet s s2 \<and> transport s2 = transport s"
  using find_header_quiet [of U "acc\<lparr>response_data := response_data acc @ bs\<rparr>"
      "log_dir Rx Trace ''PROTOCOL'' (''Received '' @ nat_to_string (length bs)
         @ '' bytes (total: '' @ nat_to_string (length (response_data acc @ bs)) @ '')'') s"]
  by (auto simp: response_data_step_def Let_def split: if_splits sum.splits prod.splits option.splits)

lemma response_body_ok [simp]: "body_quiet (response_body U n)" "body_drains (response_body U n)"
  by (auto simp: body_quiet_def body_drains_def response_body_def
      split: sum.splits TransportEvent.splits TransportError.splits
      dest: response_data_step_cases)

definition never_reconsent :: "('t, 'a) act \<Rightarrow> bool" where
  "never_reconsent m \<longleftrightarrow> (\<forall>s s'. m s \<noteq> Some (Err NeedsReconsent, s'))"

lemma never_reconsent_sbind:
  "never_reconsent m \<Longrightarrow> (\<And>a. never_reconsent (f a)) \<Longrightarrow> never_reconsent (sbind m f)"
  by (auto simp: never_reconsent_def elim!: sbind_SomeE)

lemma never_reconsent_lift [simp]:
  "never_reconsent (lift_op op)" "never_reconsent (pure_act f)" "never_reconsent check_abort"
  by (simp_all add: never_reconsent_def send_not_reconsent)

lemma never_reconsent_loop:
  assumes "\<And>ev acc s s2. body ev acc s \<noteq> Inl (Err NeedsReconsent, s2)"
  shows "never_reconsent (recv_loop T secs body acc)"
  unfolding never_reconsent_def
proof (intro allI notI)
  fix s s'
  assume loop: "recv_loop T secs body acc s = Some (Err NeedsReconsent, s')"
  have "case body ev acc s1 of Inl (r, s2) \<Rightarrow> r \<noteq> Err NeedsReconsent | Inr (acc', s2) \<Rightarrow> True"
    for ev acc s1
    using assms by (auto split: sum.splits prod.splits)
  from recv_loop_rule [where Q = "\<lambda>r _. r \<noteq> Err NeedsReconsent" and I = "\<lambda>_ _. True", OF loop TrueI this]
  show False by simp
qed

lemma transport_err_not_reconsent [simp]: "transport_err_to_agwpe e \<noteq> NeedsReconsent"
  by (cases e) simp_all

lemma never_reconsent_login [simp]:
  "never_reconsent (bpq_await_callsign_prompt_and_send_callsign U T c)"
  "never_reconsent (bpq_await_disclaimer U T)"
  unfolding bpq_await_callsign_prompt_and_send_callsign_def bpq_await_disclaimer_def Let_def
  by (intro never_reconsent_sbind never_reconsent_loop never_reconsent_lift;
      auto simp: callsign_prompt_body_def disclaimer_body_def Let_def
        split: sum.splits TransportEvent.splits if_splits)+

lemma never_reconsent_command [simp]: "never_reconsent (reconnect_command U T)"
  unfolding never_reconsent_def
  by (auto simp: reconnect_command_def bpq_send_app_command_def Let_def send_not_reconsent
      elim!: sbind_SomeE split: if_splits)

section \<open>What the driver puts on the air\<close>

text \<open>What the two logins read: everything up to and including the wait for the disclaimer.\<close>

definition handshake_reads :: "Unicode \<Rightarrow> 't Transport \<Rightarrow> bytes \<Rightarrow> ('t, bytes) act" where
  "handshake_reads U T c s =
     sbind (sbind (if skip_bpq_app (config (app s)) then
              pure_act (log_msg Info ''BPQ'' ''Skipping BPQ application command (direct connection mode)'')
            else bpq_send_app_command U T) (\<lambda>_.
     bpq_await_callsign_prompt_and_send_callsign U T c)) (\<lambda>_. bpq_await_disclaimer U T) s"

definition reconnect_reads :: "Unicode \<Rightarrow> 't Transport \<Rightarrow> bytes \<Rightarrow> bytes \<Rightarrow> ('t, bytes) act" where
  "reconnect_reads U T why c =
     sbind (reconnect_link T why) (\<lambda>_.
     sbind (sbind (reconnect_command U T) (\<lambda>_. bpq_await_callsign_prompt_and_send_callsign U T c)) (\<lambda>_.
     sbind check_abort (\<lambda>_. bpq_await_disclaimer U T)))"

definition session_lost :: "bytes \<Rightarrow> 't Sys \<Rightarrow> 't Sys" where
  "session_lost why s =
     log_msg Info ''PROTOCOL'' (''Session lost ('' @ why @ ''); attempting reconnect'')
       (set_state (Reconnecting why) s)"

text \<open>The text a client may send before AGREE: the application command unless it is skipped,
  then the callsign.\<close>

definition login_lines :: "bytes \<Rightarrow> 't Sys \<Rightarrow> bytes list" where
  "login_lines callsign s =
     (if skip_bpq_app (config (app s)) then [] else [bpq_command (config (app s)) @ [LF]])
     @ [callsign @ [LF]]"

definition agree_line :: bytes where
  "agree_line = ''AGREE'' @ [LF]"

lemma consent_step_spec:
  assumes "consent_step text s = Some (r, s')"
  shows "sent s' = sent s \<and> config (app s') = config (app s)
     \<and> (\<forall>a. r = Ok a \<longrightarrow>
          (\<exists>d rest. consents s = (d, Some True) # rest \<and> d < 300 * 1000 \<and> consents s' = rest
             \<and> last_agreed_disclaimer (app s') = Some text))"
proof -
  let ?p = "park_for_consent text s"
  have p: "sent ?p = sent s" "config (app ?p) = config (app s)" "consents ?p = consents s"
      "connection_state (app ?p) = AwaitingConsent text" "pending_consent (app ?p) = Some (clock s)"
    by (simp_all add: park_for_consent_def Let_def)
  show ?thesis
    using assms p
    by (auto simp: consent_step_def wait_consent_def Let_def api_consent_post_def
        record_agreed_disclaimer_def split: list.splits option.splits if_splits prod.splits)
qed

lemma login_lines_puts: "puts s ds s1 \<Longrightarrow> login_lines c s1 = login_lines c s"
  by (simp add: login_lines_def puts_def quiet_def)

context transport_contract
begin

lemma recv_loop_quiet:
  assumes "body_quiet body" and "recv_loop T secs body acc s = Some (r, s')"
  shows "quiet s s'"
proof (rule recv_loop_rule [OF assms(2), where I = "\<lambda>_. quiet s" and Q = "\<lambda>_. quiet s"])
  fix acc x ev s1
  assume "quiet s x" and "sys_recv T (clock x + secs * 1000) x = (ev, s1)"
  then have "quiet s s1" using sys_recv_quiet quiet_trans by blast
  with assms(1) show "case body ev acc s1 of Inl (r, x) \<Rightarrow> quiet s x | Inr (acc', x) \<Rightarrow> quiet s x"
    unfolding body_quiet_def
    by (smt (verit, best) case_prod_beta quiet_trans sum.case_eq_if)
qed simp

lemma open_link_puts:
  "ax25_open_and_await_connected T s = Some (r, s') \<Longrightarrow> quiet s s'"
  by (auto simp: ax25_open_and_await_connected_def lift_op_def elim!: sbind_SomeE
      split: prod.splits dest!: open_link_quiet)

lemma app_command_puts:
  "bpq_send_app_command U T s = Some (r, s') \<Longrightarrow> puts s [bpq_command (config (app s)) @ [LF]] s'"
  by (auto simp: bpq_send_app_command_def Let_def dest!: send_puts(1))

lemma callsign_puts:
  assumes "bpq_await_callsign_prompt_and_send_callsign U T c s = Some (r, s')"
  shows "puts s [c @ [LF]] s' \<or> puts s [] s' \<and> (\<exists>e. r = Err e)"
  using assms
  by (auto simp: bpq_await_callsign_prompt_and_send_callsign_def Let_def elim!: sbind_SomeE
      dest!: send_puts(1) recv_loop_quiet [rotated]
      intro: puts_Nil quiet_puts)

lemma disclaimer_puts:
  "bpq_await_disclaimer U T s = Some (r, s') \<Longrightarrow> quiet s s'"
  by (auto simp: bpq_await_disclaimer_def elim!: sbind_SomeE dest!: recv_loop_quiet [rotated])

lemma login_puts:
  assumes "sbind cmd (\<lambda>_. bpq_await_callsign_prompt_and_send_callsign U T c) s = Some (r, s')"
    and cmd: "\<forall>r1 s1. cmd s = Some (r1, s1) \<longrightarrow>
          puts s (if skip_bpq_app (config (app s)) then [] else [bpq_command (config (app s)) @ [LF]]) s1"
  shows "\<exists>pre. prefix pre (login_lines c s) \<and> puts s pre s' \<and> (\<forall>a. r = Ok a \<longrightarrow> pre = login_lines c s)"
  using assms(1)
proof (cases rule: sbind_SomeE)
  case (err e)
  from cmd [rule_format, OF err(1)] err(2) show ?thesis
    by (intro exI [of _ "if skip_bpq_app (config (app s)) then [] else [bpq_command (config (app s)) @ [LF]]"])
      (simp add: login_lines_def)
next
  case (ok a s1)
  let ?pre = "if skip_bpq_app (config (app s)) then [] else [bpq_command (config (app s)) @ [LF]]"
  from cmd [rule_format, OF ok(1)] callsign_puts [OF ok(2)]
  have "puts s (?pre @ [c @ [LF]]) s' \<or> puts s (?pre @ []) s' \<and> (\<exists>e. r = Err e)"
    using puts_trans by blast
  then show ?thesis
  proof
    assume "puts s (?pre @ [c @ [LF]]) s'"
    then show ?thesis by (intro exI [of _ "login_lines c s"]) (simp add: login_lines_def)
  next
    assume "puts s (?pre @ []) s' \<and> (\<exists>e. r = Err e)"
    then show ?thesis by (intro exI [of _ ?pre]) (auto simp: login_lines_def)
  qed
qed

lemma handshake_on_air:
  assumes "perform_bpq_handshake U T c s = Some (r, s')"
  shows "(\<exists>pre. prefix pre (login_lines c s) \<and> sent s' = sent s @ pre \<and> (\<exists>e. r = Err e))
     \<or> sent s' = sent s @ login_lines c s @ [agree_line]
        \<and> (\<exists>d rest text s1. consents s = (d, Some True) # rest \<and> d < 300 * 1000 \<and> consents s' = rest
             \<and> handshake_reads U T c s = Some (Ok text, s1)
             \<and> last_agreed_disclaimer (app s') = Some text)"
proof -
  let ?cmd = "if skip_bpq_app (config (app s)) then
       pure_act (log_msg Info ''BPQ'' ''Skipping BPQ application command (direct connection mode)'')
     else bpq_send_app_command U T"
  let ?login = "sbind ?cmd (\<lambda>_. bpq_await_callsign_prompt_and_send_callsign U T c)"
  let ?agree = "sbind (pure_act (log_dir Tx Debug ''BPQ'' ''Sending AGREE'')) (\<lambda>_.
     sbind (lift_op (sys_send T (''AGREE'' @ [LF]))) (\<lambda>_.
     pure_act (log_msg Info ''BPQ'' ''BPQ handshake completed successfully'')))"
  have cmd: "\<forall>r1 s1. ?cmd s = Some (r1, s1) \<longrightarrow>
      puts s (if skip_bpq_app (config (app s)) then [] else [bpq_command (config (app s)) @ [LF]]) s1"
    using app_command_puts [of U s] by (auto simp: puts_Nil)
  have "sbind ?login (\<lambda>_. sbind (bpq_await_disclaimer U T) (\<lambda>text.
      sbind (consent_step text) (\<lambda>_. ?agree))) s = Some (r, s')"
    using assms by (simp only: perform_bpq_handshake_def sbind_assoc)
  then show ?thesis
  proof (cases rule: sbind_SomeE)
    case (err e)
    from login_puts [OF err(1) cmd] err(2) show ?thesis using puts_sent by blast
  next
    case (ok a s1)
    note login = ok(1)
    have s1: "puts s (login_lines c s) s1" using login_puts [OF ok(1) cmd] by blast
    from ok(2) show ?thesis
    proof (cases rule: sbind_SomeE)
      case (err e)
      then have "puts s (login_lines c s) s'" using s1 disclaimer_puts puts_quiet by blast
      with err(2) show ?thesis using puts_sent by blast
    next
      case (ok dtext s2)
      have disc: "handshake_reads U T c s = Some (Ok dtext, s2)"
        using login ok(1) by (simp only: handshake_reads_def sbind_def option.case prod.case sum.case)
      have s2: "puts s (login_lines c s) s2" using ok(1) s1 disclaimer_puts puts_quiet by blast
      from ok(2) show ?thesis
      proof (cases rule: sbind_SomeE)
        case (err e)
        then have "sent s' = sent s2" using consent_step_spec [OF err(1)] by simp
        with err(2) puts_sent [OF s2] show ?thesis by auto
      next
        case (ok u s3)
        note c3 = consent_step_spec [OF ok(1)]
        from ok(2) have s': "puts s3 [agree_line] s'"
          by (auto elim!: sbind_SomeE simp: agree_line_def dest!: send_puts(1))
        from c3 obtain d rest where "consents s2 = (d, Some True) # rest" "d < 300 * 1000"
            "consents s3 = rest" "last_agreed_disclaimer (app s3) = Some dtext" by auto
        with puts_sent [OF s'] puts_frame [OF s'] c3 disc puts_sent [OF s2] puts_frame [OF s2]
        show ?thesis by auto
      qed
    qed
  qed
qed

lemma reconnect_link_quiet: "reconnect_link T why s = Some (r, s') \<Longrightarrow> quiet s s'
    \<and> r \<noteq> Err NeedsReconsent"
  by (auto simp: reconnect_link_def lift_op_def check_abort_def ax25_open_and_await_connected_def
      elim!: sbind_SomeE transport_err_neq dest!: reopen_quiet open_link_quiet
      split: prod.splits if_splits) (meson quiet_trans)+

lemma reconnect_command_puts:
  "reconnect_command U T s = Some (r, s') \<Longrightarrow>
     puts s (if skip_bpq_app (config (app s)) then [] else [bpq_command (config (app s)) @ [LF]]) s'"
  by (auto simp: reconnect_command_def check_abort_def puts_Nil elim!: sbind_SomeE
      dest!: app_command_puts split: if_splits)

lemma reconnect_agree_spec:
  assumes "reconnect_agree T text s = Some (r, s')"
  shows "puts s [] s' \<and> (\<exists>e. r = Err e \<and> (e = NeedsReconsent \<longrightarrow>
            connection_state (app s') = AwaitingConsent text \<and> last_agreed_disclaimer (app s) \<noteq> Some text))
     \<or> puts s [agree_line] s' \<and> last_agreed_disclaimer (app s) = Some text \<and> r \<noteq> Err NeedsReconsent
         \<and> (\<forall>a. r = Ok a \<longrightarrow> connection_state (app s') = CsConnected)"
proof -
  let ?m = "matches_stored_disclaimer text (last_agreed_disclaimer (app s))"
  consider (abort) "is_aborted s" | (differs) "\<not> is_aborted s" "\<not> ?m" | (same) "\<not> is_aborted s" ?m
    by blast
  then show ?thesis
  proof cases
    case abort
    with assms show ?thesis by (simp add: reconnect_agree_def sbind_def check_abort_def puts_Nil) (auto simp: puts_Nil)
  next
    case differs
    with assms have "r = Err NeedsReconsent" "s' = set_state (AwaitingConsent text) (log_msg Info ''PROTOCOL''
        ''Server disclaimer differs from stored consent; re-consent required'' s)"
      by (simp_all add: reconnect_agree_def sbind_def check_abort_def auto_consent_def)
    with differs show ?thesis by (auto simp: puts_Nil matches_stored_disclaimer_def)
  next
    case same
    with assms have "sbind (lift_op (sys_send T (''AGREE'' @ [LF]))) (\<lambda>_.
        pure_act (log_msg Info ''PROTOCOL'' ''Reconnect successful'' \<circ> set_state CsConnected))
        (log_dir Tx Info ''BPQ'' ''Auto-sending AGREE (matches stored consent)'' s) = Some (r, s')"
      by (simp add: reconnect_agree_def sbind_def [of check_abort] sbind_def [of "auto_consent text"]
          sbind_def [of "pure_act _"] check_abort_def auto_consent_def pure_act_def)
    then have "puts s [agree_line] s' \<and> r \<noteq> Err NeedsReconsent
        \<and> (\<forall>a. r = Ok a \<longrightarrow> connection_state (app s') = CsConnected)"
      by (auto simp: agree_line_def send_not_reconsent dest: send_puts(1) elim!: sbind_SomeE)
    moreover have "last_agreed_disclaimer (app s) = Some text"
      using same by (auto simp: matches_stored_disclaimer_def split: option.splits)
    ultimately show ?thesis by simp
  qed
qed

lemma reconnect_steps_spec:
  assumes "reconnect_steps U T why c s = Some (r, s')"
  shows "(\<exists>pre. prefix pre (login_lines c s) \<and> puts s pre s' \<and> (\<exists>e. r = Err e \<and> (e = NeedsReconsent \<longrightarrow>
            (\<exists>text. connection_state (app s') = AwaitingConsent text
               \<and> last_agreed_disclaimer (app s) \<noteq> Some text))))
     \<or> puts s (login_lines c s @ [agree_line]) s' \<and> r \<noteq> Err NeedsReconsent
         \<and> (\<exists>text s1. reconnect_reads U T why c s = Some (Ok text, s1)
              \<and> last_agreed_disclaimer (app s) = Some text)
         \<and> (\<forall>a. r = Ok a \<longrightarrow> connection_state (app s') = CsConnected)"
  using assms unfolding reconnect_steps_def
proof (cases rule: sbind_SomeE)
  case (err e)
  then show ?thesis using reconnect_link_quiet [OF err(1)] puts_Nil Nil_prefix by blast
next
  case (ok a s1)
  note link = ok(1)
  note q1 = reconnect_link_quiet [OF ok(1), THEN conjunct1]
  have ll: "login_lines c s1 = login_lines c s" using q1 by (simp add: login_lines_def quiet_def)
  from ok(2) show ?thesis
  proof (cases rule: sbind_SomeE)
    case (err e)
    obtain pre where "prefix pre (login_lines c s)" "puts s1 pre s'"
      using login_puts [OF err(1)] reconnect_command_puts ll by metis
    moreover have "e \<noteq> NeedsReconsent"
      using err(1) never_reconsent_command [of U T] never_reconsent_login(1) [of U T c]
      unfolding never_reconsent_def by (auto elim!: sbind_SomeE)
    ultimately show ?thesis using quiet_puts [OF q1] err(2) by blast
  next
    case (ok b s2)
    note login = ok(1)
    have p2: "puts s (login_lines c s) s2"
      using login_puts [OF ok(1)] reconnect_command_puts ll quiet_puts [OF q1] by metis
    note f2 = puts_frame [OF p2]
    from ok(2) show ?thesis
    proof (cases rule: sbind_SomeE)
      case (err e)
      then show ?thesis using p2 by auto
    next
      case (ok d s3)
      note ab = ok(1)
      then have "s3 = s2" by simp
      from ok(2) show ?thesis unfolding \<open>s3 = s2\<close>
      proof (cases rule: sbind_SomeE)
        case (err e)
        have "e \<noteq> NeedsReconsent"
          using err(1) never_reconsent_login(2) [of U T] by (auto simp: never_reconsent_def)
        moreover have "puts s (login_lines c s) s'" using p2 disclaimer_puts [OF err(1)] puts_quiet by blast
        ultimately show ?thesis using err(2) by blast
      next
        case (ok dtext s4)
        have reads: "reconnect_reads U T why c s = Some (Ok dtext, s4)"
          using link login ab ok(1) unfolding \<open>s3 = s2\<close>
          by (simp only: reconnect_reads_def sbind_def [of "reconnect_link T why"] sbind_def [of "sbind _ _"]
              sbind_def [of check_abort] option.case prod.case sum.case)
        have p4: "puts s (login_lines c s) s4" using p2 disclaimer_puts [OF ok(1)] puts_quiet by blast
        have la: "last_agreed_disclaimer (app s4) = last_agreed_disclaimer (app s)"
          using puts_frame [OF p4] by simp
        from reconnect_agree_spec [OF ok(2)] show ?thesis
        proof
          assume "puts s4 [] s' \<and> (\<exists>e. r = Err e \<and> (e = NeedsReconsent \<longrightarrow>
            connection_state (app s') = AwaitingConsent dtext \<and> last_agreed_disclaimer (app s4) \<noteq> Some dtext))"
          then show ?thesis using puts_trans [OF p4, of "[]" s'] la by auto
        next
          assume "puts s4 [agree_line] s' \<and> last_agreed_disclaimer (app s4) = Some dtext
            \<and> r \<noteq> Err NeedsReconsent \<and> (\<forall>a. r = Ok a \<longrightarrow> connection_state (app s') = CsConnected)"
          then show ?thesis using puts_trans [OF p4] la reads by metis
        qed
      qed
    qed
  qed
qed

lemma handle_reconnect_spec:
  assumes "handle_reconnect U T why c s = Some (r, s')"
  shows "(\<exists>pre. prefix pre (login_lines c s) \<and> puts s pre s' \<and> (\<exists>e. r = Err e))
     \<or> puts s (login_lines c s @ [agree_line]) s'
         \<and> (\<exists>text s1. reconnect_reads U T why c (session_lost why s) = Some (Ok text, s1)
              \<and> last_agreed_disclaimer (app s) = Some text)"
    and "case r of
           Inr _ \<Rightarrow> connection_state (app s') = CsConnected
         | Inl e \<Rightarrow> if e = NeedsReconsent
             then \<exists>text. connection_state (app s') = AwaitingConsent text
                    \<and> last_agreed_disclaimer (app s) \<noteq> Some text
             else connection_state (app s') = CsError (''Reconnect failed: '' @ agwpe_error_to_string e)"
proof -
  let ?s = "session_lost why s"
  obtain r1 s1 where st: "reconnect_steps U T why c ?s = Some (r1, s1)"
    and r: "r = r1" "(\<exists>e. r1 = Err e \<and> e \<noteq> NeedsReconsent \<and> s' = set_state (CsError (''Reconnect failed: '' @ agwpe_error_to_string e))
        (log_msg Info ''ERROR'' (''Reconnect failed: '' @ agwpe_error_to_string e) s1))
      \<or> s' = s1 \<and> (r1 = Err NeedsReconsent \<or> r1 = Ok ())"
    using assms
    by (auto simp: handle_reconnect_def session_lost_def Let_def
        split: option.splits sum.splits AgwpeError.splits)
  have ll: "login_lines c ?s = login_lines c s" by (simp add: login_lines_def session_lost_def)
  have pu: "puts ?s ds x = puts s ds x" for ds x by (simp add: session_lost_def)
  have la: "last_agreed_disclaimer (app ?s) = last_agreed_disclaimer (app s)" by (simp add: session_lost_def)
  note spec = reconnect_steps_spec [OF st, unfolded ll pu la]
  show "(\<exists>pre. prefix pre (login_lines c s) \<and> puts s pre s' \<and> (\<exists>e. r = Err e))
     \<or> puts s (login_lines c s @ [agree_line]) s'
         \<and> (\<exists>text s1. reconnect_reads U T why c (session_lost why s) = Some (Ok text, s1)
              \<and> last_agreed_disclaimer (app s) = Some text)"
    using spec r by auto
  show "case r of
           Inr _ \<Rightarrow> connection_state (app s') = CsConnected
         | Inl e \<Rightarrow> if e = NeedsReconsent
             then \<exists>text. connection_state (app s') = AwaitingConsent text
                    \<and> last_agreed_disclaimer (app s) \<noteq> Some text
             else connection_state (app s') = CsError (''Reconnect failed: '' @ agwpe_error_to_string e)"
    using spec r by auto
qed

lemma request_puts:
  assumes "handle_send_request U T ss d s = Some (r, s')"
  shows "is_aborted s \<and> s' = s \<and> r = Err DisconnectedByOperator \<or> \<not> is_aborted s \<and> puts s [d] s'"
  using assms
  by (auto simp: handle_send_request_def elim!: sbind_SomeE
      dest!: send_puts(1) recv_loop_quiet [rotated] intro: puts_quiet)

lemma request_with_reconnect_puts:
  assumes "handle_send_request_with_reconnect U T ss d c s = Some (r, s')"
  shows "is_aborted s \<and> s' = s \<and> r = Err DisconnectedByOperator
     \<or> puts s [d] s'
     \<or> (\<exists>pre e. prefix pre (login_lines c s) \<and> puts s (d # pre) s' \<and> r = Err e)
     \<or> puts s (d # login_lines c s @ [agree_line]) s' \<and> (\<exists>e. r = Err e)
     \<or> puts s (d # login_lines c s @ [agree_line, d]) s'"
  using assms unfolding handle_send_request_with_reconnect_def
proof (cases rule: sbind_SomeE)
  case (err e)
  then show ?thesis by simp
next
  case (ok a s0)
  then have s0: "s0 = s" "\<not> is_aborted s" by simp_all
  obtain r1 s1 where rq: "handle_send_request U T ss d s = Some (r1, s1)"
    using ok(2) s0 by (auto split: option.splits)
  have p1: "puts s [d] s1" using request_puts [OF rq] s0 by simp
  show ?thesis
  proof (cases "\<exists>why. r1 = Err (SessionDied why)")
    case False
    then have "s' = s1" using ok(2) s0 rq by (auto split: sum.splits AgwpeError.splits)
    with p1 show ?thesis by simp
  next
    case True
    then obtain why where "sbind (handle_reconnect U T why c)
        (\<lambda>_. sbind check_abort (\<lambda>_. handle_send_request U T ss d)) s1 = Some (r, s')"
      using ok(2) s0 rq by auto
    then show ?thesis
    proof (cases rule: sbind_SomeE)
      case (err e)
      from handle_reconnect_spec(1) [OF err(1)] login_lines_puts [OF p1] puts_trans [OF p1] err(2)
      show ?thesis by auto
    next
      case (ok b s2)
      have p2: "puts s1 (login_lines c s @ [agree_line]) s2"
        using handle_reconnect_spec(1) [OF ok(1)] login_lines_puts [OF p1] by auto
      from ok(2) show ?thesis
      proof (cases rule: sbind_SomeE)
        case (err e)
        then show ?thesis using puts_trans [OF p1 p2] by simp
      next
        case (ok b s3)
        then have "s3 = s2" "\<not> is_aborted s2" by simp_all
        with request_puts [OF ok(2)] have "puts s2 [d] s'" by simp
        with puts_trans [OF puts_trans [OF p1 p2]] show ?thesis by simp
      qed
    qed
  qed
qed

end

section \<open>What a returned response looks like\<close>

definition complete_response :: "bytes \<Rightarrow> bool" where
  "complete_response buf \<longleftrightarrow>
     length buf \<le> MAX_RESPONSE_SIZE \<and> \<not> is_session_dead_payload buf \<and>
     (case decode_header buf of
        Inr (Some (st, len, tag, age, he)) \<Rightarrow> he + len \<le> length buf
      | _ \<Rightarrow> False)"

definition acc_ok :: "RespAcc \<Rightarrow> bool" where
  "acc_ok acc \<longleftrightarrow>
     (case expected_len acc of
        None \<Rightarrow> True
      | Some len \<Rightarrow>
          \<exists>st tag age. decode_header (response_data acc) = Ok (Some (st, len, tag, age, frame_start acc)))"

lemma acc_ok_extend: "acc_ok acc \<Longrightarrow> acc_ok (acc\<lparr>response_data := response_data acc @ bs\<rparr>)"
  by (auto simp: acc_ok_def decode_header_extend split: option.splits)

lemma find_header_ok:
  "find_header U acc s = (Ok acc', s') \<Longrightarrow> acc_ok acc \<Longrightarrow>
     acc_ok acc' \<and> response_data acc' = response_data acc"
  by (auto simp: find_header_def acc_ok_def Let_def split: if_splits sum.splits option.splits prod.splits)

lemma response_data_step_ok:
  assumes "acc_ok acc"
  shows "case response_data_step U bs acc s of
           Inl (r, s2) \<Rightarrow> (\<forall>buf. r = Ok buf \<longrightarrow> complete_response buf)
         | Inr (acc', s2) \<Rightarrow> acc_ok acc'"
proof -
  let ?acc = "acc\<lparr>response_data := response_data acc @ bs\<rparr>"
  have "acc_ok ?acc" using assms by (rule acc_ok_extend)
  then have fh: "acc_ok acc' \<and> response_data acc' = response_data acc @ bs"
    if "find_header U ?acc s1 = (Ok acc', s2)" for acc' s1 s2 using find_header_ok [OF that] by simp
  show ?thesis
    by (auto simp: response_data_step_def Let_def complete_response_def acc_ok_def
        split: if_splits sum.splits prod.splits option.splits dest!: fh)
qed

lemma response_loop_complete:
  assumes "recv_loop T secs (response_body U n) empty_acc s = Some (Ok buf, s')"
  shows "complete_response buf"
proof -
  have step: "case response_body U n ev acc s1 of
           Inl (r, s2) \<Rightarrow> (\<forall>buf. r = Ok buf \<longrightarrow> complete_response buf)
         | Inr (acc', s2) \<Rightarrow> acc_ok acc'" if "acc_ok acc" for ev acc s1
  proof (cases "\<exists>bs. ev = Ok (Data bs)")
    case True
    then show ?thesis using response_data_step_ok [OF that, of U _ s1] by (auto simp: response_body_def)
  next
    case False
    then show ?thesis
      by (auto simp: response_body_def split: sum.splits TransportError.splits TransportEvent.splits)
  qed
  have "acc_ok empty_acc" by (simp add: acc_ok_def empty_acc_def)
  from recv_loop_rule [where I = "\<lambda>acc _. acc_ok acc"
      and Q = "\<lambda>r _. \<forall>buf. r = Ok buf \<longrightarrow> complete_response buf", OF assms this step]
  show ?thesis by simp
qed

section \<open>Every action returns on a draining transport\<close>

context draining_transport
begin

lemma recv_loop_total:
  assumes "body_drains body"
  shows "\<exists>res. recv_loop T secs body acc s = Some res"
proof (induction "rank (transport s)" arbitrary: acc s rule: less_induct)
  case less
  obtain ev s1 where rc: "sys_recv T (clock s + secs * 1000) s = (ev, s1)" by fastforce
  show ?case
  proof (cases "body ev acc s1")
    case (Inl res)
    then show ?thesis using rc by (subst recv_loop.simps) simp
  next
    case (Inr nx)
    obtain acc' s2 where nx: "nx = (acc', s2)" by fastforce
    then obtain bs where ev: "ev = Ok (Data bs)" and tr: "transport s2 = transport s1"
      using assms Inr unfolding body_drains_def by blast
    have "rank (transport s1) < rank (transport s)"
      using rc ev by (auto simp: sys_recv_def split: prod.splits dest: recv_drains)
    then obtain res where "recv_loop T secs body acc' s2 = Some res"
      using less.hyps [of s2 acc'] tr by auto
    then show ?thesis using rc Inr nx by (subst recv_loop.simps) simp
  qed
qed

lemma lift_total: "\<exists>res. lift_op f s = Some res" "\<exists>res. pure_act g s = Some res"
  "\<exists>res. check_abort s = Some res"
  by (auto simp: lift_op_def pure_act_def check_abort_def split: prod.splits)

lemma app_command_total: "\<exists>res. bpq_send_app_command U T s = Some res"
  unfolding bpq_send_app_command_def Let_def by (rule lift_total)

lemma login_total:
  "\<exists>res. bpq_await_callsign_prompt_and_send_callsign U T c s = Some res"
  "\<exists>res. bpq_await_disclaimer U T s = Some res"
  unfolding bpq_await_callsign_prompt_and_send_callsign_def bpq_await_disclaimer_def Let_def
  by (intro sbind_total lift_total recv_loop_total; simp)+

lemma consent_total: "\<exists>res. consent_step d s = Some res"
  by (simp add: consent_step_def split: prod.splits option.splits)

lemma open_total: "\<exists>res. ax25_open_and_await_connected T s = Some res"
  unfolding ax25_open_and_await_connected_def by (intro sbind_total lift_total)

lemma handshake_total: "\<exists>res. perform_bpq_handshake U T c s = Some res"
proof (cases "skip_bpq_app (config (app s))")
  case True
  then show ?thesis unfolding perform_bpq_handshake_def if_P [OF True]
    by (intro sbind_total lift_total login_total consent_total)
next
  case False
  then show ?thesis unfolding perform_bpq_handshake_def if_not_P [OF False]
    by (intro sbind_total lift_total login_total consent_total app_command_total)
qed

lemma request_total: "\<exists>res. handle_send_request U T ss d s = Some res"
  unfolding handle_send_request_def
  by (intro sbind_total lift_total recv_loop_total) simp

lemma reconnect_total: "\<exists>res. handle_reconnect U T why c s = Some res"
proof -
  have cmd: "\<exists>res. reconnect_command U T s = Some res" for s
  proof (cases "skip_bpq_app (config (app s))")
    case True
    then show ?thesis by (simp add: reconnect_command_def pure_act_def)
  next
    case False
    have "\<exists>res. sbind (bpq_send_app_command U T) (\<lambda>_. check_abort) s = Some res"
      by (intro sbind_total app_command_total lift_total)
    with False show ?thesis by (simp add: reconnect_command_def)
  qed
  have agree: "\<exists>res. reconnect_agree T d s = Some res" for d s
    unfolding reconnect_agree_def
    by (intro sbind_total lift_total) (auto simp: auto_consent_def)
  have link: "\<exists>res. reconnect_link T why s = Some res" for s
    unfolding reconnect_link_def by (intro sbind_total lift_total open_total)
  have "\<exists>res. reconnect_steps U T why c s = Some res" for s
    unfolding reconnect_steps_def
    by (intro sbind_total cmd agree link lift_total login_total)
  then show ?thesis
    by (fastforce simp: handle_reconnect_def Let_def split: option.splits sum.splits AgwpeError.splits)
qed

lemma request_with_reconnect_total:
  "\<exists>res. handle_send_request_with_reconnect U T ss d c s = Some res"
proof -
  have retry: "\<exists>res. sbind (handle_reconnect U T why c)
      (\<lambda>_. sbind check_abort (\<lambda>_. handle_send_request U T ss d)) s = Some res" for why s
    by (intro sbind_total reconnect_total lift_total request_total)
  show ?thesis
    unfolding handle_send_request_with_reconnect_def
  proof (intro sbind_total lift_total)
    fix a s1
    obtain r s2 where "handle_send_request U T ss d s1 = Some (r, s2)"
      using request_total [of U ss d s1] by auto
    then show "\<exists>res. (case handle_send_request U T ss d s1 of None \<Rightarrow> None
        | Some (Inr bs, s) \<Rightarrow> Some (Ok bs, s)
        | Some (Inl (SessionDied why), s) \<Rightarrow> sbind (handle_reconnect U T why c)
            (\<lambda>_. sbind check_abort (\<lambda>_. handle_send_request U T ss d)) s
        | Some (Inl e, s) \<Rightarrow> Some (Err e, s)) = Some res"
      using retry by (cases r) (auto split: AgwpeError.splits)
  qed
qed

end

section \<open>The session driver over AGWPE\<close>

text \<open>
  C3: the consent step. The first handshake always returns. Either it fails having sent no
  more than the application command and the callsign, or it sent both and then \<open>AGREE\<close>. In
  the second case the operator's next answer was an acceptance given within 300 seconds, and
  the disclaimer recorded as agreed to is the text the server had sent. So \<open>AGREE\<close> never goes
  out without an acceptance.
\<close>

theorem agree_needs_consent:
  "\<exists>r s'. perform_bpq_handshake U agwpe_transport c s = Some (r, s')
     \<and> ((\<exists>pre e. prefix pre (login_lines c s) \<and> sent s' = sent s @ pre \<and> r = Err e)
        \<or> sent s' = sent s @ login_lines c s @ [agree_line]
           \<and> (\<exists>d rest text s1. consents s = (d, Some True) # rest \<and> d < 300 * 1000
                \<and> consents s' = rest
                \<and> handshake_reads U agwpe_transport c s = Some (Ok text, s1)
                \<and> last_agreed_disclaimer (app s') = Some text))"
proof -
  obtain r s' where h: "perform_bpq_handshake U agwpe_transport c s = Some (r, s')"
    using agw.handshake_total [of U c s] by auto
  from agw.handshake_on_air [OF h] h show ?thesis by blast
qed

text \<open>
  C7: reconnecting. A reconnect always returns, and it sends \<open>AGREE\<close> only when the disclaimer
  the server just sent is byte for byte the one the operator agreed to before; otherwise it
  sends at most the login lines and fails. Afterwards the shared state says what happened:
  \<open>Connected\<close>, \<open>AwaitingConsent\<close> with a text that differs from the stored one, or \<open>Error\<close>
  with the reason. The stored consent itself is never changed.
\<close>

theorem reconnect_agrees_only_to_stored_text:
  "\<exists>r s'. handle_reconnect U agwpe_transport why c s = Some (r, s')
     \<and> ((\<exists>pre e. prefix pre (login_lines c s) \<and> sent s' = sent s @ pre \<and> r = Err e)
        \<or> sent s' = sent s @ login_lines c s @ [agree_line]
           \<and> (\<exists>text s1. reconnect_reads U agwpe_transport why c (session_lost why s) = Some (Ok text, s1)
                \<and> last_agreed_disclaimer (app s) = Some text))
     \<and> last_agreed_disclaimer (app s') = last_agreed_disclaimer (app s)
     \<and> (case r of
          Inr _ \<Rightarrow> connection_state (app s') = CsConnected
        | Inl e \<Rightarrow> if e = NeedsReconsent
            then \<exists>text. connection_state (app s') = AwaitingConsent text
                   \<and> last_agreed_disclaimer (app s) \<noteq> Some text
            else connection_state (app s') = CsError (''Reconnect failed: '' @ agwpe_error_to_string e))"
proof -
  obtain r s' where h: "handle_reconnect U agwpe_transport why c s = Some (r, s')"
    using agw.reconnect_total [of U why c s] by auto
  note spec = agw.handle_reconnect_spec [OF h]
  then have "last_agreed_disclaimer (app s') = last_agreed_disclaimer (app s)"
    using puts_frame by blast
  moreover have "(\<exists>pre e. prefix pre (login_lines c s) \<and> sent s' = sent s @ pre \<and> r = Err e)
        \<or> sent s' = sent s @ login_lines c s @ [agree_line]
           \<and> (\<exists>text s1. reconnect_reads U agwpe_transport why c (session_lost why s) = Some (Ok text, s1)
                \<and> last_agreed_disclaimer (app s) = Some text)"
    using spec(1) puts_sent by blast
  ultimately show ?thesis using h spec(2) by blast
qed

text \<open>
  C23: a request goes out at most twice. A request with automatic reconnect always returns,
  and what it put on the air is one of: nothing, because the operator had already
  disconnected; the request; the request and part of a failed login; the request and a full
  login that ended in an error; the request, a full login and the request once more.
\<close>

theorem request_sent_at_most_twice:
  "\<exists>r s' ys. handle_send_request_with_reconnect U agwpe_transport ss d c s = Some (r, s')
     \<and> sent s' = sent s @ ys
     \<and> (ys = [] \<and> is_aborted s \<and> r = Err DisconnectedByOperator
        \<or> ys = [d]
        \<or> (\<exists>pre e. prefix pre (login_lines c s) \<and> ys = d # pre \<and> r = Err e)
        \<or> (\<exists>e. ys = d # login_lines c s @ [agree_line] \<and> r = Err e)
        \<or> ys = d # login_lines c s @ [agree_line, d])"
proof -
  obtain r s' where h: "handle_send_request_with_reconnect U agwpe_transport ss d c s = Some (r, s')"
    using agw.request_with_reconnect_total [of U ss d c s] by auto
  from agw.request_with_reconnect_puts [OF h]
  consider (quiet) "is_aborted s" "s' = s" "r = Err DisconnectedByOperator"
    | (once) "puts s [d] s'"
    | (login) pre e where "prefix pre (login_lines c s)" "puts s (d # pre) s'" "r = Err e"
    | (agreed) e where "puts s (d # login_lines c s @ [agree_line]) s'" "r = Err e"
    | (twice) "puts s (d # login_lines c s @ [agree_line, d]) s'" by blast
  then show ?thesis
  proof cases
    case quiet
    with h show ?thesis by (metis append_Nil2)
  next
    case once
    with h show ?thesis using puts_sent by blast
  next
    case login
    with h show ?thesis using puts_sent by blast
  next
    case agreed
    with h show ?thesis using puts_sent by blast
  next
    case twice
    with h show ?thesis using puts_sent by blast
  qed
qed

text \<open>
  A request that finds the abort flag set does nothing. Whatever the transport, both
  request operations return \<open>DisconnectedByOperator\<close> with the whole system unchanged: no log
  line, no byte written, no state transition.
\<close>

theorem aborted_request_is_silent:
  assumes "is_aborted s"
  shows "handle_send_request U T ss d s = Some (Err DisconnectedByOperator, s)
     \<and> handle_send_request_with_reconnect U T ss d c s = Some (Err DisconnectedByOperator, s)"
  using assms
  by (simp add: handle_send_request_def handle_send_request_with_reconnect_def sbind_def check_abort_def)

text \<open>A running system for the witnesses: a fresh client whose AGWPE transport is \<open>t\<close>.\<close>

definition sample_system :: "AgwpeTransport \<Rightarrow> asys" where
  "sample_system t =
     \<lparr>app = app_new default_config, log_tx = [], clock = 0, abort_flag = False, presses = [],
      consents = [], sent = [], transport = t\<rparr>"

definition ascii_unicode :: Unicode where
  "ascii_unicode = \<lparr>upper_of = id, escape_of = id\<rparr>"

theorem aborted_request_is_silent_witness:
  "handle_send_request ascii_unicode agwpe_transport (session_new 60) ''GET x''
      (abort (sample_system (agwpe_new [])))
    = Some (Err DisconnectedByOperator, abort (sample_system (agwpe_new [])))"
  using aborted_request_is_silent [of "abort (sample_system (agwpe_new []))" ascii_unicode agwpe_transport
      "session_new 60" "''GET x''" "''K1ABC''"]
  by (simp add: is_aborted_def abort_def)

text \<open>
  C31: what counts as a response. A request over AGWPE always returns, and a buffer it returns
  holds a decodable response header, all the payload bytes that header announces, no
  disconnect notice, and never more than \<open>MAX_RESPONSE_SIZE\<close> bytes.
\<close>

theorem returned_response_is_complete:
  "\<exists>r s'. handle_send_request U agwpe_transport ss d s = Some (r, s')
     \<and> (case r of Inl e \<Rightarrow> True | Inr buf \<Rightarrow> complete_response buf)"
proof -
  obtain r s' where h: "handle_send_request U agwpe_transport ss d s = Some (r, s')"
    using agw.request_total [of U ss d s] by auto
  have "complete_response buf" if "r = Ok buf" for buf
    using h that unfolding handle_send_request_def
    by (auto elim!: sbind_SomeE intro: response_loop_complete)
  with h show ?thesis by (auto split: sum.splits)
qed

end
