(* ===== verification/Manager.thy ===== *)
theory Manager
  imports Session_Driver
begin

text \<open>
  The transport actor of \<open>client/src/transport/manager.rs\<close>: a task that owns the transport and
  serves one command at a time, in the order of the channel.

  A run is given by the calls of the client API with their times. \<open>close_session\<close> and
  \<open>disconnect_modem\<close> store the abort flag before they queue their command, so their times
  are the \<open>presses\<close> of the world; the task sees them while it still serves an earlier command.
\<close>

section \<open>Commands\<close>

datatype TransportCommand =
    ConnectModem TransportConfig
  | DisconnectModem
  | QueryPortsCmd
  | OpenSession bytes nat
  | CloseSession
  | SendRequest bytes
  | SendRequestWithReconnect bytes

datatype Reply = UnitReply "(AgwpeError, unit) result" | BytesReply "(AgwpeError, bytes) result"

section \<open>Handlers\<close>

definition handle_connect_modem :: "'t Transport \<Rightarrow> TransportConfig \<Rightarrow> ('t, unit) act" where
  "handle_connect_modem T cfg =
     sbind (lift_op (t_connect_modem T cfg)) (\<lambda>_.
     pure_act (log_msg Debug ''AGWPE'' (''Connected as '' @ tc_local_callsign cfg)))"

definition handle_disconnect_modem :: "'t Transport \<Rightarrow> ('t, unit) act" where
  "handle_disconnect_modem T =
     sbind (lift_op (t_disconnect_modem T)) (\<lambda>_.
     pure_act (log_msg Info ''AGWPE'' ''Modem disconnected''))"

definition handle_query_ports :: "'t Transport \<Rightarrow> ('t, unit) act" where
  "handle_query_ports T =
     (if \<not> t_port_query_supported T then pure_act id else lift_op (t_query_ports T))"

text \<open>The bookkeeping between \<open>open_session\<close> and the link: state \<open>Connecting\<close>, the port and the
  target.\<close>

definition begin_connecting :: "bytes \<Rightarrow> nat \<Rightarrow> 't Sys \<Rightarrow> 't Sys" where
  "begin_connecting target port_no s =
     (let (entry, a) = set_connection_state (clock s) Connecting (app s);
          a = set_agwpe_port port_no a;
          s = s\<lparr>app := a, log_tx := log_tx s @ [entry]\<rparr>
      in s\<lparr>app := (app s)\<lparr>config := update_target target (config (app s))\<rparr>\<rparr>)"

definition handle_open_session ::
  "Unicode \<Rightarrow> 't Transport \<Rightarrow> bytes \<Rightarrow> nat \<Rightarrow> bytes \<Rightarrow> ('t, unit) act" where
  "handle_open_session U T target port_no callsign s =
     (let s = reset_abort s;
          cfg = \<lparr>sc_local_callsign = callsign, sc_remote_callsign = target,
                 sc_bpq_command = bpq_command (config (app s)),
                 sc_skip_bpq_app = skip_bpq_app (config (app s)), sc_agwpe_port = port_no\<rparr>
      in sbind (lift_op (t_open_session T cfg)) (\<lambda>_.
         sbind (pure_act (begin_connecting target port_no)) (\<lambda>_.
         sbind (ax25_open_and_await_connected T) (\<lambda>_ s.
         (case perform_bpq_handshake U T callsign s of
            None \<Rightarrow> None
          | Some (Inr _, s) \<Rightarrow> Some (Ok (), set_state CsConnected s)
          | Some (Inl e, s) \<Rightarrow>
              let msg = ''BPQ handshake failed: '' @ agwpe_error_to_string e in
              Some (Err (ConnectionFailed msg),
                    set_state (CsError msg) (log_msg Info ''ERROR'' msg s)))))) s)"

definition handle_close_session :: "'t Transport \<Rightarrow> ('t, unit) act" where
  "handle_close_session T s =
     sbind (lift_op (t_close_session T)) (\<lambda>_. pure_act (set_state AgwpeConnected)) (abort s)"

section \<open>The task\<close>

record 't Actor =
  actor_callsign :: bytes
  actor_sys :: "'t Sys"

definition reply_unit ::
  "((AgwpeError, unit) result \<times> 't Sys) option \<Rightarrow> 't Actor \<Rightarrow> (Reply \<times> 't Actor) option" where
  "reply_unit res a = map_option (\<lambda>(r, s). (UnitReply r, a\<lparr>actor_sys := s\<rparr>)) res"

definition reply_bytes ::
  "((AgwpeError, bytes) result \<times> 't Sys) option \<Rightarrow> 't Actor \<Rightarrow> (Reply \<times> 't Actor) option" where
  "reply_bytes res a = map_option (\<lambda>(r, s). (BytesReply r, a\<lparr>actor_sys := s\<rparr>)) res"

fun serve_command ::
  "Unicode \<Rightarrow> 't Transport \<Rightarrow> SessionState \<Rightarrow> TransportCommand \<Rightarrow> 't Actor \<Rightarrow> (Reply \<times> 't Actor) option" where
  "serve_command U T ss (ConnectModem cfg) a =
     (case handle_connect_modem T cfg (reset_abort (actor_sys a)) of
        None \<Rightarrow> None
      | Some (Inr u, s) \<Rightarrow>
          Some (UnitReply (Ok u), a\<lparr>actor_callsign := tc_local_callsign cfg, actor_sys := s\<rparr>)
      | Some (Inl e, s) \<Rightarrow> Some (UnitReply (Err e), a\<lparr>actor_sys := s\<rparr>))"
| "serve_command U T ss DisconnectModem a = reply_unit (handle_disconnect_modem T (actor_sys a)) a"
| "serve_command U T ss QueryPortsCmd a = reply_unit (handle_query_ports T (actor_sys a)) a"
| "serve_command U T ss (OpenSession target port_no) a =
     reply_unit (handle_open_session U T target port_no (actor_callsign a) (actor_sys a)) a"
| "serve_command U T ss CloseSession a = reply_unit (handle_close_session T (actor_sys a)) a"
| "serve_command U T ss (SendRequest d) a =
     reply_bytes (handle_send_request U T ss d (actor_sys a)) a"
| "serve_command U T ss (SendRequestWithReconnect d) a =
     reply_bytes (handle_send_request_with_reconnect U T ss d (actor_callsign a) (actor_sys a)) a"

text \<open>The \<open>while let Some(cmd) = command_rx.recv().await\<close> loop; a command is taken no earlier
  than it was sent.\<close>

fun serve_all ::
  "Unicode \<Rightarrow> 't Transport \<Rightarrow> SessionState \<Rightarrow> (nat \<times> TransportCommand) list \<Rightarrow> 't Actor
     \<Rightarrow> (Reply list \<times> 't Actor) option" where
  "serve_all U T ss [] a =
     Some ([], a\<lparr>actor_sys := log_msg Info ''STATE'' ''Background task shutting down'' (actor_sys a)\<rparr>)"
| "serve_all U T ss ((at, cmd) # calls) a =
     (let s = actor_sys a in
      case serve_command U T ss cmd (a\<lparr>actor_sys := s\<lparr>clock := max (clock s) at\<rparr>\<rparr>) of
        None \<Rightarrow> None
      | Some (reply, a) \<Rightarrow>
          (case serve_all U T ss calls a of
             None \<Rightarrow> None
           | Some (replies, a) \<Rightarrow> Some (reply # replies, a)))"

definition presses_of :: "(nat \<times> TransportCommand) list \<Rightarrow> nat list" where
  "presses_of calls = map fst (filter (\<lambda>(_, cmd). cmd = CloseSession \<or> cmd = DisconnectModem) calls)"

definition background_task ::
  "Unicode \<Rightarrow> 't Transport \<Rightarrow> nat \<Rightarrow> (nat \<times> TransportCommand) list \<Rightarrow> 't Sys
     \<Rightarrow> (Reply list \<times> 't Actor) option" where
  "background_task U T response_timeout calls s =
     serve_all U T (session_new response_timeout) calls
       \<lparr>actor_callsign = [], actor_sys = s\<lparr>abort_flag := False, presses := presses_of calls\<rparr>\<rparr>"

section \<open>Every command is answered\<close>

context draining_transport
begin

lemma open_session_total: "\<exists>res. handle_open_session U T target p c s = Some res"
proof -
  have hs: "\<exists>res. (case perform_bpq_handshake U T c s of None \<Rightarrow> None
      | Some (Inr _, s) \<Rightarrow> Some (Ok (), set_state CsConnected s)
      | Some (Inl e, s) \<Rightarrow>
          let msg = ''BPQ handshake failed: '' @ agwpe_error_to_string e in
          Some (Err (ConnectionFailed msg), set_state (CsError msg) (log_msg Info ''ERROR'' msg s)))
      = Some res" for s :: "'t Sys"
    using handshake_total [of U c s] by (auto simp: Let_def split: sum.splits)
  show ?thesis
    unfolding handle_open_session_def Let_def [of "reset_abort s"] Let_def
    by (intro sbind_total lift_total open_total hs [unfolded Let_def])
qed

lemma handlers_total:
  "\<exists>res. handle_connect_modem T cfg s = Some res"
  "\<exists>res. handle_disconnect_modem T s = Some res"
  "\<exists>res. handle_query_ports T s = Some res"
  "\<exists>res. handle_close_session T s = Some res"
proof -
  show "\<exists>res. handle_connect_modem T cfg s = Some res" "\<exists>res. handle_disconnect_modem T s = Some res"
    "\<exists>res. handle_close_session T s = Some res"
    unfolding handle_connect_modem_def handle_disconnect_modem_def handle_close_session_def
    by (intro sbind_total lift_total)+
  show "\<exists>res. handle_query_ports T s = Some res"
    by (cases "t_port_query_supported T")
      (simp_all only: handle_query_ports_def lift_total simp_thms if_True if_False)
qed

lemma serve_command_total: "\<exists>reply a'. serve_command U T ss cmd a = Some (reply, a')"
proof (cases cmd)
  case (ConnectModem cfg)
  obtain r s where "handle_connect_modem T cfg (reset_abort (actor_sys a)) = Some (r, s)"
    using handlers_total(1) [of cfg "reset_abort (actor_sys a)"] by auto
  with ConnectModem show ?thesis by (cases r) auto
next
  case DisconnectModem
  obtain r s where "handle_disconnect_modem T (actor_sys a) = Some (r, s)"
    using handlers_total(2) [of "actor_sys a"] by auto
  with DisconnectModem show ?thesis by (simp add: reply_unit_def)
next
  case QueryPortsCmd
  obtain r s where "handle_query_ports T (actor_sys a) = Some (r, s)"
    using handlers_total(3) [of "actor_sys a"] by auto
  with QueryPortsCmd show ?thesis by (simp add: reply_unit_def)
next
  case (OpenSession target p)
  then show ?thesis
    using open_session_total [of U target p "actor_callsign a" "actor_sys a"] by (auto simp: reply_unit_def)
next
  case CloseSession
  obtain r s where "handle_close_session T (actor_sys a) = Some (r, s)"
    using handlers_total(4) [of "actor_sys a"] by auto
  with CloseSession show ?thesis by (simp add: reply_unit_def)
next
  case (SendRequest d)
  then show ?thesis using request_total [of U ss d "actor_sys a"] by (auto simp: reply_bytes_def)
next
  case (SendRequestWithReconnect d)
  then show ?thesis
    using request_with_reconnect_total [of U ss d "actor_callsign a" "actor_sys a"]
    by (auto simp: reply_bytes_def)
qed

lemma serve_all_total:
  "\<exists>replies a'. serve_all U T ss calls a = Some (replies, a') \<and> length replies = length calls"
proof (induction calls arbitrary: a)
  case Nil
  show ?case by simp
next
  case (Cons call calls)
  obtain at cmd where c: "call = (at, cmd)" by fastforce
  obtain reply a1 where "serve_command U T ss cmd
      (a\<lparr>actor_sys := (actor_sys a)\<lparr>clock := max (clock (actor_sys a)) at\<rparr>\<rparr>) = Some (reply, a1)"
    using serve_command_total by blast
  with Cons.IH [of a1] c show ?case by auto
qed

end


section \<open>Disconnecting silences the station\<close>

fun reopens :: "TransportCommand \<Rightarrow> bool" where
  "reopens (ConnectModem cfg) = True"
| "reopens (OpenSession target p) = True"
| "reopens _ = False"

fun refused :: "TransportCommand \<Rightarrow> Reply \<Rightarrow> bool" where
  "refused (SendRequest d) r \<longleftrightarrow> r = BytesReply (Err DisconnectedByOperator)"
| "refused (SendRequestWithReconnect d) r \<longleftrightarrow> r = BytesReply (Err DisconnectedByOperator)"
| "refused _ r \<longleftrightarrow> True"

lemma lift_op_Some: "lift_op f s = Some (r, s') \<Longrightarrow> \<exists>r0. f s = (r0, s')"
  by (auto simp: lift_op_def split: prod.splits)

context transport_contract
begin

lemma close_quiet: "handle_close_session T s = Some (r, s') \<Longrightarrow> sent s' = sent s \<and> is_aborted s'"
  by (auto simp: handle_close_session_def elim!: sbind_SomeE dest!: lift_op_Some close_session_quiet)
    (auto simp: quiet_def abort_def is_aborted_def)

lemma disconnect_query_quiet:
  "handle_disconnect_modem T s = Some (r, s') \<Longrightarrow> quiet s s'"
  "handle_query_ports T s = Some (r, s') \<Longrightarrow> quiet s s'"
  by (auto simp: handle_disconnect_modem_def handle_query_ports_def elim!: sbind_SomeE
      dest!: lift_op_Some disconnect_quiet query_quiet split: if_splits)

lemma aborted_command_silent:
  assumes "serve_command U T ss cmd a = Some (reply, a')" and "is_aborted (actor_sys a)" and "\<not> reopens cmd"
  shows "sent (actor_sys a') = sent (actor_sys a) \<and> is_aborted (actor_sys a') \<and> refused cmd reply"
proof -
  have quiet: "sent s' = sent (actor_sys a) \<and> is_aborted s'" if "quiet (actor_sys a) s'" for s'
    using that assms(2) is_aborted_quiet by (auto simp: quiet_def)
  show ?thesis
    using assms
    by (cases cmd) (auto simp: reply_unit_def reply_bytes_def handle_send_request_def
        handle_send_request_with_reconnect_def sbind_def check_abort_def
        dest!: close_quiet disconnect_query_quiet dest: quiet)
qed

lemma aborted_run_silent:
  assumes "serve_all U T ss calls a = Some (replies, a')" and "is_aborted (actor_sys a)"
    and "list_all (\<lambda>(_, cmd). \<not> reopens cmd) calls"
  shows "sent (actor_sys a') = sent (actor_sys a) \<and> list_all2 (\<lambda>(_, cmd). refused cmd) calls replies"
  using assms
proof (induction calls arbitrary: a replies)
  case Nil
  then show ?case by auto
next
  case (Cons call calls)
  obtain at cmd where c: "call = (at, cmd)" by fastforce
  let ?a = "a\<lparr>actor_sys := (actor_sys a)\<lparr>clock := max (clock (actor_sys a)) at\<rparr>\<rparr>"
  obtain reply a1 rs where st: "serve_command U T ss cmd ?a = Some (reply, a1)"
    and rest: "serve_all U T ss calls a1 = Some (rs, a')" "replies = reply # rs"
    using Cons.prems(1) c by (auto simp: Let_def split: option.splits)
  have "is_aborted (actor_sys ?a)" using Cons.prems(2) by (auto simp: is_aborted_def list_ex_iff le_max_iff_disj)
  with aborted_command_silent [OF st] Cons.prems(3) c
  have "sent (actor_sys a1) = sent (actor_sys a)" "is_aborted (actor_sys a1)" "refused cmd reply" by auto
  with Cons.IH [OF rest(1)] Cons.prems(3) rest(2) c show ?case by auto
qed

end

text \<open>
  C30: once the operator has disconnected, the session driver stays off the air. From a state
  with the abort flag set, any further sequence of commands without a new connect or open
  sends no application data at all, and every request in it is answered with
  \<open>DisconnectedByOperator\<close>.
\<close>

theorem disconnected_station_is_silent:
  assumes "is_aborted (actor_sys a)" and "list_all (\<lambda>(_, cmd). \<not> reopens cmd) calls"
  shows "\<exists>replies a'. serve_all U agwpe_transport ss calls a = Some (replies, a')
     \<and> sent (actor_sys a') = sent (actor_sys a)
     \<and> list_all2 (\<lambda>(_, cmd). refused cmd) calls replies"
proof -
  obtain replies a' where run: "serve_all U agwpe_transport ss calls a = Some (replies, a')"
    using agw.serve_all_total [of U ss calls a] by blast
  from agw.aborted_run_silent [OF run assms] run show ?thesis by blast
qed

theorem disconnected_station_is_silent_witness:
  "\<exists>replies a'. serve_all ascii_unicode agwpe_transport (session_new 60)
        [(5, CloseSession), (6, SendRequest ''GET x''), (9, QueryPortsCmd)]
        \<lparr>actor_callsign = ''K1ABC'', actor_sys = abort (sample_system (sample_link []))\<rparr> = Some (replies, a')
     \<and> sent (actor_sys a') = []"
  using disconnected_station_is_silent [of "\<lparr>actor_callsign = ''K1ABC'', actor_sys = abort (sample_system (sample_link []))\<rparr>"
      "[(5, CloseSession), (6, SendRequest ''GET x''), (9, QueryPortsCmd)]" ascii_unicode "session_new 60"]
  by (auto simp: is_aborted_def abort_def sample_system_def)

end
