(* ===== verification/Delivery.thy ===== *)
theory Delivery
  imports Manager
begin

text \<open>
  What the client components achieve together when the other side behaves: a response that
  the server encoded, that LinBPQ cut into AX.25 frames and that TCP cut into segments is
  returned by the session driver and decodes to what was encoded; and a session with an
  honest server opens once the operator consents.
\<close>

section \<open>Single steps\<close>

lemma recv_loop_done:
  "sys_recv T (clock s + secs * 1000) s = (ev, s1) \<Longrightarrow> body ev acc s1 = Inl res
     \<Longrightarrow> recv_loop T secs body acc s = Some res"
  by (subst recv_loop.simps) simp

lemma recv_loop_again:
  "sys_recv T (clock s + secs * 1000) s = (ev, s1) \<Longrightarrow> body ev acc s1 = Inr (acc', s2)
     \<Longrightarrow> recv_loop T secs body acc s = recv_loop T secs body acc' s2"
  by (subst recv_loop.simps) simp

lemma agw_recv_step:
  assumes "delivers b (transport s) (frame_encode f @ rest) tail" and "frame_ok f"
    and "b \<le> dl" and "clock s < b"
  shows "\<exists>t' now'. sys_recv agwpe_transport dl s =
      (Ok (frame_event f), s\<lparr>transport := t', clock := now'\<rparr>)
     \<and> delivers b t' rest tail \<and> clock s \<le> now' \<and> now' < b \<and> same_link (transport s) t'"
  using recv_delivers [OF assms]
  by (elim exE conjE, intro exI conjI) (simp_all add: sys_recv_def agwpe_transport_def)

lemma dead_sublist: "is_session_dead_payload d \<Longrightarrow> sublist d e \<Longrightarrow> is_session_dead_payload e"
proof -
  have "contains_slice d n \<Longrightarrow> sublist d e \<Longrightarrow> contains_slice e n" for n
    using sublist_order.order_trans [of n d e] find_sub_None_iff [of n d] find_sub_None_iff [of n e]
      sublist_length_le [of n e]
    by (auto simp: contains_slice_def split: if_splits)
  then show "is_session_dead_payload d \<Longrightarrow> sublist d e \<Longrightarrow> is_session_dead_payload e"
    by (auto simp: is_session_dead_payload_def)
qed

section \<open>One response\<close>

text \<open>\<open>good_stream\<close>: banner text without the magic word, then one encoded response, within the
  driver's limits and free of disconnect notices.\<close>

definition good_stream :: "(bytes \<Rightarrow> bytes) \<Rightarrow> Response \<Rightarrow> bytes \<Rightarrow> bool" where
  "good_stream enc r pre \<longleftrightarrow>
     well_formed enc r \<and> \<not> sublist MAGIC pre \<and> length pre + 4 \<le> 32 * 1024
     \<and> length (pre @ response_encode enc r) \<le> MAX_RESPONSE_SIZE
     \<and> \<not> is_session_dead_payload (pre @ response_encode enc r)"

abbreviation header_at :: "(bytes \<Rightarrow> bytes) \<Rightarrow> Response \<Rightarrow> bytes \<Rightarrow> nat" where
  "header_at enc r pre \<equiv> length pre + header_size enc r"

definition acc_at :: "(bytes \<Rightarrow> bytes) \<Rightarrow> Response \<Rightarrow> bytes \<Rightarrow> RespAcc \<Rightarrow> bool" where
  "acc_at enc r pre acc \<longleftrightarrow>
     (if length (response_data acc) < header_at enc r pre then expected_len acc = None
      else expected_len acc = Some (length (enc (payload r))) \<and> frame_start acc = header_at enc r pre)"

lemma payload_slice:
  assumes "prefix buf (pre @ response_encode enc r)"
    and "header_at enc r pre + length (enc (payload r)) \<le> length buf"
  shows "take (length (enc (payload r))) (drop (header_at enc r pre) buf) = enc (payload r)"
proof -
  define h where "h = pre @ MAGIC @ status_digit (status r) # CHR '' '' # header_line enc r @ [LF]"
  have h: "pre @ response_encode enc r = h @ enc (payload r) @ [LF]" "length h = header_at enc r pre"
    by (simp_all add: h_def response_encode_shape header_size_def)
  obtain zs where zs: "h @ enc (payload r) @ [LF] = buf @ zs"
    using assms(1) by (auto simp: prefix_def h(1))
  have "drop (length h) buf @ zs = drop (length h) (buf @ zs)" using assms(2) h(2) by simp
  also have "\<dots> = enc (payload r) @ [LF]" using zs [symmetric] by simp
  finally have "take (length (enc (payload r))) (drop (length h) buf @ zs) = enc (payload r)" by simp
  then show ?thesis using assms(2) by (simp add: h(2))
qed

lemma magic_seen:
  assumes "prefix rd (pre @ response_encode enc r)" and "find_sub MAGIC rd = None"
  shows "length rd < length pre + 4"
proof (rule ccontr)
  assume "\<not> length rd < length pre + 4"
  moreover have "prefix (pre @ MAGIC) (pre @ response_encode enc r)"
    by (simp add: response_encode_shape)
  ultimately have "prefix (pre @ MAGIC) rd" using assms(1)
    by (metis (no_types, lifting) length_MAGIC length_append linorder_not_less prefix_length_prefix)
  then have "sublist MAGIC rd" by (auto simp: prefix_def)
  with assms(2) show False by (simp add: find_sub_None_iff)
qed

lemma find_header_step:
  assumes "good_stream enc r pre" and "prefix (response_data acc) (pre @ response_encode enc r)"
    and "expected_len acc = None \<or> acc_at enc r pre acc"
    and "expected_len acc \<noteq> None \<Longrightarrow> header_at enc r pre \<le> length (response_data acc)"
  shows "\<exists>acc' s'. find_header U acc s = (Ok acc', s') \<and> acc_at enc r pre acc'
     \<and> response_data acc' = response_data acc \<and> quiet s s' \<and> transport s' = transport s
     \<and> clock s' = clock s"
proof (cases "expected_len acc")
  case (Some n)
  then have "acc_at enc r pre acc" using assms(3) by auto
  with Some show ?thesis by (simp add: find_header_def)
next
  case None
  let ?k = "length (response_data acc)"
  have tk: "response_data acc = take ?k (pre @ response_encode enc r @ [])"
    using assms(2) by (metis append_Nil2 append_eq_conv_conj prefix_def)
  have "decode_header (response_data acc) =
      (if ?k < header_at enc r pre then Ok None
       else Ok (Some (status r, length (enc (payload r)), etag r, max_age r, header_at enc r pre)))"
    using decode_header_prefix [of enc r pre ?k "[]"] assms(1) tk by (simp add: good_stream_def)
  moreover have "\<not> (find_sub MAGIC (response_data acc) = None \<and> 32 * 1024 < ?k)"
    using magic_seen [OF assms(2)] assms(1) by (auto simp: good_stream_def)
  ultimately show ?thesis
    using None
    by (cases "?k < header_at enc r pre") (auto simp: find_header_def Let_def acc_at_def)
qed

lemma response_step:
  assumes good: "good_stream enc r pre" and "prefix (response_data acc @ bs) (pre @ response_encode enc r)"
    and "acc_at enc r pre acc" and "\<not> is_aborted s"
  defines "rd \<equiv> response_data acc @ bs" and "n \<equiv> header_at enc r pre + length (enc (payload r))"
  shows "\<exists>s2. quiet s s2 \<and> transport s2 = transport s \<and> clock s2 = clock s \<and>
     (if n \<le> length rd then response_data_step U bs acc s = Inl (Ok rd, s2)
      else \<exists>acc'. response_data_step U bs acc s = Inr (acc', s2) \<and> acc_at enc r pre acc'
             \<and> response_data acc' = rd)"
proof -
  let ?acc = "acc\<lparr>response_data := rd\<rparr>"
  let ?s = "log_dir Rx Trace ''PROTOCOL'' (''Received '' @ nat_to_string (length bs)
              @ '' bytes (total: '' @ nat_to_string (length rd) @ '')'') s"
  have p: "prefix (response_data ?acc) (pre @ response_encode enc r)" using assms(2) by (simp add: rd_def)
  have old: "expected_len ?acc = None \<or> acc_at enc r pre ?acc"
    "expected_len ?acc \<noteq> None \<Longrightarrow> header_at enc r pre \<le> length (response_data ?acc)"
    using assms(3) by (auto simp: acc_at_def rd_def split: if_splits)
  obtain acc' s' where fh: "find_header U ?acc ?s = (Ok acc', s')" "acc_at enc r pre acc'"
      "response_data acc' = rd" "quiet ?s s'" "transport s' = transport ?s" "clock s' = clock ?s"
    using find_header_step [OF good p old, of U ?s] by auto
  have small: "\<not> MAX_RESPONSE_SIZE < length (response_data acc) + length bs"
    using good prefix_length_le [OF assms(2)] by (simp add: good_stream_def)
  have alive: "\<not> is_session_dead_payload rd"
    using good dead_sublist [of rd "pre @ response_encode enc r"] p
    by (auto simp: good_stream_def rd_def)
  have step: "response_data_step U bs acc s =
      (case expected_len acc' of
         Some len \<Rightarrow> if frame_start acc' + len \<le> length rd
           then Inl (Ok rd, log_msg Debug ''PROTOCOL'' (''Response complete: '' @ nat_to_string (length rd) @ '' bytes'') s')
           else Inr (acc', s')
       | None \<Rightarrow> Inr (acc', s'))"
    using small alive assms(4) fh(1) unfolding rd_def by (simp add: response_data_step_def Let_def)
  show ?thesis
  proof (cases "n \<le> length rd")
    case True
    then have "expected_len acc' = Some (length (enc (payload r)))" "frame_start acc' = header_at enc r pre"
      using fh(2,3) by (auto simp: acc_at_def n_def split: if_splits)
    with True step fh show ?thesis by (auto simp: n_def)
  next
    case False
    then have "response_data_step U bs acc s = Inr (acc', s')"
      using step fh(2,3) by (auto simp: acc_at_def n_def split: if_splits)
    with False fh show ?thesis by auto
  qed
qed

lemma not_aborted:
  "\<not> abort_flag s \<Longrightarrow> list_all (\<lambda>p. b \<le> p) (presses s) \<Longrightarrow> clock s < b \<Longrightarrow> \<not> is_aborted s"
  by (fastforce simp: is_aborted_def list_ex_iff list_all_iff)

lemma response_loop_delivers:
  assumes good: "good_stream enc r pre"
    and "list_all (\<lambda>f. frame_ok f \<and> frame_type f = SendData) fs"
    and "response_data acc @ concat (map frame_data fs) = pre @ response_encode enc r"
    and "acc_at enc r pre acc"
    and "length (response_data acc) < header_at enc r pre + length (enc (payload r))"
    and "delivers b (transport s) (concat (map frame_encode fs) @ rest) tail"
    and "clock s < b" and "b \<le> clock s + secs * 1000"
    and "\<not> abort_flag s" and "list_all (\<lambda>p. b \<le> p) (presses s)"
  shows "\<exists>buf s'. recv_loop agwpe_transport secs (response_body U secs) acc s = Some (Ok buf, s')
     \<and> prefix buf (pre @ response_encode enc r)
     \<and> header_at enc r pre + length (enc (payload r)) \<le> length buf"
  using assms(2-)
proof (induction fs arbitrary: acc s)
  case Nil
  then have "length (response_data acc) = length (pre @ response_encode enc r)" by simp
  with Nil.prems(4) show ?case by (simp add: response_encode_shape header_size_def)
next
  case (Cons f fs)
  let ?rd = "response_data acc @ frame_data f"
  have p: "prefix ?rd (pre @ response_encode enc r)"
    using Cons.prems(2) by (metis append.assoc concat.simps(2) list.map(2) prefixI)
  have "\<not> is_session_dead_payload (frame_data f)"
    using good p dead_sublist [of "frame_data f" ?rd] dead_sublist [of ?rd "pre @ response_encode enc r"]
    by (auto simp: good_stream_def)
  then have ev: "frame_event f = Data (frame_data f)" using Cons.prems(1) by (simp add: frame_event_def)
  obtain t' now' where rc: "sys_recv agwpe_transport (clock s + secs * 1000) s =
        (Ok (frame_event f), s\<lparr>transport := t', clock := now'\<rparr>)"
    and t': "delivers b t' (concat (map frame_encode fs) @ rest) tail" "clock s \<le> now'" "now' < b"
    using agw_recv_step [of b s f "concat (map frame_encode fs) @ rest" tail "clock s + secs * 1000"] Cons.prems
    by auto
  let ?s1 = "s\<lparr>transport := t', clock := now'\<rparr>"
  have na: "\<not> is_aborted ?s1" using not_aborted [of ?s1 b] Cons.prems t' by simp
  obtain s2 where s2: "quiet ?s1 s2" "transport s2 = t'" "clock s2 = now'"
    and st: "if header_at enc r pre + length (enc (payload r)) \<le> length ?rd
        then response_data_step U (frame_data f) acc ?s1 = Inl (Ok ?rd, s2)
        else \<exists>acc'. response_data_step U (frame_data f) acc ?s1 = Inr (acc', s2)
               \<and> acc_at enc r pre acc' \<and> response_data acc' = ?rd"
    using response_step [OF good p Cons.prems(3) na, of U] by auto
  show ?case
  proof (cases "header_at enc r pre + length (enc (payload r)) \<le> length ?rd")
    case True
    then have "recv_loop agwpe_transport secs (response_body U secs) acc s = Some (Ok ?rd, s2)"
      using st ev recv_loop_done [OF rc, of "response_body U secs"] by (simp add: response_body_def)
    with True p show ?thesis by blast
  next
    case False
    then obtain acc' where acc': "response_data_step U (frame_data f) acc ?s1 = Inr (acc', s2)"
        "acc_at enc r pre acc'" "response_data acc' = ?rd" using st by auto
    then have loop: "recv_loop agwpe_transport secs (response_body U secs) acc s
        = recv_loop agwpe_transport secs (response_body U secs) acc' s2"
      using ev recv_loop_again [OF rc, of "response_body U secs"] by (simp add: response_body_def)
    have q: "\<not> abort_flag s2" "list_all (\<lambda>p. b \<le> p) (presses s2)"
      using s2(1) Cons.prems by (auto simp: quiet_def)
    show ?thesis unfolding loop
      by (rule Cons.IH) (use Cons.prems acc' s2 t' q False in auto)
  qed
qed

lemma agwpe_send_delivers:
  assumes "delivers b (transport s) bs tail"
  shows "\<exists>t'. sys_send agwpe_transport d s = (Ok (), s\<lparr>transport := t', sent := sent s @ [d]\<rparr>)
     \<and> delivers b t' bs tail \<and> same_link (transport s) t'"
proof -
  let ?t = "transport s"
  obtain st segs where st: "stream ?t = Some st" "rx st = segments segs @ tail" "timely b segs"
      "wr_results st = []" "read_buf ?t @ concat (map snd segs) = bs"
    using assms by (auto simp: delivers_def)
  let ?t' = "?t\<lparr>stream := Some (st\<lparr>written := written st @ concat (map (\<lambda>c. frame_encode (data_frame ?t c)) (chunks 256 d))\<rparr>)\<rparr>"
  have "sys_send agwpe_transport d s = (Ok (), s\<lparr>transport := ?t', sent := sent s @ [d]\<rparr>)"
    using send_chunks_ok [OF st(1,4), of "chunks 256 d"] st(1)
    by (simp add: sys_send_def agwpe_transport_def agwpe_send_def)
  moreover have "delivers b ?t' bs tail" using st by (auto simp: delivers_def)
  moreover have "same_link ?t ?t'" by (simp add: same_link_def)
  ultimately show ?thesis by blast
qed

lemma client_decodes:
  assumes "base64_codec enc dec" and "good_stream enc r pre"
    and "list_all (\<lambda>f. frame_ok f \<and> frame_type f = SendData) fs"
    and "concat (map frame_data fs) = pre @ response_encode enc r"
    and "delivers (clock s + ss_response_timeout_secs (session_new n) * 1000) (transport s)
           (concat (map frame_encode fs) @ rest) tail"
    and "\<not> abort_flag s"
    and "list_all (\<lambda>p. clock s + ss_response_timeout_secs (session_new n) * 1000 \<le> p) (presses s)"
  shows "\<exists>buf s' len he. handle_send_request U agwpe_transport (session_new n) d s = Some (Ok buf, s')
     \<and> decode_header buf = Ok (Some (status r, len, etag r, max_age r, he))
     \<and> he + len \<le> length buf \<and> decode_payload dec (take len (drop he buf)) = Ok (payload r)"
proof -
  let ?secs = "ss_response_timeout_secs (session_new n)"
  let ?b = "clock s + ?secs * 1000"
  have secs: "0 < ?secs" by (simp add: session_new_def)
  let ?s1 = "log_dir Tx Debug ''PROTOCOL'' (''Sending '' @ nat_to_string (length d) @ '' bytes'') s"
  obtain t' where snd: "sys_send agwpe_transport d ?s1 =
        (Ok (), ?s1\<lparr>transport := t', sent := sent ?s1 @ [d]\<rparr>)"
    and t': "delivers ?b t' (concat (map frame_encode fs) @ rest) tail"
    using agwpe_send_delivers [of ?b ?s1 _ tail d] assms(5) by auto
  let ?s2 = "log_dir Rx Debug ''PROTOCOL'' ''Waiting for response...'' (?s1\<lparr>transport := t', sent := sent ?s1 @ [d]\<rparr>)"
  have na: "\<not> is_aborted s" using not_aborted [of s ?b] assms(6,7) secs by simp
  have run: "handle_send_request U agwpe_transport (session_new n) d s =
      recv_loop agwpe_transport ?secs (response_body U ?secs) empty_acc ?s2"
    using na snd
    by (simp add: handle_send_request_def sbind_def check_abort_def pure_act_def lift_op_def)
  have len0: "0 < header_at enc r pre" by (simp add: header_size_def)
  obtain buf s' where buf: "handle_send_request U agwpe_transport (session_new n) d s = Some (Ok buf, s')"
      "prefix buf (pre @ response_encode enc r)"
      "header_at enc r pre + length (enc (payload r)) \<le> length buf"
    using response_loop_delivers [OF assms(2,3), of empty_acc ?b ?s2 rest tail ?secs U]
      assms(4,6,7) t' secs len0 unfolding run
    by (auto simp: empty_acc_def acc_at_def)
  have tk: "buf = take (length buf) (pre @ response_encode enc r @ [])"
    using buf(2) by (metis append_Nil2 append_eq_conv_conj prefix_def)
  then have dh: "decode_header buf = Ok (Some (status r, length (enc (payload r)), etag r, max_age r,
      header_at enc r pre))"
    using decode_header_prefix [of enc r pre "length buf" "[]"] assms(2) buf(3)
    by (simp add: good_stream_def)
  have "take (length (enc (payload r))) (drop (header_at enc r pre) buf) = enc (payload r)"
    using buf(2,3) by (rule payload_slice)
  then have "decode_payload dec (take (length (enc (payload r))) (drop (header_at enc r pre) buf)) = Ok (payload r)"
    using base64_codec.dec_enc [OF assms(1)] by (simp add: decode_payload_def)
  with buf dh show ?thesis by blast
qed

text \<open>
  C1: a response arrives as it was sent. The server encodes any response; LinBPQ may put
  banner text in front and cuts the whole into AGWPE data frames at arbitrary places; TCP cuts
  those again; everything arrives within the response timeout and the operator does not
  disconnect. Then the request returns, and the header decoded from the returned buffer and
  the base64 payload behind it give back the status, the etag, the maximum age and the
  payload that the server encoded.
\<close>

theorem response_delivered:
  assumes "base64_codec enc dec" and "good_stream enc r pre"
    and "list_all (\<lambda>f. frame_ok f \<and> frame_type f = SendData) fs"
    and "concat (map frame_data fs) = pre @ response_encode enc r"
    and "delivers (clock s + ss_response_timeout_secs (session_new n) * 1000) (transport s)
           (concat (map frame_encode fs) @ rest) tail"
    and "\<not> abort_flag s"
    and "list_all (\<lambda>p. clock s + ss_response_timeout_secs (session_new n) * 1000 \<le> p) (presses s)"
  shows "\<exists>buf s' len he. handle_send_request U agwpe_transport (session_new n) d s = Some (Ok buf, s')
     \<and> decode_header buf = Ok (Some (status r, len, etag r, max_age r, he))
     \<and> he + len \<le> length buf \<and> decode_payload dec (take len (drop he buf)) = Ok (payload r)"
  using client_decodes [OF assms] .

definition sample_response :: Response where
  "sample_response = \<lparr>status = StatusOk, etag = ''-'', max_age = 60, payload = ''hi''\<rparr>"

definition sample_stream :: "AgwpeFrame list" where
  "sample_stream =
     (let bs = ''> '' @ response_encode b64_encode sample_response
      in map (frame_new (CHR 0x00) SendData ''N0CALL'' ''K1ABC-1'') [take 7 bs, drop 7 bs])"

lemma sample_response_bytes:
  "response_encode b64_encode sample_response = ''RESP0 4 - 60'' @ [LF] @ ''aGk='' @ [LF]"
  by code_simp

lemma sample_stream_good: "good_stream b64_encode sample_response ''> ''"
  unfolding good_stream_def sample_response_bytes
  by (simp add: well_formed_def valid_etag_def sample_response_def MAGIC_def sublist_code
      MAX_RESPONSE_SIZE_def is_session_dead_payload_def contains_slice_def LF_def)

lemma sample_stream_frames:
  "list_all (\<lambda>f. frame_ok f \<and> frame_type f = SendData) sample_stream"
  "concat (map frame_data sample_stream) = ''> '' @ response_encode b64_encode sample_response"
  "20 < length (concat (map frame_encode sample_stream) @ [])"
  by (simp_all add: sample_stream_def sample_response_bytes Let_def frame_ok_def frame_new_def
      callsign_fits_def ascii_class_defs MAX_FRAME_DATA_SIZE_def LF_def)

theorem response_delivered_witness:
  "\<exists>buf s' len he. handle_send_request ascii_unicode agwpe_transport (session_new 60) ''GET x''
        (sample_system (sample_link (concat (map frame_encode sample_stream) @ []))) = Some (Ok buf, s')
     \<and> decode_header buf = Ok (Some (StatusOk, len, ''-'', 60, he))
     \<and> he + len \<le> length buf \<and> decode_payload b64_decode (take len (drop he buf)) = Ok ''hi''"
proof -
  let ?s = "sample_system (sample_link (concat (map frame_encode sample_stream) @ []))"
  have d: "delivers (clock ?s + ss_response_timeout_secs (session_new 60) * 1000) (transport ?s)
      (concat (map frame_encode sample_stream) @ []) []"
    using delivers_later [OF sample_link_delivers [OF sample_stream_frames(3)]]
    by (simp add: sample_system_def session_new_def)
  show ?thesis
    using response_delivered [OF rfc4648.base64_codec_axioms sample_stream_good
        sample_stream_frames(1,2) d, of ascii_unicode "''GET x''"]
    by (simp add: sample_system_def sample_response_def)
qed

section \<open>Opening a session\<close>

text \<open>\<open>live b s bs tail\<close>: the bytes \<open>bs\<close> come in before \<open>b\<close>, which is within every 30-second wait
  that starts from now on.\<close>

definition live :: "nat \<Rightarrow> asys \<Rightarrow> bytes \<Rightarrow> (nat \<times> rx_event) list \<Rightarrow> bool" where
  "live b s bs tail \<longleftrightarrow> delivers b (transport s) bs tail \<and> clock s < b \<and> b \<le> clock s + 30 * 1000"

lemma live_log [simp]:
  "live b (log_msg l c m s) bs tail = live b s bs tail" "live b (log_dir d l c m s) bs tail = live b s bs tail"
  "live b (set_state cs s) bs tail = live b s bs tail"
  "live b (agw_log l c m s) bs tail = live b s bs tail" "live b (agw_log_dir d l c m s) bs tail = live b s bs tail"
  by (simp_all add: live_def)

lemma live_recv:
  assumes "live b s (frame_encode f @ bs) tail" and "frame_ok f"
  shows "\<exists>s1. sys_recv agwpe_transport (clock s + 30 * 1000) s = (Ok (frame_event f), s1)
     \<and> live b s1 bs tail \<and> quiet s s1"
proof -
  obtain t' now' where "sys_recv agwpe_transport (clock s + 30 * 1000) s =
        (Ok (frame_event f), s\<lparr>transport := t', clock := now'\<rparr>)"
      "delivers b t' bs tail" "clock s \<le> now'" "now' < b"
    using agw_recv_step [of b s f bs tail "clock s + 30 * 1000"] assms by (auto simp: live_def)
  with assms(1) show ?thesis
    by (intro exI [of _ "s\<lparr>transport := t', clock := now'\<rparr>"]) (auto simp: live_def quiet_def)
qed

lemma live_send:
  assumes "live b s bs tail"
  shows "\<exists>s1. lift_op (sys_send agwpe_transport d) s = Some (Ok (), s1) \<and> live b s1 bs tail \<and> puts s [d] s1
     \<and> connection_state (app s1) = connection_state (app s)"
proof -
  obtain t' where snd: "sys_send agwpe_transport d s = (Ok (), s\<lparr>transport := t', sent := sent s @ [d]\<rparr>)"
      "delivers b t' bs tail"
    using agwpe_send_delivers [of b s bs tail d] assms by (auto simp: live_def)
  let ?s1 = "s\<lparr>transport := t', sent := sent s @ [d]\<rparr>"
  have l: "lift_op (sys_send agwpe_transport d) s = Some (Ok (), ?s1)" using snd by (simp add: lift_op_def)
  show ?thesis
    using send_puts [OF l] l assms snd(2) by (intro exI [of _ ?s1]) (simp add: live_def)
qed

lemma live_send_frame:
  assumes "live b s bs tail"
  shows "\<exists>s1. on_transport (send_frame_internal f) s = (Ok (), s1) \<and> live b s1 bs tail \<and> quiet s s1"
proof -
  obtain st segs where st: "stream (transport s) = Some st" "rx st = segments segs @ tail" "timely b segs"
      "wr_results st = []" "read_buf (transport s) @ concat (map snd segs) = bs"
    using assms by (auto simp: live_def delivers_def)
  let ?t = "(transport s)\<lparr>stream := Some (st\<lparr>written := written st @ frame_encode f\<rparr>)\<rparr>"
  have "on_transport (send_frame_internal f) s = (Ok (), s\<lparr>transport := ?t\<rparr>)"
    using st by (simp add: on_transport_def send_frame_internal_def write_stream_def tcp_write_def)
  moreover have "delivers b ?t bs tail" using st by (auto simp: delivers_def)
  ultimately show ?thesis using assms by (auto simp: live_def quiet_def)
qed

lemma link_opens:
  assumes "live b s (frame_encode f @ bs) tail" and "frame_ok f" and "frame_type f = Connected"
  shows "\<exists>s1. ax25_open_and_await_connected agwpe_transport s = Some (Ok (), s1)
     \<and> live b s1 bs tail \<and> quiet s s1"
proof -
  let ?t = "transport s"
  let ?s0 = "agw_log_dir Tx Info ''PROTOCOL'' (''AX.25 connect to '' @ remote_callsign ?t @ '' on port ''
         @ nat_to_string (byte_val (link_port ?t))) s"
  obtain s1 where s1: "on_transport (send_frame_internal
        (frame_new (link_port ?t) Connect (local_callsign ?t) (remote_callsign ?t) [])) ?s0 = (Ok (), s1)"
      "live b s1 (frame_encode f @ bs) tail" "quiet ?s0 s1"
    using live_send_frame [of b ?s0] assms(1) by (metis live_log(5))
  obtain t' now' where rd: "read_frame_from_stream (clock s1 + 30 * 1000) (transport s1) (clock s1) = (Ok f, t', now')"
      "delivers b t' bs tail" "now' < b"
    using read_frame_reassembles [of b "transport s1" f bs tail "clock s1 + 30 * 1000" "clock s1"] s1(2) assms(2)
    by (auto simp: live_def)
  let ?s2 = "s1\<lparr>transport := t', clock := now'\<rparr>"
  have now': "clock s1 \<le> now'" using read_frame_rank [OF rd(1)] by simp
  have conn: "is_connected ?t" using assms(1) by (auto simp: live_def delivers_def is_connected_def)
  let ?s3 = "agw_log_dir Rx Info ''PROTOCOL'' (''AX.25 connected (AGWPE '' @ [CHR 0x27] @ ''c'' @ [CHR 0x27] @ '')'') ?s2"
  have oc: "on_clock (read_frame_with_timeout_deadline (clock s1 + 30 * 1000)) s1 = (Ok f, ?s2)"
    using rd(1) by (simp add: on_clock_def read_frame_with_timeout_deadline_def)
  have "await_link (clock s1 + 30 * 1000) s1 = (Ok (), ?s3)"
    by (subst await_link.simps) (simp only: oc assms(3) prod.case sum.case simp_thms if_True)
  then have "agwpe_open_ax25_link s = (Ok (), ?s3)"
    using conn s1(1) by (simp add: agwpe_open_ax25_link_def Let_def)
  then have "ax25_open_and_await_connected agwpe_transport s =
      Some (Ok (), log_dir Rx Info ''PROTOCOL'' ''AX.25 link open confirmed'' ?s3)"
    by (simp add: ax25_open_and_await_connected_def sbind_def lift_op_def agwpe_transport_def pure_act_def)
  moreover have "live b ?s2 bs tail" using rd now' s1(2) by (auto simp: live_def)
  moreover have "quiet s s1" using s1(3) by simp
  then have "quiet s ?s2" using now' by (auto simp: quiet_def)
  ultimately show ?thesis by auto
qed

text \<open>A data frame whose text makes the handshake go on.\<close>

definition prompt_frame :: "AgwpeFrame \<Rightarrow> bytes \<Rightarrow> bool" where
  "prompt_frame f d \<longleftrightarrow>
     frame_ok f \<and> frame_type f = SendData \<and> frame_data f = d \<and> \<not> is_session_dead_payload d
     \<and> length (from_utf8_lossy d) \<le> MAX_HANDSHAKE_TEXT"

lemma callsign_stage:
  assumes "live b s (frame_encode f @ bs) tail" and "prompt_frame f d"
    and "contains_str (from_utf8_lossy d) ''callsign''"
  shows "\<exists>s1. bpq_await_callsign_prompt_and_send_callsign U agwpe_transport c s = Some (Ok (), s1)
     \<and> live b s1 bs tail \<and> puts s [c @ [LF]] s1"
proof -
  let ?s0 = "log_dir Rx Debug ''BPQ'' ''Waiting for callsign prompt...'' s"
  obtain s1 where s1: "sys_recv agwpe_transport (clock ?s0 + 30 * 1000) ?s0 = (Ok (Data d), s1)"
      "live b s1 bs tail" "quiet ?s0 s1"
    using live_recv [of b ?s0 f bs tail] assms(1,2)
    by (auto simp: prompt_frame_def frame_event_def)
  have "callsign_prompt_body (Ok (Data d)) [] s1 = Inl (Ok (), s1)"
    using assms(2,3) by (simp add: callsign_prompt_body_def prompt_frame_def)
  then have loop: "recv_loop agwpe_transport 30 callsign_prompt_body [] ?s0 = Some (Ok (), s1)"
    using recv_loop_done [OF s1(1), of callsign_prompt_body] by simp
  let ?s2 = "log_dir Tx Debug ''BPQ'' (''Sending callsign: '' @ str_debug U (c @ [LF])) s1"
  obtain s3 where s3: "lift_op (sys_send agwpe_transport (c @ [LF])) ?s2 = Some (Ok (), s3)"
      "live b s3 bs tail" "puts ?s2 [c @ [LF]] s3"
    using live_send [of b ?s2 bs tail "c @ [LF]"] s1(2) by auto
  have "bpq_await_callsign_prompt_and_send_callsign U agwpe_transport c s = Some (Ok (), s3)"
    using s3(1) by (simp add: bpq_await_callsign_prompt_and_send_callsign_def sbind_def pure_act_def loop Let_def)
  with s3(2,3) s1(3) show ?thesis by (auto intro: quiet_puts)
qed

lemma disclaimer_stage:
  assumes "live b s (frame_encode f @ bs) tail" and "prompt_frame f d"
    and "contains_str (to_uppercase (upper_of U) (from_utf8_lossy d)) ''AGREE''"
  shows "\<exists>s1. bpq_await_disclaimer U agwpe_transport s = Some (Ok (from_utf8_lossy d), s1)
     \<and> live b s1 bs tail \<and> quiet s s1"
proof -
  let ?s0 = "log_dir Rx Debug ''BPQ'' ''Waiting for AGREE prompt...'' s"
  obtain s1 where s1: "sys_recv agwpe_transport (clock ?s0 + 30 * 1000) ?s0 = (Ok (Data d), s1)"
      "live b s1 bs tail" "quiet ?s0 s1"
    using live_recv [of b ?s0 f bs tail] assms(1,2)
    by (auto simp: prompt_frame_def frame_event_def)
  let ?s2 = "log_dir Rx Trace ''BPQ'' (''Received text: '' @ str_debug U (from_utf8_lossy d)) s1"
  have "disclaimer_body U (Ok (Data d)) [] s1 = Inl (Ok (from_utf8_lossy d), ?s2)"
    using assms(2,3) by (simp add: disclaimer_body_def prompt_frame_def Let_def)
  then have "recv_loop agwpe_transport 30 (disclaimer_body U) [] ?s0 = Some (Ok (from_utf8_lossy d), ?s2)"
    using recv_loop_done [OF s1(1), of "disclaimer_body U"] by simp
  then have "bpq_await_disclaimer U agwpe_transport s = Some (Ok (from_utf8_lossy d), ?s2)"
    by (simp add: bpq_await_disclaimer_def sbind_def pure_act_def)
  with s1 show ?thesis by auto
qed

lemma login_stage:
  assumes "live b s (frame_encode f @ bs) tail" and "prompt_frame f d"
    and "contains_str (from_utf8_lossy d) ''callsign''"
  shows "\<exists>s1. sbind (if skip_bpq_app (config (app s)) then
          pure_act (log_msg Info ''BPQ'' ''Skipping BPQ application command (direct connection mode)'')
        else bpq_send_app_command U agwpe_transport)
      (\<lambda>_. bpq_await_callsign_prompt_and_send_callsign U agwpe_transport c) s = Some (Ok (), s1)
     \<and> live b s1 bs tail \<and> puts s (login_lines c s) s1"
proof -
  let ?cmd = "if skip_bpq_app (config (app s)) then
       pure_act (log_msg Info ''BPQ'' ''Skipping BPQ application command (direct connection mode)'')
     else bpq_send_app_command U agwpe_transport"
  let ?pre = "if skip_bpq_app (config (app s)) then [] else [bpq_command (config (app s)) @ [LF]]"
  have "\<exists>s1. ?cmd s = Some (Ok (), s1) \<and> live b s1 (frame_encode f @ bs) tail \<and> puts s ?pre s1"
  proof (cases "skip_bpq_app (config (app s))")
    case True
    then show ?thesis using assms(1) by (simp add: pure_act_def puts_Nil)
  next
    case False
    let ?s0 = "log_dir Tx Debug ''BPQ'' (''Sending BPQ command: '' @ str_debug U (bpq_command (config (app s)) @ [LF]))
        (log_msg Info ''BPQ'' (''Starting BPQ handshake with command: '' @ bpq_command (config (app s))) s)"
    obtain s1 where "lift_op (sys_send agwpe_transport (bpq_command (config (app s)) @ [LF])) ?s0 = Some (Ok (), s1)"
        "live b s1 (frame_encode f @ bs) tail" "puts ?s0 [bpq_command (config (app s)) @ [LF]] s1"
      using live_send [of b ?s0 "frame_encode f @ bs" tail] assms(1) by (metis live_log(1,2))
    with False show ?thesis by (auto simp: bpq_send_app_command_def Let_def)
  qed
  then obtain s1 where s1: "?cmd s = Some (Ok (), s1)" "live b s1 (frame_encode f @ bs) tail" "puts s ?pre s1"
    by blast
  obtain s2 where s2: "bpq_await_callsign_prompt_and_send_callsign U agwpe_transport c s1 = Some (Ok (), s2)"
      "live b s2 bs tail" "puts s1 [c @ [LF]] s2"
    using callsign_stage [OF s1(2) assms(2,3), of U c] by blast
  have "puts s (login_lines c s) s2"
    using puts_trans [OF s1(3) s2(3)] by (simp only: login_lines_def)
  moreover have "sbind ?cmd (\<lambda>_. bpq_await_callsign_prompt_and_send_callsign U agwpe_transport c) s = Some (Ok (), s2)"
    using s1(1) s2(1) by (simp only: sbind_def option.case prod.case sum.case)
  ultimately show ?thesis using s2(2) by blast
qed

lemma consent_stage:
  assumes "consents s = (delay, Some True) # answers" and "delay < 300 * 1000"
    and "delivers b (transport s) bs tail"
  shows "\<exists>s1. sbind (consent_step d) (\<lambda>_.
       sbind (pure_act (log_dir Tx Debug ''BPQ'' ''Sending AGREE'')) (\<lambda>_.
       sbind (lift_op (sys_send agwpe_transport (''AGREE'' @ [LF]))) (\<lambda>_.
       pure_act (log_msg Info ''BPQ'' ''BPQ handshake completed successfully'')))) s = Some (Ok (), s1)
     \<and> sent s1 = sent s @ [agree_line] \<and> last_agreed_disclaimer (app s1) = Some d
     \<and> pending_consent (app s1) = None"
proof -
  let ?p = "park_for_consent d s"
  have p: "sent ?p = sent s" "consents ?p = consents s" "transport ?p = transport s"
      "connection_state (app ?p) = AwaitingConsent d" "pending_consent (app ?p) = Some (clock s)"
    by (simp_all add: park_for_consent_def Let_def)
  obtain s2 where s2: "consent_step d s = Some (Ok (), s2)" "sent s2 = sent s" "transport s2 = transport s"
      "last_agreed_disclaimer (app s2) = Some d" "pending_consent (app s2) = None"
    using assms(1,2) p
    by (auto simp: consent_step_def wait_consent_def Let_def api_consent_post_def record_agreed_disclaimer_def)
  let ?s3 = "log_dir Tx Debug ''BPQ'' ''Sending AGREE'' s2"
  obtain t' where "sys_send agwpe_transport (''AGREE'' @ [LF]) ?s3 =
      (Ok (), ?s3\<lparr>transport := t', sent := sent ?s3 @ [''AGREE'' @ [LF]]\<rparr>)"
    using agwpe_send_delivers [of b ?s3 bs tail] assms(3) s2(3) by (metis sys_msg_frame(2))
  with s2 show ?thesis
    by (simp add: sbind_def pure_act_def lift_op_def agree_line_def)
qed

lemma handshake_completes:
  assumes "live b s (frame_encode f2 @ frame_encode f3 @ bs) tail"
    and "prompt_frame f2 d2" and "contains_str (from_utf8_lossy d2) ''callsign''"
    and "prompt_frame f3 d3" and "contains_str (to_uppercase (upper_of U) (from_utf8_lossy d3)) ''AGREE''"
    and "consents s = (delay, Some True) # answers" and "delay < 300 * 1000"
  shows "\<exists>s'. perform_bpq_handshake U agwpe_transport c s = Some (Ok (), s')
     \<and> sent s' = sent s @ login_lines c s @ [agree_line]
     \<and> last_agreed_disclaimer (app s') = Some (from_utf8_lossy d3)"
proof -
  let ?login = "sbind (if skip_bpq_app (config (app s)) then
        pure_act (log_msg Info ''BPQ'' ''Skipping BPQ application command (direct connection mode)'')
      else bpq_send_app_command U agwpe_transport)
      (\<lambda>_. bpq_await_callsign_prompt_and_send_callsign U agwpe_transport c)"
  let ?agree = "\<lambda>text. sbind (consent_step text) (\<lambda>_.
       sbind (pure_act (log_dir Tx Debug ''BPQ'' ''Sending AGREE'')) (\<lambda>_.
       sbind (lift_op (sys_send agwpe_transport (''AGREE'' @ [LF]))) (\<lambda>_.
       pure_act (log_msg Info ''BPQ'' ''BPQ handshake completed successfully''))))"
  obtain s1 where s1: "?login s = Some (Ok (), s1)"
      "live b s1 (frame_encode f3 @ bs) tail" "puts s (login_lines c s) s1"
    using login_stage [OF assms(1-3), of U c] by blast
  obtain s2 where s2: "bpq_await_disclaimer U agwpe_transport s1 = Some (Ok (from_utf8_lossy d3), s2)"
      "live b s2 bs tail" "quiet s1 s2"
    using disclaimer_stage [OF s1(2) assms(4,5)] by blast
  have p: "puts s (login_lines c s) s2" using puts_quiet [OF s1(3) s2(3)] .
  then have "consents s2 = (delay, Some True) # answers" "sent s2 = sent s @ login_lines c s"
    using puts_frame [OF p] puts_sent [OF p] assms(6) by simp_all
  with consent_stage [of s2 delay answers b bs tail "from_utf8_lossy d3"] assms(7) s2(2)
  obtain s3 where s3: "?agree (from_utf8_lossy d3) s2 = Some (Ok (), s3)"
      "sent s3 = sent s @ login_lines c s @ [agree_line]"
      "last_agreed_disclaimer (app s3) = Some (from_utf8_lossy d3)"
    by (auto simp: live_def)
  have "perform_bpq_handshake U agwpe_transport c s
      = sbind ?login (\<lambda>_. sbind (bpq_await_disclaimer U agwpe_transport) ?agree) s"
    by (simp only: perform_bpq_handshake_def sbind_assoc)
  also have "\<dots> = sbind (bpq_await_disclaimer U agwpe_transport) ?agree s1"
    by (rule sbind_Some) (rule s1(1))
  also have "\<dots> = ?agree (from_utf8_lossy d3) s2" by (rule sbind_Some) (rule s2(1))
  finally show ?thesis using s3 by simp
qed

text \<open>The state in which the link is opened.\<close>

definition connecting :: "bytes \<Rightarrow> nat \<Rightarrow> bytes \<Rightarrow> asys \<Rightarrow> asys" where
  "connecting target port_no c s =
     begin_connecting target port_no (snd (agwpe_open_session
       \<lparr>sc_local_callsign = c, sc_remote_callsign = target,
        sc_bpq_command = bpq_command (config (app s)), sc_skip_bpq_app = skip_bpq_app (config (app s)),
        sc_agwpe_port = port_no\<rparr> (reset_abort s)))"

lemma connecting_frame:
  "live b s bs tail \<Longrightarrow> live b (connecting target port_no c s) bs tail"
  "sent (connecting target port_no c s) = sent s" "consents (connecting target port_no c s) = consents s"
  "login_lines c (connecting target port_no c s) = login_lines c s"
  by (auto simp: connecting_def live_def begin_connecting_def agwpe_open_session_def upd_transport_def
      reset_abort_def delivers_def Let_def login_lines_def update_target_def set_agwpe_port_def split_def)

lemma open_session_run:
  assumes "ax25_open_and_await_connected agwpe_transport (connecting target port_no c s) = Some (Ok (), s1)"
    and "perform_bpq_handshake U agwpe_transport c s1 = Some (Ok (), s2)"
  shows "handle_open_session U agwpe_transport target port_no c s = Some (Ok (), set_state CsConnected s2)"
  using assms
  by (simp add: handle_open_session_def Let_def sbind_def lift_op_def pure_act_def agwpe_transport_def
      agwpe_open_session_def reset_abort_def connecting_def)

text \<open>
  C20: a session opens. The modem reports the link, the server asks for the callsign and shows
  its disclaimer (each in one data frame, all within 30 seconds, cut by TCP in any way), and
  the operator accepts within 300 seconds. Then \<open>open_session\<close> succeeds: the client has
  sent its login lines followed by \<open>AGREE\<close>, the state is \<open>Connected\<close>, and the disclaimer shown
  is recorded for later reconnects.
\<close>

theorem session_opens:
  assumes "live b s (frame_encode f1 @ frame_encode f2 @ frame_encode f3 @ bs) tail"
    and "frame_ok f1" and "frame_type f1 = Connected"
    and "prompt_frame f2 d2" and "contains_str (from_utf8_lossy d2) ''callsign''"
    and "prompt_frame f3 d3" and "contains_str (to_uppercase (upper_of U) (from_utf8_lossy d3)) ''AGREE''"
    and "consents s = (delay, Some True) # answers" and "delay < 300 * 1000"
  shows "\<exists>s'. handle_open_session U agwpe_transport target port_no c s = Some (Ok (), s')
     \<and> sent s' = sent s @ login_lines c s @ [agree_line]
     \<and> connection_state (app s') = CsConnected
     \<and> last_agreed_disclaimer (app s') = Some (from_utf8_lossy d3)"
proof -
  let ?s2 = "connecting target port_no c s"
  have k2: "sent ?s2 = sent s" "consents ?s2 = consents s" "login_lines c ?s2 = login_lines c s"
    by (rule connecting_frame)+
  obtain s3 where s3: "ax25_open_and_await_connected agwpe_transport ?s2 = Some (Ok (), s3)"
      "live b s3 (frame_encode f2 @ frame_encode f3 @ bs) tail" "quiet ?s2 s3"
    using link_opens [OF connecting_frame(1) [OF assms(1)] assms(2,3)] by blast
  have k3: "login_lines c s3 = login_lines c s" "sent s3 = sent s" "consents s3 = consents s"
    using login_lines_puts [OF puts_Nil [OF s3(3)]] s3(3) k2 by (simp_all add: quiet_def)
  obtain s4 where "perform_bpq_handshake U agwpe_transport c s3 = Some (Ok (), s4)"
      "sent s4 = sent s @ login_lines c s @ [agree_line]"
      "last_agreed_disclaimer (app s4) = Some (from_utf8_lossy d3)"
    using handshake_completes [OF s3(2) assms(4-7), of delay answers c] assms(8,9) k3 by auto
  with open_session_run [OF s3(1)] show ?thesis by simp
qed

text \<open>An honest server for the witness.\<close>

definition sample_login :: "AgwpeFrame list" where
  "sample_login =
     [frame_new (CHR 0x00) Connected ''N0CALL'' ''K1ABC-1'' [],
      frame_new (CHR 0x00) SendData ''N0CALL'' ''K1ABC-1'' ''Enter your callsign: '',
      frame_new (CHR 0x00) SendData ''N0CALL'' ''K1ABC-1'' ''Type AGREE to proceed: '']"

lemma sample_login_text:
  "from_utf8_lossy ''Enter your callsign: '' = ''Enter your callsign: ''"
  "from_utf8_lossy ''Type AGREE to proceed: '' = ''Type AGREE to proceed: ''"
  by (rule from_utf8_lossy_ascii, simp add: ascii_class_defs)+

lemma sample_login_frames:
  "frame_ok (sample_login ! 0)" "frame_type (sample_login ! 0) = Connected"
  "prompt_frame (sample_login ! 1) ''Enter your callsign: ''"
  "prompt_frame (sample_login ! 2) ''Type AGREE to proceed: ''"
  by (simp_all only: prompt_frame_def sample_login_text)
    (simp_all add: sample_login_def frame_ok_def frame_new_def callsign_fits_def ascii_class_defs
      MAX_FRAME_DATA_SIZE_def MAX_HANDSHAKE_TEXT_def is_session_dead_payload_def contains_slice_def)

theorem session_opens_witness:
  "\<exists>s'. handle_open_session ascii_unicode agwpe_transport ''N0CALL'' 0 ''K1ABC-1''
        (sample_system (sample_link (concat (map frame_encode sample_login))) \<lparr>consents := [(2000, Some True)]\<rparr>)
      = Some (Ok (), s')
     \<and> connection_state (app s') = CsConnected
     \<and> last_agreed_disclaimer (app s') = Some ''Type AGREE to proceed: ''"
proof -
  let ?s = "(sample_system (sample_link (concat (map frame_encode sample_login))))\<lparr>consents := [(2000, Some True)]\<rparr>"
  have cat: "concat (map frame_encode sample_login) =
      frame_encode (sample_login ! 0) @ frame_encode (sample_login ! 1) @ frame_encode (sample_login ! 2) @ []"
    by (simp add: sample_login_def)
  have "20 < length (concat (map frame_encode sample_login))" by (simp add: sample_login_def)
  then have live: "live 1000 ?s (frame_encode (sample_login ! 0) @ frame_encode (sample_login ! 1)
      @ frame_encode (sample_login ! 2) @ []) []"
    using sample_link_delivers cat by (simp add: live_def sample_system_def)
  have c: "contains_str (from_utf8_lossy ''Enter your callsign: '') ''callsign''"
    "contains_str (to_uppercase (upper_of ascii_unicode) (from_utf8_lossy ''Type AGREE to proceed: '')) ''AGREE''"
    unfolding sample_login_text by code_simp+
  show ?thesis
    using session_opens [OF live sample_login_frames(1-3) c(1) sample_login_frames(4) c(2), of 2000 "[]"
        "''N0CALL''" 0 "''K1ABC-1''"]
    unfolding sample_login_text by auto
qed

section \<open>Reconnecting to an honest server\<close>

text \<open>A dropped transport whose next connection attempt reaches a modem that delivers \<open>bs\<close>.\<close>

definition redials :: "nat \<Rightarrow> asys \<Rightarrow> bytes \<Rightarrow> (nat \<times> rx_event) list \<Rightarrow> bool" where
  "redials b s bs tail \<longleftrightarrow>
     attached (transport s) \<and> stream (transport s) = None \<and> clock s < b \<and> b \<le> clock s + 5 * 1000
     \<and> (\<exists>st ds segs. dials (transport s) = (0, Ok st) # ds \<and> wr_results st = []
          \<and> rx st = segments segs @ tail \<and> timely b segs \<and> concat (map snd segs) = bs)"

definition registered :: "AgwpeFrame \<Rightarrow> bool" where
  "registered f \<longleftrightarrow> frame_ok f \<and> frame_type f = RegisterCallsign \<and> frame_data f = [CHR 0x01]"

lemma registration_read:
  assumes "delivers b (transport s) (frame_encode f @ bs) tail" and "frame_ok f"
    and "clock s < b" and "b \<le> clock s + 5 * 1000"
  shows "\<exists>s1. on_clock (read_frame_with_timeout 5) s = (Ok f, s1) \<and> live b s1 bs tail \<and> quiet s s1"
proof -
  obtain t' now' where rd: "read_frame_from_stream (clock s + 5 * 1000) (transport s) (clock s) = (Ok f, t', now')"
      "delivers b t' bs tail" "now' < b"
    using read_frame_reassembles [OF assms(1,2,4), of "clock s"] assms(3) by auto
  then show ?thesis
    using read_frame_rank [OF rd(1)] assms
    by (auto simp: on_clock_def read_frame_with_timeout_def live_def quiet_def)
qed

lemma reopen_succeeds:
  assumes "redials b s (frame_encode f @ bs) tail" and "registered f"
  shows "\<exists>s1. lift_op (t_reopen_modem_connection agwpe_transport) s = Some (Ok (), s1)
     \<and> live b s1 bs tail \<and> quiet s s1"
proof -
  obtain st ds segs where st: "dials (transport s) = (0, Ok st) # ds" "wr_results st = []"
      "rx st = segments segs @ tail" "timely b segs" "concat (map snd segs) = frame_encode f @ bs"
    using assms(1) by (auto simp: redials_def)
  let ?c = "local_callsign (transport s)"
  let ?h = "agwpe_host (config (app s))" and ?p = "agwpe_port (config (app s))"
  let ?s0 = "upd_transport (\<lambda>t. t\<lparr>stream := None, read_buf := []\<rparr>) s"
  let ?s1 = "agw_log Info ''AGWPE'' (''Connecting to AGWPE at '' @ ?h @ '':'' @ nat_to_string ?p) ?s0"
  let ?s2 = "?s1\<lparr>transport := (transport ?s1)\<lparr>dials := ds\<rparr>, clock := clock ?s1\<rparr>"
  let ?reg = "frame_new (CHR 0x00) RegisterCallsign ?c [] []"
  let ?s3 = "agw_log_dir Tx Debug ''AGWPE'' (''Sending registration for '' @ ?c)
      (upd_transport (\<lambda>t. t\<lparr>stream := Some st, local_callsign := ?c, read_buf := []\<rparr>)
        (agw_log Info ''AGWPE'' ''TCP connection established'' ?s2))"
  let ?s4 = "?s3\<lparr>transport := (transport ?s3)\<lparr>stream := Some (st\<lparr>written := written st @ frame_encode ?reg\<rparr>)\<rparr>\<rparr>"
  have dial: "on_clock dial ?s1 = (Ok st, ?s2)"
    using st(1) by (simp add: on_clock_def dial_def upd_transport_def)
  have wr: "on_transport (write_stream (frame_encode ?reg)) ?s3 = (Some (Ok ()), ?s4)"
    using st(2) by (simp add: on_transport_def write_stream_def upd_transport_def tcp_write_def)
  have "delivers b (transport ?s4) (frame_encode f @ bs) tail"
    using st by (auto simp: delivers_def upd_transport_def)
  moreover have "clock ?s4 = clock s" by (simp add: upd_transport_def)
  ultimately obtain s5 where s5: "on_clock (read_frame_with_timeout 5) ?s4 = (Ok f, s5)"
      "live b s5 bs tail" "quiet ?s4 s5"
    using registration_read [of b ?s4 f bs tail] assms by (auto simp: redials_def registered_def)
  let ?s6 = "agw_set_state AgwpeConnected (agw_log_dir Rx Debug ''AGWPE'' ''Registration successful'' s5)"
  have run: "connect_modem_internal ?h ?p ?c ?s0 = (Ok (), ?s6)"
    unfolding connect_modem_internal_def Let_def dial prod.case sum.case wr option.case s5(1)
    using assms(2) by (simp add: registered_def)
  have "lift_op (t_reopen_modem_connection agwpe_transport) s = Some (Ok (), ?s6)"
    using assms(1) run
    by (simp add: lift_op_def agwpe_transport_def agwpe_reopen_modem_connection_def Let_def redials_def
        upd_transport_def)
  moreover have "live b ?s6 bs tail" using s5(2) by (simp add: agw_set_state_def live_def)
  moreover have "quiet s ?s6" using connect_modem_internal_quiet [OF run] by simp
  ultimately show ?thesis by blast
qed

definition undisturbed :: "nat \<Rightarrow> asys \<Rightarrow> bool" where
  "undisturbed b s \<longleftrightarrow> \<not> abort_flag s \<and> list_all (\<lambda>p. b \<le> p) (presses s)"

lemma undisturbed_puts: "puts s ds s' \<Longrightarrow> undisturbed b s' = undisturbed b s"
  by (simp add: undisturbed_def puts_def quiet_def)

lemma undisturbed_log [simp]:
  "undisturbed b (log_msg l c m s) = undisturbed b s" "undisturbed b (set_state cs s) = undisturbed b s"
  by (simp_all add: undisturbed_def)

lemma check_abort_passes: "undisturbed b s \<Longrightarrow> live b s bs tail \<Longrightarrow> \<not> is_aborted s"
  using not_aborted [of s b] by (simp add: undisturbed_def live_def)

lemma check_abort_ok: "\<not> is_aborted s \<Longrightarrow> check_abort s = Some (Ok (), s)"
  by (simp add: check_abort_def)

lemma redials_log [simp]:
  "redials b (log_msg l c m s) bs tail = redials b s bs tail"
  "redials b (set_state cs s) bs tail = redials b s bs tail"
  by (simp_all add: redials_def)

lemma relink_stage:
  assumes "redials b s (frame_encode f0 @ frame_encode f1 @ bs) tail" and "registered f0"
    and "frame_ok f1" and "frame_type f1 = Connected" and "undisturbed b s"
  shows "\<exists>s1. reconnect_link agwpe_transport why s = Some (Ok (), s1) \<and> live b s1 bs tail \<and> quiet s s1"
proof -
  obtain s1 where s1: "lift_op (t_reopen_modem_connection agwpe_transport) s = Some (Ok (), s1)"
      "live b s1 (frame_encode f1 @ bs) tail" "quiet s s1"
    using reopen_succeeds [OF assms(1,2)] by blast
  let ?s2 = "set_state (Reconnecting why) s1"
  have u1: "undisturbed b ?s2" using assms(5) undisturbed_puts [OF puts_Nil [OF s1(3)]] by simp
  have l2: "live b ?s2 (frame_encode f1 @ bs) tail" using s1(2) by simp
  obtain s3 where s3: "ax25_open_and_await_connected agwpe_transport ?s2 = Some (Ok (), s3)"
      "live b s3 bs tail" "quiet ?s2 s3"
    using link_opens [OF l2 assms(3,4)] by blast
  have u3: "undisturbed b s3" using u1 undisturbed_puts [OF puts_Nil [OF s3(3)]] by simp
  have "reconnect_link agwpe_transport why s = Some (Ok (), s3)"
    using s1(1) s3(1) check_abort_passes [OF u1 l2] check_abort_passes [OF u3 s3(2)]
    by (simp add: reconnect_link_def sbind_def pure_act_def check_abort_def)
  with s3 s1(3) show ?thesis by (auto intro: quiet_trans)
qed

lemma relogin_stage:
  assumes "live b s (frame_encode f @ bs) tail" and "prompt_frame f d"
    and "contains_str (from_utf8_lossy d) ''callsign''" and "undisturbed b s"
  shows "\<exists>s1. sbind (reconnect_command U agwpe_transport)
      (\<lambda>_. bpq_await_callsign_prompt_and_send_callsign U agwpe_transport c) s = Some (Ok (), s1)
     \<and> live b s1 bs tail \<and> puts s (login_lines c s) s1"
proof -
  let ?cmd = "if skip_bpq_app (config (app s)) then
       pure_act (log_msg Info ''BPQ'' ''Skipping BPQ application command (direct connection mode)'')
     else bpq_send_app_command U agwpe_transport"
  obtain s1 where s1: "sbind ?cmd (\<lambda>_. bpq_await_callsign_prompt_and_send_callsign U agwpe_transport c) s = Some (Ok (), s1)"
      "live b s1 bs tail" "puts s (login_lines c s) s1"
    using login_stage [OF assms(1-3), of U c] by blast
  have "reconnect_command U agwpe_transport s = ?cmd s"
  proof (cases "skip_bpq_app (config (app s))")
    case True
    then show ?thesis by (simp add: reconnect_command_def)
  next
    case False
    let ?s0 = "log_dir Tx Debug ''BPQ'' (''Sending BPQ command: '' @ str_debug U (bpq_command (config (app s)) @ [LF]))
        (log_msg Info ''BPQ'' (''Starting BPQ handshake with command: '' @ bpq_command (config (app s))) s)"
    have "live b ?s0 (frame_encode f @ bs) tail" using assms(1) by simp
    then obtain s2 where s2: "lift_op (sys_send agwpe_transport (bpq_command (config (app s)) @ [LF])) ?s0 = Some (Ok (), s2)"
        "live b s2 (frame_encode f @ bs) tail" "puts ?s0 [bpq_command (config (app s)) @ [LF]] s2"
      using live_send [of b ?s0] by blast
    then have cmd: "bpq_send_app_command U agwpe_transport s = Some (Ok (), s2)"
      by (simp add: bpq_send_app_command_def Let_def)
    have "puts s [bpq_command (config (app s)) @ [LF]] s2" using s2(3) by simp
    then have "undisturbed b s2" using undisturbed_puts assms(4) by blast
    then show ?thesis
      using False cmd check_abort_passes [OF _ s2(2)] by (simp add: reconnect_command_def sbind_def check_abort_def)
  qed
  then have "sbind (reconnect_command U agwpe_transport)
      (\<lambda>_. bpq_await_callsign_prompt_and_send_callsign U agwpe_transport c) s = Some (Ok (), s1)"
    using s1(1) by (simp only: sbind_def)
  with s1 show ?thesis by blast
qed

lemma reagree_stage:
  assumes "live b s bs tail" and "undisturbed b s"
  shows "\<exists>s1. reconnect_agree agwpe_transport d s =
      Some (if last_agreed_disclaimer (app s) = Some d then Ok () else Err NeedsReconsent, s1)"
proof (cases "last_agreed_disclaimer (app s) = Some d")
  case False
  then show ?thesis
    using check_abort_passes [OF assms(2,1)]
    by (auto simp: reconnect_agree_def sbind_def check_abort_def auto_consent_def matches_stored_disclaimer_def split: option.splits)
next
  case True
  let ?s0 = "log_dir Tx Info ''BPQ'' ''Auto-sending AGREE (matches stored consent)'' s"
  have "live b ?s0 bs tail" using assms(1) by simp
  then obtain s1 where "lift_op (sys_send agwpe_transport (''AGREE'' @ [LF])) ?s0 = Some (Ok (), s1)"
    using live_send [of b ?s0] by blast
  then show ?thesis
    using True check_abort_passes [OF assms(2,1)]
    by (simp add: reconnect_agree_def sbind_def check_abort_def auto_consent_def matches_stored_disclaimer_def pure_act_def)
qed

lemma reconnect_honest:
  assumes "redials b s (frame_encode f0 @ frame_encode f1 @ frame_encode f2 @ frame_encode f3 @ bs) tail"
    and "registered f0" and "frame_ok f1" and "frame_type f1 = Connected"
    and "prompt_frame f2 d2" and "contains_str (from_utf8_lossy d2) ''callsign''"
    and "prompt_frame f3 d3" and "contains_str (to_uppercase (upper_of U) (from_utf8_lossy d3)) ''AGREE''"
    and "undisturbed b s"
  shows "\<exists>s'. handle_reconnect U agwpe_transport why c s =
     Some (if last_agreed_disclaimer (app s) = Some (from_utf8_lossy d3) then Ok () else Err NeedsReconsent, s')"
proof -
  let ?s0 = "log_msg Info ''PROTOCOL'' (''Session lost ('' @ why @ ''); attempting reconnect'')
       (set_state (Reconnecting why) s)"
  have r0: "redials b ?s0 (frame_encode f0 @ frame_encode f1 @ frame_encode f2 @ frame_encode f3 @ bs) tail"
    and u0: "undisturbed b ?s0"
    using assms(1,9) by simp_all
  obtain s1 where s1: "reconnect_link agwpe_transport why ?s0 = Some (Ok (), s1)"
      "live b s1 (frame_encode f2 @ frame_encode f3 @ bs) tail" "quiet ?s0 s1"
    using relink_stage [OF r0 assms(2-4) u0] by blast
  have u1: "undisturbed b s1" using u0 undisturbed_puts [OF puts_Nil [OF s1(3)]] by simp
  obtain s2 where s2: "sbind (reconnect_command U agwpe_transport)
      (\<lambda>_. bpq_await_callsign_prompt_and_send_callsign U agwpe_transport c) s1 = Some (Ok (), s2)"
      "live b s2 (frame_encode f3 @ bs) tail" "puts s1 (login_lines c s1) s2"
    using relogin_stage [OF s1(2) assms(5,6) u1] by blast
  have u2: "undisturbed b s2" using u1 undisturbed_puts [OF s2(3)] by simp
  obtain s3 where s3: "bpq_await_disclaimer U agwpe_transport s2 = Some (Ok (from_utf8_lossy d3), s3)"
      "live b s3 bs tail" "quiet s2 s3"
    using disclaimer_stage [OF s2(2) assms(7,8)] by blast
  have u3: "undisturbed b s3" using u2 undisturbed_puts [OF puts_Nil [OF s3(3)]] by simp
  obtain s4 where s4: "reconnect_agree agwpe_transport (from_utf8_lossy d3) s3 =
      Some (if last_agreed_disclaimer (app s3) = Some (from_utf8_lossy d3) then Ok () else Err NeedsReconsent, s4)"
    using reagree_stage [OF s3(2) u3] by blast
  have la: "last_agreed_disclaimer (app s3) = last_agreed_disclaimer (app s)"
    using puts_frame [OF s2(3)] s1(3) s3(3) by (simp add: quiet_def)
  let ?k = "sbind (bpq_await_disclaimer U agwpe_transport) (reconnect_agree agwpe_transport)"
  have "reconnect_steps U agwpe_transport why c ?s0 = sbind (sbind (reconnect_command U agwpe_transport)
      (\<lambda>_. bpq_await_callsign_prompt_and_send_callsign U agwpe_transport c)) (\<lambda>_. sbind check_abort (\<lambda>_. ?k)) s1"
    unfolding reconnect_steps_def by (rule sbind_Some) (rule s1(1))
  also have "\<dots> = sbind check_abort (\<lambda>_. ?k) s2" by (rule sbind_Some) (rule s2(1))
  also have "\<dots> = ?k s2" by (rule sbind_Some) (rule check_abort_ok [OF check_abort_passes [OF u2 s2(2)]])
  also have "\<dots> = reconnect_agree agwpe_transport (from_utf8_lossy d3) s3"
    by (rule sbind_Some) (rule s3(1))
  finally show ?thesis using s4 la by (simp add: handle_reconnect_def Let_def)
qed


text \<open>The modem of the witnesses: registration, link, prompt and disclaimer.\<close>

definition sample_registration :: AgwpeFrame where
  "sample_registration = frame_new (CHR 0x00) RegisterCallsign ''K1ABC-1'' [] [CHR 0x01]"

definition sample_redial :: "bytes option \<Rightarrow> asys" where
  "sample_redial stored =
     (sample_system (attach_state (agwpe_new
        [(0, Ok \<lparr>rx = segments [(3, concat (map frame_encode (sample_registration # sample_login)))],
                 written = [], wr_results = []\<rparr>)])))
     \<lparr>app := (app_new default_config)\<lparr>last_agreed_disclaimer := stored\<rparr>\<rparr>"

lemma sample_redials:
  "redials 1000 (sample_redial stored) (frame_encode sample_registration @ frame_encode (sample_login ! 0)
     @ frame_encode (sample_login ! 1) @ frame_encode (sample_login ! 2) @ []) []"
  "registered sample_registration" "undisturbed 1000 (sample_redial stored)"
proof -
  let ?bs = "concat (map frame_encode (sample_registration # sample_login))"
  have bs: "?bs = frame_encode sample_registration @ frame_encode (sample_login ! 0)
     @ frame_encode (sample_login ! 1) @ frame_encode (sample_login ! 2) @ []" by (simp add: sample_login_def)
  have "?bs \<noteq> []" by (simp add: frame_encode_def)
  then show "redials 1000 (sample_redial stored) (frame_encode sample_registration @ frame_encode (sample_login ! 0)
     @ frame_encode (sample_login ! 1) @ frame_encode (sample_login ! 2) @ []) []"
    unfolding bs [symmetric] redials_def
    by (auto simp: sample_redial_def sample_system_def attach_state_def agwpe_new_def timely_def
        intro!: exI [of _ "[(3, ?bs)]"])
  show "registered sample_registration"
    by (simp add: registered_def sample_registration_def frame_ok_def frame_new_def callsign_fits_def
        ascii_class_defs MAX_FRAME_DATA_SIZE_def)
  show "undisturbed 1000 (sample_redial stored)"
    by (simp add: undisturbed_def sample_redial_def sample_system_def)
qed

lemma sample_login_prompts:
  "contains_str (from_utf8_lossy ''Enter your callsign: '') ''callsign''"
  "contains_str (to_uppercase (upper_of ascii_unicode) (from_utf8_lossy ''Type AGREE to proceed: '')) ''AGREE''"
  unfolding sample_login_text by code_simp+

lemmas sample_handshake = sample_login_frames(1-3) sample_login_prompts(1) sample_login_frames(4)
  sample_login_prompts(2)


lemma sample_reconsent:
  "\<exists>s'. handle_reconnect ascii_unicode agwpe_transport ''timeout'' ''K1ABC-1'' (sample_redial None)
       = Some (Err NeedsReconsent, s')"
proof -
  have "\<exists>s'. handle_reconnect ascii_unicode agwpe_transport ''timeout'' ''K1ABC-1'' (sample_redial None)
     = Some (if last_agreed_disclaimer (app (sample_redial None)) = Some (from_utf8_lossy ''Type AGREE to proceed: '')
             then Ok () else Err NeedsReconsent, s')"
    by (rule reconnect_honest [OF sample_redials(1,2) sample_handshake sample_redials(3)])
  then show ?thesis by (simp add: sample_redial_def app_new_def)
qed

text \<open>
  C34: a re-consent that nobody can give. After a reconnect that ended in \<open>NeedsReconsent\<close> the
  state is \<open>AwaitingConsent\<close>, so the consent dialog is shown, but no channel was stored: every
  answer posted to the consent endpoint is refused and changes nothing.
\<close>

theorem reconsent_cannot_be_answered:
  assumes "handle_reconnect U agwpe_transport why c s = Some (Err NeedsReconsent, s')"
    and "pending_consent (app s) = None"
  shows "awaiting (api_consent_get (app s'))
     \<and> api_consent_post alive accepted (app s') =
         (\<lparr>consent_ok = False, consent_error = Some ''No consent prompt is pending''\<rparr>, app s', None)"
proof -
  note spec = agw.handle_reconnect_spec [OF assms(1)]
  have "pending_consent (app s') = None" using spec(1) assms(2) by (auto dest: puts_frame)
  with spec(2) show ?thesis by (auto simp: api_consent_get_def api_consent_post_def)
qed


theorem reconsent_cannot_be_answered_witness:
  "\<exists>s'. handle_reconnect ascii_unicode agwpe_transport ''timeout'' ''K1ABC-1'' (sample_redial None)
       = Some (Err NeedsReconsent, s')
     \<and> awaiting (api_consent_get (app s'))
     \<and> api_consent_post True True (app s') =
         (\<lparr>consent_ok = False, consent_error = Some ''No consent prompt is pending''\<rparr>, app s', None)"
proof -
  obtain s' where h: "handle_reconnect ascii_unicode agwpe_transport ''timeout'' ''K1ABC-1'' (sample_redial None)
      = Some (Err NeedsReconsent, s')" using sample_reconsent by blast
  have "pending_consent (app (sample_redial None)) = None"
    by (simp add: sample_redial_def app_new_def)
  from reconsent_cannot_be_answered [OF h this, of True True] h show ?thesis by blast
qed

end
