(* ===== verification/Server_Io.thy ===== *)
theory Server_Io
  imports Transport Protocol
begin

text \<open>
  How the server reads its peer (\<open>server/src/main.rs\<close>): a \<open>BufReader\<close> over a TCP stream whose
  reads time out every \<open>READ_POLL_SECS\<close>, the bounded line reader, the exact reader and the
  request reader on top of them. A reader carries the clock; time passes only while a read
  blocks.

  The lemmas show that both readers always return, never hold more than the cap, and return the
  bytes that arrived, however TCP cut them and however often the poll timeout fired in between.
\<close>

section \<open>Buffered reading\<close>

datatype IoKind = WouldBlock | TimedOut | InvalidData | UnexpectedEof | OtherIo

datatype IoError = IoError (io_kind: IoKind) (io_text: bytes)

record Reader =
  rd_buf :: bytes
  rd_sock :: Tcp
  rd_now :: nat

definition READ_POLL_SECS :: nat where "READ_POLL_SECS = 30"
definition WRITE_TIMEOUT_SECS :: nat where "WRITE_TIMEOUT_SECS = 300"
definition PRE_AUTH_TIMEOUT_SECS :: nat where "PRE_AUTH_TIMEOUT_SECS = 300"
definition MAX_LINE_LENGTH :: nat where "MAX_LINE_LENGTH = 1024"
definition MAX_BODY_SIZE :: nat where "MAX_BODY_SIZE = 1024 * 1024"
definition BUF_CAPACITY :: nat where "BUF_CAPACITY = 8192"

text \<open>One blocking read of the socket into the buffer of the reader, or past it.\<close>

definition sock_read :: "nat \<Rightarrow> Reader \<Rightarrow> (IoError, bytes) result \<times> Reader" where
  "sock_read cap r =
     (case tcp_read cap (rd_now r + READ_POLL_SECS * 1000) (rd_sock r) (rd_now r) of
        (res, st, now) \<Rightarrow>
          (case res of
             ReadData bs \<Rightarrow> Ok bs
           | ReadClosed \<Rightarrow> Ok []
           | ReadFailed e \<Rightarrow> Err (IoError OtherIo e)
           | ReadTimeout \<Rightarrow> Err (IoError WouldBlock ''Resource temporarily unavailable''),
           r\<lparr>rd_sock := st, rd_now := now\<rparr>))"

definition fill_buf :: "Reader \<Rightarrow> (IoError, bytes) result \<times> Reader" where
  "fill_buf r =
     (if rd_buf r \<noteq> [] then (Ok (rd_buf r), r)
      else (case sock_read BUF_CAPACITY r of
              (Inr bs, r) \<Rightarrow> (Ok bs, r\<lparr>rd_buf := bs\<rparr>)
            | (Inl e, r) \<Rightarrow> (Err e, r)))"

definition consume :: "nat \<Rightarrow> Reader \<Rightarrow> Reader" where
  "consume n r = r\<lparr>rd_buf := drop n (rd_buf r)\<rparr>"

text \<open>\<open>reader.by_ref().take(limit).read_until(b'\n', &mut buf)\<close>; the number of bytes read is
  what was appended to \<open>buf\<close>, and bytes appended before an error stay there.\<close>

function read_until :: "nat \<Rightarrow> bytes \<Rightarrow> Reader \<Rightarrow> (IoError, unit) result \<times> bytes \<times> Reader" where
  "read_until limit buf r =
     (if limit = 0 then (Ok (), buf, r)
      else (case fill_buf r of
              (Inl e, r) \<Rightarrow> (Err e, buf, r)
            | (Inr bs, r) \<Rightarrow>
                let avail = take limit bs in
                (case position (\<lambda>b. b = LF) avail of
                   Some i \<Rightarrow> (Ok (), buf @ take (i + 1) avail, consume (i + 1) r)
                 | None \<Rightarrow>
                     if avail = [] then (Ok (), buf, r)
                     else read_until (limit - length avail) (buf @ avail) (consume (length avail) r))))"
  by pat_completeness auto
termination
  by (relation "measure fst") (auto simp: neq_Nil_conv)

declare read_until.simps [simp del]

text \<open>\<open>BufReader::read\<close>: a large request with an empty buffer goes straight to the socket.\<close>

definition buf_read :: "nat \<Rightarrow> Reader \<Rightarrow> (IoError, bytes) result \<times> Reader" where
  "buf_read n r =
     (if rd_buf r = [] \<and> BUF_CAPACITY \<le> n then sock_read n r
      else (case fill_buf r of
              (Inl e, r) \<Rightarrow> (Err e, r)
            | (Inr bs, r) \<Rightarrow> (Ok (take n bs), consume n r)))"

section \<open>Progress\<close>

lemma sock_read_clock:
  assumes "sock_read cap r = (res, r')"
  shows "rd_now r \<le> rd_now r'"
    and "res = Err e \<Longrightarrow> io_kind e \<noteq> OtherIo \<Longrightarrow> rd_now r < rd_now r'"
    and "rd_buf r' = rd_buf r"
  using assms
  by (auto simp: sock_read_def tcp_read.simps READ_POLL_SECS_def
      split: read_result.splits list.splits if_splits rx_event.splits)

lemma fill_buf_clock:
  assumes "fill_buf r = (res, r')"
  shows "rd_now r \<le> rd_now r'"
    and "res = Err e \<Longrightarrow> io_kind e \<noteq> OtherIo \<Longrightarrow> rd_now r < rd_now r'"
    and "res = Ok bs \<Longrightarrow> rd_buf r' = bs"
  using assms sock_read_clock [of BUF_CAPACITY r]
  by (auto simp: fill_buf_def split: if_splits prod.splits sum.splits)

lemma consume_clock [simp]: "rd_now (consume n r) = rd_now r" "rd_sock (consume n r) = rd_sock r"
  by (simp_all add: consume_def)

lemma read_until_progress:
  "read_until limit buf r = (res, buf', r') \<Longrightarrow>
     (\<exists>ys. buf' = buf @ ys \<and> length ys \<le> limit) \<and> rd_now r \<le> rd_now r'
     \<and> (\<forall>e. res = Err e \<and> io_kind e \<noteq> OtherIo \<longrightarrow> rd_now r < rd_now r')"
proof (induction limit buf r rule: read_until.induct)
  case (1 limit buf r)
  show ?case
  proof (cases "limit = 0")
    case True
    with 1(2) show ?thesis by (auto simp: read_until.simps [of 0])
  next
    case False
    obtain f r1 where f: "fill_buf r = (f, r1)" by fastforce
    note clk = fill_buf_clock [OF f]
    show ?thesis
    proof (cases f)
      case (Inl e)
      with 1(2) f False clk show ?thesis by (auto simp: read_until.simps [of limit])
    next
      case (Inr bs)
      let ?a = "take limit bs"
      show ?thesis
      proof (cases "position (\<lambda>b. b = LF) ?a")
        case (Some i)
        then have "length (take (i + 1) ?a) \<le> limit" by simp
        with 1(2) f False clk Inr Some show ?thesis by (auto simp: read_until.simps [of limit])
      next
        case None
        show ?thesis
        proof (cases "?a = []")
          case True
          with 1(2) f False clk Inr None show ?thesis by (auto simp: read_until.simps [of limit])
        next
          case ne: False
          have rec: "read_until (limit - length ?a) (buf @ ?a) (consume (length ?a) r1) = (res, buf', r')"
            using 1(2) f False Inr None ne by (simp add: read_until.simps [of limit] Let_def)
          note ih = 1(1) [OF False f [symmetric] Inr refl None ne rec]
          then obtain ys where "buf' = (buf @ ?a) @ ys" "length ys \<le> limit - length ?a" by auto
          then have "buf' = buf @ (?a @ ys)" "length (?a @ ys) \<le> limit" by simp_all
          with ih clk show ?thesis by fastforce
        qed
      qed
    qed
  qed
qed

section \<open>The bounded line reader\<close>

definition line_result :: "bytes \<Rightarrow> (IoError, bytes option) result" where
  "line_result buf =
     (case from_utf8 buf of
        Some line \<Rightarrow> Ok (Some line)
      | None \<Rightarrow> Err (IoError InvalidData ''Invalid UTF-8 in line''))"

definition line_too_long :: IoError where
  "line_too_long = IoError InvalidData ''Line exceeded maximum length''"

function line_loop :: "nat \<Rightarrow> bytes \<Rightarrow> Reader \<Rightarrow> (IoError, bytes option) result \<times> Reader" where
  "line_loop deadline buf r =
     (if deadline \<le> rd_now r then (Err (IoError TimedOut ''Idle deadline exceeded''), r)
      else
        let cap = MAX_LINE_LENGTH + 1; remaining = cap - length buf in
        if remaining = 0 then (Err line_too_long, r)
        else (case read_until remaining buf r of
                (Inr _, buf', r') \<Rightarrow>
                  if buf' = buf then
                    (if buf = [] then Ok None else Err (IoError UnexpectedEof ''EOF mid-line''), r')
                  else if last buf' = LF then (line_result buf', r')
                  else if cap \<le> length buf' then (Err line_too_long, r')
                  else line_loop deadline buf' r'
              | (Inl e, buf', r') \<Rightarrow>
                  if io_kind e = WouldBlock \<or> io_kind e = TimedOut then
                    (if buf' \<noteq> [] \<and> last buf' = LF then (line_result buf', r')
                     else line_loop deadline buf' r')
                  else (Err e, r')))"
  by pat_completeness auto
termination
proof (relation "measure (\<lambda>(deadline, buf, r). (MAX_LINE_LENGTH + 1 - length buf) + (deadline - rd_now r))",
    goal_cases)
  case 1
  show ?case by simp
next
  case (2 deadline buf r cap remaining x y e buf' r')
  then have "read_until (cap - length buf) buf r = (Err e, buf', r')" by simp
  from read_until_progress [OF this] 2 show ?case by auto
next
  case (3 deadline buf r cap remaining x y u buf' r')
  then have "read_until (cap - length buf) buf r = (Ok u, buf', r')" by simp
  from read_until_progress [OF this] obtain ys where ys: "buf' = buf @ ys" "rd_now r \<le> rd_now r'" by auto
  moreover have "ys \<noteq> []" using ys(1) 3 by auto
  then have "0 < length ys" by simp
  moreover have "length buf' < cap" using 3 by simp
  ultimately have "cap - length buf' + (deadline - rd_now r') < cap - length buf + (deadline - rd_now r)"
    by (cases ys) auto
  then show ?case using 3 by auto
qed

declare line_loop.simps [simp del]

definition read_bounded_line_until :: "nat \<Rightarrow> Reader \<Rightarrow> (IoError, bytes option) result \<times> Reader" where
  "read_bounded_line_until deadline r = line_loop deadline [] r"

section \<open>The exact reader\<close>

lemma buf_read_clock:
  assumes "buf_read n r = (res, r')"
  shows "rd_now r \<le> rd_now r'"
    and "res = Err e \<Longrightarrow> io_kind e \<noteq> OtherIo \<Longrightarrow> rd_now r < rd_now r'"
proof -
  have "rd_now r \<le> rd_now r' \<and> (\<forall>e. res = Err e \<and> io_kind e \<noteq> OtherIo \<longrightarrow> rd_now r < rd_now r')"
  proof (cases "rd_buf r = [] \<and> BUF_CAPACITY \<le> n")
    case True
    with assms have "sock_read n r = (res, r')" by (simp add: buf_read_def)
    then show ?thesis using sock_read_clock by blast
  next
    case False
    obtain f r1 where f: "fill_buf r = (f, r1)" by fastforce
    with assms False have "rd_now r' = rd_now r1 \<and> (\<forall>e. res = Err e \<longrightarrow> f = Err e)"
      by (auto simp: buf_read_def split: sum.splits)
    then show ?thesis using fill_buf_clock [OF f] by auto
  qed
  then show "rd_now r \<le> rd_now r'" "res = Err e \<Longrightarrow> io_kind e \<noteq> OtherIo \<Longrightarrow> rd_now r < rd_now r'"
    by auto
qed

function exact_loop :: "nat \<Rightarrow> nat \<Rightarrow> bytes \<Rightarrow> Reader \<Rightarrow> (IoError, bytes) result \<times> Reader" where
  "exact_loop len deadline buf r =
     (if len \<le> length buf then (Ok buf, r)
      else if deadline \<le> rd_now r then (Err (IoError TimedOut ''Body read deadline exceeded''), r)
      else (case buf_read (len - length buf) r of
              (Inr bs, r') \<Rightarrow>
                if bs = [] then (Err (IoError UnexpectedEof ''Short body''), r')
                else exact_loop len deadline (buf @ bs) r'
            | (Inl e, r') \<Rightarrow>
                if io_kind e = WouldBlock \<or> io_kind e = TimedOut then exact_loop len deadline buf r'
                else (Err e, r')))"
  by pat_completeness auto
termination
proof (relation "measure (\<lambda>(len, deadline, buf, r). (len - length buf) + (deadline - rd_now r))", goal_cases)
  case 1
  show ?case by simp
next
  case (2 len deadline buf r x r' e)
  then have "buf_read (len - length buf) r = (Err e, r')" by simp
  from buf_read_clock [OF this] 2 show ?case by auto
next
  case (3 len deadline buf r x r' bs)
  then have "buf_read (len - length buf) r = (Ok bs, r')" by simp
  from buf_read_clock [OF this] 3 show ?case by (cases bs) auto
qed

declare exact_loop.simps [simp del]

definition read_exact_until :: "nat \<Rightarrow> nat \<Rightarrow> Reader \<Rightarrow> (IoError, bytes) result \<times> Reader" where
  "read_exact_until len deadline r = exact_loop len deadline [] r"

section \<open>Requests\<close>

definition read_request :: "nat \<Rightarrow> Reader \<Rightarrow> (IoError, Request option) result \<times> Reader" where
  "read_request deadline r =
     (case read_bounded_line_until deadline r of
        (Inl e, r) \<Rightarrow> (Err e, r)
      | (Inr None, r) \<Rightarrow> (Ok None, r)
      | (Inr (Some line), r) \<Rightarrow>
          let trimmed = trim line in
          if prefix ''GET '' trimmed then
            let rest = drop 4 trimmed in
            if rest = [] then (Err (IoError InvalidData ''Empty URL''), r)
            else (Ok (Some (case split_once sentinel rest of
                              Some (u, e) \<Rightarrow> Get u (Some e)
                            | None \<Rightarrow> Get rest None)), r)
          else if prefix ''POST '' trimmed then
            let url = drop 5 trimmed in
            if url = [] then (Err (IoError InvalidData ''Empty URL''), r)
            else (case read_exact_until 4 deadline r of
                    (Inl e, r) \<Rightarrow> (Err e, r)
                  | (Inr len_buf, r) \<Rightarrow>
                      let body_len = unat (u32_of_bytes (len_buf ! 0) (len_buf ! 1) (len_buf ! 2) (len_buf ! 3)) in
                      if MAX_BODY_SIZE < body_len then
                        (Err (IoError InvalidData (''Body too large: '' @ nat_to_string body_len
                           @ '' bytes (max '' @ nat_to_string MAX_BODY_SIZE @ '')'')), r)
                      else (case read_exact_until body_len deadline r of
                              (Inl e, r) \<Rightarrow> (Err e, r)
                            | (Inr body, r) \<Rightarrow> (Ok (Some (Post url body)), r)))
          else (Err (IoError InvalidData ''Invalid request format''), r))"

section \<open>What arrives is what is read\<close>

text \<open>\<open>arrives dl r bs tail\<close>: the reader's buffer and the socket hold the bytes \<open>bs\<close>, cut
  anywhere into segments that all arrive before \<open>dl\<close>; \<open>tail\<close> is what the socket does next.\<close>

definition arrives :: "nat \<Rightarrow> Reader \<Rightarrow> bytes \<Rightarrow> (nat \<times> rx_event) list \<Rightarrow> bool" where
  "arrives dl r bs tail \<longleftrightarrow>
     (\<exists>segs. rx (rd_sock r) = segments segs @ tail \<and> timely dl segs
        \<and> rd_buf r @ concat (map snd segs) = bs)"

text \<open>One read of the socket, the buffer being empty and more to come: the poll timeout fires and
  nothing changes but the clock, or the next piece arrives; either way before the deadline or
  at most one poll interval past it.\<close>

lemma sock_read_arrives:
  assumes "arrives dl r bs tail" and "rd_buf r = []" and "bs \<noteq> []" and "0 < cap" and "rd_now r < dl"
  obtains (poll) r' e where "sock_read cap r = (Err e, r')" and "io_kind e = WouldBlock"
      and "arrives dl r' bs tail" and "rd_buf r' = []" and "rd_now r < rd_now r'" and "rd_now r' < dl"
  | (piece) r' ys rest where "sock_read cap r = (Ok ys, r')" and "ys \<noteq> []" and "length ys \<le> cap" and "bs = ys @ rest"
      and "arrives dl r' rest tail" and "rd_buf r' = []" and "rd_now r' < dl" and "rd_now r \<le> rd_now r'"
proof -
  obtain segs where s: "rx (rd_sock r) = segments segs @ tail" "timely dl segs" "concat (map snd segs) = bs"
    using assms(1,2) by (auto simp: arrives_def)
  then obtain at b sg where sg: "segs = (at, b) # sg"
    using assms(3) by (cases segs) auto
  have b: "at < dl" "b \<noteq> []" using s(2) sg by (auto simp: timely_def)
  let ?d = "rd_now r + READ_POLL_SECS * 1000"
  show thesis
  proof (cases "rd_now r < at \<and> ?d \<le> at")
    case True
    let ?r = "r\<lparr>rd_now := ?d\<rparr>"
    have "tcp_read cap ?d (rd_sock r) (rd_now r) = (ReadTimeout, rd_sock r, ?d)"
      using True s(1) sg by (simp add: tcp_read.simps segments_def)
    then have "sock_read cap r = (Err (IoError WouldBlock ''Resource temporarily unavailable''), ?r)"
      by (simp add: sock_read_def)
    moreover have "arrives dl ?r bs tail" using assms(1) by (simp add: arrives_def)
    ultimately show thesis using poll [of _ ?r] True b assms(2) by (simp add: READ_POLL_SECS_def)
  next
    case False
    let ?sg = "if drop cap b = [] then sg else (at, drop cap b) # sg"
    let ?st = "(rd_sock r)\<lparr>rx := segments ?sg @ tail\<rparr>"
    let ?r = "r\<lparr>rd_sock := ?st, rd_now := max (rd_now r) at\<rparr>"
    have "tcp_read cap ?d (rd_sock r) (rd_now r) = (ReadData (take cap b), ?st, max (rd_now r) at)"
      using False s(1) sg b by (auto simp: tcp_read.simps segments_def)
    then have "sock_read cap r = (Ok (take cap b), ?r)" by (simp add: sock_read_def)
    moreover have "timely dl ?sg" using s(2) sg by (auto simp: timely_def)
    then have "arrives dl ?r (drop cap b @ concat (map snd sg)) tail"
      using assms(2) by (auto simp: arrives_def intro!: exI [of _ ?sg])
    moreover have "bs = take cap b @ drop cap b @ concat (map snd sg)"
      using s(3) sg append_take_drop_id [of cap b] by (metis append_assoc concat.simps(2) list.simps(9) snd_conv)
    ultimately show thesis
      using piece [of "take cap b" ?r "drop cap b @ concat (map snd sg)"] b assms(2,4,5) by simp
  qed
qed

lemma arrives_buf: "arrives dl r bs tail \<Longrightarrow> \<exists>rest. bs = rd_buf r @ rest"
  by (auto simp: arrives_def)

lemma arrives_consume:
  "arrives dl r (ys @ rest) tail \<Longrightarrow> n = length ys \<Longrightarrow> n \<le> length (rd_buf r) \<Longrightarrow>
     arrives dl (consume n r) rest tail"
  by (auto simp: arrives_def consume_def append_eq_append_conv2)

lemma fill_buf_arrives:
  assumes "arrives dl r bs tail" and "bs \<noteq> []" and "rd_now r < dl"
  obtains (poll) r' e where "fill_buf r = (Err e, r')" and "io_kind e = WouldBlock"
      and "arrives dl r' bs tail" and "rd_now r < rd_now r'" and "rd_now r' < dl"
  | (piece) r' ys rest where "fill_buf r = (Ok ys, r')" and "ys \<noteq> []" and "bs = ys @ rest"
      and "rd_buf r' = ys" and "arrives dl r' bs tail" and "rd_now r' < dl" and "rd_now r \<le> rd_now r'"
proof (cases "rd_buf r = []")
  case False
  with arrives_buf [OF assms(1)] obtain rest where "bs = rd_buf r @ rest" by blast
  then show thesis using piece [of "rd_buf r" r rest] False assms by (simp add: fill_buf_def)
next
  case True
  have cap: "0 < BUF_CAPACITY" by (simp add: BUF_CAPACITY_def)
  show thesis
  proof (cases rule: sock_read_arrives [OF assms(1) True assms(2) cap assms(3), case_names poll piece])
    case (poll r' e)
    then show thesis using that(1) [of e r'] True by (simp add: fill_buf_def)
  next
    case (piece r' ys rest)
    then have "arrives dl (r'\<lparr>rd_buf := ys\<rparr>) bs tail" by (auto simp: arrives_def)
    with piece show thesis using that(2) [of ys "r'\<lparr>rd_buf := ys\<rparr>" rest] True by (simp add: fill_buf_def)
  qed
qed

text \<open>\<open>read_until\<close> up to the line feed: the whole line, or the poll timeout after a part of it.\<close>

lemma read_until_arrives:
  assumes "arrives dl r (l @ LF # rest) tail" and "LF \<notin> set l" and "length l < limit" and "rd_now r < dl"
  shows "\<exists>r'. rd_now r \<le> rd_now r' \<and> rd_now r' < dl \<and>
     (read_until limit buf r = (Ok (), buf @ l @ [LF], r') \<and> arrives dl r' rest tail
      \<or> (\<exists>e p q. read_until limit buf r = (Err e, buf @ p, r') \<and> io_kind e = WouldBlock
           \<and> l = p @ q \<and> arrives dl r' (q @ LF # rest) tail \<and> rd_now r < rd_now r'))"
  using assms
proof (induction limit buf r arbitrary: l rule: read_until.induct)
  case (1 limit buf r)
  have lim: "limit \<noteq> 0" using "1.prems"(3) by simp
  have "l @ LF # rest \<noteq> []" by simp
  from "1.prems"(1) this "1.prems"(4) show ?case
  proof (cases rule: fill_buf_arrives [case_names poll piece])
    case (poll r' e)
    then have "read_until limit buf r = (Err e, buf @ [], r')" using lim by (simp add: read_until.simps [of limit])
    with poll show ?thesis by (intro exI [of _ r']) auto
  next
    case (piece r1 ys rest1)
    let ?a = "take limit ys"
    show ?thesis
    proof (cases "length l < length ys")
      case True
      then obtain us where "ys = l @ us" "us \<noteq> []" "LF # rest = us @ rest1"
        using piece(3) by (auto simp: append_eq_append_conv2)
      then obtain z where ys: "ys = l @ LF # z" by (cases us) auto
      have "position (\<lambda>b. b = LF) ?a = Some (length l)"
        using ys "1.prems"(2,3) position_first [of l "\<lambda>b. b = LF" LF "take (limit - Suc (length l)) z"]
        by (auto simp: take_Cons')
      then have "read_until limit buf r = (Ok (), buf @ l @ [LF], consume (length l + 1) r1)"
        using piece(1) lim ys "1.prems"(3) by (simp add: read_until.simps [of limit])
      moreover have "arrives dl (consume (length l + 1) r1) rest tail"
        using arrives_consume [of dl r1 "l @ [LF]" rest tail "length l + 1"] piece(4,5) ys by simp
      ultimately show ?thesis using piece by (intro exI [of _ "consume (length l + 1) r1"]) auto
    next
      case False
      then obtain l2 where l2: "l = ys @ l2"
        using piece(3) by (auto simp: append_eq_append_conv2)
      have a: "?a = ys" using l2 "1.prems"(3) by simp
      have none: "position (\<lambda>b. b = LF) ?a = None"
        using "1.prems"(2) l2 a by (auto simp: position_None_iff)
      have step: "read_until limit buf r
          = read_until (limit - length ?a) (buf @ ?a) (consume (length ?a) r1)"
        using piece(1,2) lim none a by (simp add: read_until.simps [of limit])
      have arr: "arrives dl (consume (length ?a) r1) (l2 @ LF # rest) tail"
        using arrives_consume [of dl r1 ys "l2 @ LF # rest" tail "length ys"] piece(4,5) l2 a by simp
      have l2len: "length l2 < limit - length ?a" and l2lf: "LF \<notin> set l2" using "1.prems"(2,3) l2 a by auto
      have ne: "?a \<noteq> []" using a piece(2) by simp
      have now: "rd_now (consume (length ?a) r1) < dl" using piece(6) by simp
      obtain r' where r': "rd_now r1 \<le> rd_now r'" "rd_now r' < dl"
        and alt: "read_until (limit - length ?a) (buf @ ?a) (consume (length ?a) r1) = (Ok (), (buf @ ?a) @ l2 @ [LF], r')
            \<and> arrives dl r' rest tail
          \<or> (\<exists>e p q. read_until (limit - length ?a) (buf @ ?a) (consume (length ?a) r1) = (Err e, (buf @ ?a) @ p, r')
               \<and> io_kind e = WouldBlock \<and> l2 = p @ q \<and> arrives dl r' (q @ LF # rest) tail \<and> rd_now r1 < rd_now r')"
        using "1.IH" [OF lim piece(1) [symmetric] refl refl none ne arr l2lf l2len now] by auto
      from alt show ?thesis
      proof
        assume "read_until (limit - length ?a) (buf @ ?a) (consume (length ?a) r1) = (Ok (), (buf @ ?a) @ l2 @ [LF], r')
            \<and> arrives dl r' rest tail"
        then show ?thesis using r' step l2 a piece(7) by (intro exI [of _ r']) auto
      next
        assume "\<exists>e p q. read_until (limit - length ?a) (buf @ ?a) (consume (length ?a) r1) = (Err e, (buf @ ?a) @ p, r')
               \<and> io_kind e = WouldBlock \<and> l2 = p @ q \<and> arrives dl r' (q @ LF # rest) tail \<and> rd_now r1 < rd_now r'"
        then obtain e p q where "read_until limit buf r = (Err e, buf @ ys @ p, r')" "io_kind e = WouldBlock"
            "l = (ys @ p) @ q" "arrives dl r' (q @ LF # rest) tail" "rd_now r1 < rd_now r'"
          using step l2 a by auto
        then show ?thesis using r' piece(7) by (intro exI [of _ r']) auto
      qed
    qed
  qed
qed

lemma line_loop_arrives:
  assumes "arrives b r (l2 @ LF # rest) tail" and "buf @ l2 = l" and "LF \<notin> set l" and "length l \<le> MAX_LINE_LENGTH"
    and "rd_now r < b" and "b \<le> dl"
  shows "\<exists>r'. line_loop dl buf r = (line_result (l @ [LF]), r') \<and> arrives b r' rest tail
     \<and> rd_now r \<le> rd_now r' \<and> rd_now r' < b"
  using assms
proof (induction dl buf r arbitrary: l2 rule: line_loop.induct)
  case (1 dl buf r)
  let ?n = "MAX_LINE_LENGTH + 1 - length buf"
  have n: "length l2 < ?n" "?n \<noteq> 0" and now: "\<not> dl \<le> rd_now r" and buf: "LF \<notin> set buf" "LF \<notin> set l2"
    using "1.prems" by auto
  obtain r1 where r1: "rd_now r \<le> rd_now r1" "rd_now r1 < b"
    and alt: "read_until ?n buf r = (Ok (), buf @ l2 @ [LF], r1) \<and> arrives b r1 rest tail
      \<or> (\<exists>e p q. read_until ?n buf r = (Err e, buf @ p, r1) \<and> io_kind e = WouldBlock
           \<and> l2 = p @ q \<and> arrives b r1 (q @ LF # rest) tail \<and> rd_now r < rd_now r1)"
    using read_until_arrives [OF "1.prems"(1) buf(2) n(1) "1.prems"(5)] by blast
  from alt show ?case
  proof
    assume a: "read_until ?n buf r = (Ok (), buf @ l2 @ [LF], r1) \<and> arrives b r1 rest tail"
    then have "line_loop dl buf r = (line_result (l @ [LF]), r1)"
      using now n "1.prems"(2) by (auto simp: line_loop.simps [of dl buf r])
    with a r1 show ?thesis by blast
  next
    assume "\<exists>e p q. read_until ?n buf r = (Err e, buf @ p, r1) \<and> io_kind e = WouldBlock
           \<and> l2 = p @ q \<and> arrives b r1 (q @ LF # rest) tail \<and> rd_now r < rd_now r1"
    then obtain e p q where e: "read_until ?n buf r = (Err e, buf @ p, r1)" "io_kind e = WouldBlock"
        "l2 = p @ q" "arrives b r1 (q @ LF # rest) tail" by blast
    have nolf: "\<not> (buf @ p \<noteq> [] \<and> last (buf @ p) = LF)"
      using buf e(3) by (metis Un_iff last_in_set set_append)
    have "line_loop dl buf r = line_loop dl (buf @ p) r1"
      using now n e(1,2) nolf by (simp add: line_loop.simps [of dl buf r] split del: if_split) auto
    moreover have "\<exists>r'. line_loop dl (buf @ p) r1 = (line_result (l @ [LF]), r') \<and> arrives b r' rest tail
        \<and> rd_now r1 \<le> rd_now r' \<and> rd_now r' < b"
      using "1.IH"(1) [OF now refl refl n(2) e(1) [symmetric] refl refl _ nolf e(4)] "1.prems"(2-6) e(2,3) r1(2) by simp
    ultimately show ?thesis using r1 by auto
  qed
qed

lemma line_arrives:
  assumes "arrives b r (l @ LF # rest) tail" and "LF \<notin> set l" and "utf8_valid l" and "length l \<le> MAX_LINE_LENGTH"
    and "rd_now r < b" and "b \<le> dl"
  shows "\<exists>r'. read_bounded_line_until dl r = (Ok (Some (l @ [LF])), r') \<and> arrives b r' rest tail
     \<and> rd_now r \<le> rd_now r' \<and> rd_now r' < b"
proof -
  have "utf8_valid (l @ [LF])"
    using assms(3) by (simp add: utf8_valid_append utf8_valid.simps(2) is_ascii_def LF_def)
  then have "line_result (l @ [LF]) = Ok (Some (l @ [LF]))" by (simp add: line_result_def from_utf8_def)
  with line_loop_arrives [of b r l rest tail "[]" l dl] assms show ?thesis
    by (simp add: read_bounded_line_until_def)
qed

lemma buf_read_arrives:
  assumes "arrives dl r bs tail" and "bs \<noteq> []" and "0 < n" and "rd_now r < dl"
  obtains (poll) r' e where "buf_read n r = (Err e, r')" and "io_kind e = WouldBlock"
      and "arrives dl r' bs tail" and "rd_now r < rd_now r'" and "rd_now r' < dl"
  | (piece) r' ys rest where "buf_read n r = (Ok ys, r')" and "ys \<noteq> []" and "length ys \<le> n" and "bs = ys @ rest"
      and "arrives dl r' rest tail" and "rd_now r' < dl" and "rd_now r \<le> rd_now r'"
proof (cases "rd_buf r = [] \<and> BUF_CAPACITY \<le> n")
  case True
  then have "buf_read n r = sock_read n r" and e: "rd_buf r = []" by (simp_all add: buf_read_def)
  note sock = this(1)
  show thesis
  proof (cases rule: sock_read_arrives [OF assms(1) e assms(2,3,4), case_names poll piece])
    case (poll r' e)
    with sock that(1) show thesis by metis
  next
    case (piece r' ys rest)
    with sock that(2) show thesis by metis
  qed
next
  case False
  from assms(1,2,4) show thesis
  proof (cases rule: fill_buf_arrives [case_names poll piece])
    case (poll r' e)
    then have "buf_read n r = (Err e, r')" using False by (auto simp: buf_read_def)
    with poll that(1) show thesis by blast
  next
    case (piece r' ys rest)
    have "buf_read n r = (Ok (take n ys), consume n r')" using False piece(1) by (auto simp: buf_read_def)
    moreover have "consume n r' = consume (length (take n ys)) r'" using piece(4) by (simp add: consume_def min_def)
    moreover have bs: "bs = take n ys @ drop n ys @ rest"
      using piece(3) by (metis append_assoc append_take_drop_id)
    moreover have "arrives dl (consume (length (take n ys)) r') (drop n ys @ rest) tail"
      using arrives_consume [OF piece(5) [unfolded bs] refl] piece(4) by simp
    ultimately show thesis
      using that(2) [of "take n ys" "consume n r'" "drop n ys @ rest"] piece(2,6,7) assms(3) by simp
  qed
qed

lemma exact_loop_arrives:
  assumes "arrives b r (ys @ rest) tail" and "length buf + length ys = len" and "rd_now r < b" and "b \<le> dl"
  shows "\<exists>r'. exact_loop len dl buf r = (Ok (buf @ ys), r') \<and> arrives b r' rest tail
     \<and> rd_now r \<le> rd_now r' \<and> rd_now r' < b"
  using assms
proof (induction len dl buf r arbitrary: ys rule: exact_loop.induct)
  case (1 len dl buf r)
  show ?case
  proof (cases "ys = []")
    case True
    with "1.prems" show ?thesis by (auto simp: exact_loop.simps [of len])
  next
    case False
    then have len: "\<not> len \<le> length buf" "0 < len - length buf" and now: "\<not> dl \<le> rd_now r"
      using "1.prems"(2-4) by auto
    have "ys @ rest \<noteq> []" using False by simp
    from "1.prems"(1) this len(2) "1.prems"(3) show ?thesis
    proof (cases rule: buf_read_arrives [case_names poll piece])
      case (poll r' e)
      then have "exact_loop len dl buf r = exact_loop len dl buf r'"
        using len now by (simp add: exact_loop.simps [of len dl buf r])
      moreover have "\<exists>r2. exact_loop len dl buf r' = (Ok (buf @ ys), r2) \<and> arrives b r2 rest tail
          \<and> rd_now r' \<le> rd_now r2 \<and> rd_now r2 < b"
        using "1.IH"(1) [OF len(1) now poll(1) [symmetric] refl _ poll(3)] poll "1.prems"(2,4) by simp
      ultimately show ?thesis using poll(4) by auto
    next
      case (piece r' zs rest1)
      have "length zs \<le> length ys" using piece(3) "1.prems"(2) by simp
      then obtain ys2 where ys2: "ys = zs @ ys2" "rest1 = ys2 @ rest"
        using piece(4) by (auto simp: append_eq_append_conv2)
      have "exact_loop len dl buf r = exact_loop len dl (buf @ zs) r'"
        using piece(1,2) len now by (simp add: exact_loop.simps [of len dl buf r])
      moreover have "\<exists>r2. exact_loop len dl (buf @ zs) r' = (Ok ((buf @ zs) @ ys2), r2) \<and> arrives b r2 rest tail
          \<and> rd_now r' \<le> rd_now r2 \<and> rd_now r2 < b"
        using "1.IH"(2) [OF len(1) now piece(1) [symmetric] refl piece(2), of ys2] piece(5-7) ys2 "1.prems"(2,4)
        by simp
      ultimately show ?thesis using ys2 piece(7) by auto
    qed
  qed
qed

lemma exact_arrives:
  assumes "arrives b r (ys @ rest) tail" and "length ys = len" and "rd_now r < b" and "b \<le> dl"
  shows "\<exists>r'. read_exact_until len dl r = (Ok ys, r') \<and> arrives b r' rest tail
     \<and> rd_now r \<le> rd_now r' \<and> rd_now r' < b"
  using exact_loop_arrives [of b r ys rest tail "[]" len dl] assms by (simp add: read_exact_until_def)

section \<open>Requests that reach the server\<close>

fun request_line :: "Request \<Rightarrow> bytes" where
  "request_line (Get url None) = ''GET '' @ url"
| "request_line (Get url (Some tag)) = ''GET '' @ url @ sentinel @ tag"
| "request_line (Post url body) = ''POST '' @ url"

fun request_tail :: "Request \<Rightarrow> bytes" where
  "request_tail (Get url tag) = []"
| "request_tail (Post url body) = to_be_bytes (of_nat (length body)) @ body"

text \<open>A request that fits the server's limits: the line is at most \<open>MAX_LINE_LENGTH\<close> bytes, the
  URL is not empty, nothing at the end of the line is eaten by \<open>trim\<close>, and the body is at most
  \<open>MAX_BODY_SIZE\<close> bytes.\<close>

definition servable :: "Request \<Rightarrow> bool" where
  "servable q \<longleftrightarrow>
     sendable q \<and> req_url q \<noteq> [] \<and> length (request_line q) \<le> MAX_LINE_LENGTH
     \<and> ascii_ink (last (request_line q)) \<and> length (request_tail q) \<le> 4 + MAX_BODY_SIZE"

lemma request_encode_line: "request_encode q = request_line q @ LF # request_tail q"
  by (cases q rule: request_encode.cases) (simp_all add: sentinel_def)

lemma request_line_hd: "request_line q \<noteq> []" "ascii_ink (hd (request_line q))"
  by (cases q rule: request_encode.cases;
      simp add: ascii_ink_def is_ascii_def is_ascii_ws_def in_range_def)+

lemma trim_request_line: "servable q \<Longrightarrow> trim (request_line q @ [LF]) = request_line q"
  by (rule trim_line) (simp_all add: request_line_hd servable_def)

lemma utf8_valid_ascii_Cons: "is_ascii a \<Longrightarrow> utf8_valid (a # s) = utf8_valid s"
  by (simp add: utf8_valid.simps(2))

lemma sendable_line:
  assumes "sendable q"
  shows "LF \<notin> set (request_line q)" and "utf8_valid (request_line q)"
proof -
  have "LF \<notin> set sentinel" by (simp add: sentinel_def LF_def)
  then show "LF \<notin> set (request_line q)"
    using assms by (cases q rule: request_encode.cases) (auto simp: LF_def)
  show "utf8_valid (request_line q)"
    using assms
    by (cases q rule: request_encode.cases)
      (auto simp: utf8_valid_ascii_Cons is_ascii_def utf8_valid_sentinel)
qed

lemma be_bytes_read:
  "u32_of_bytes (to_be_bytes w ! 0) (to_be_bytes w ! 1) (to_be_bytes w ! 2) (to_be_bytes w ! 3) = w"
proof -
  have "to_be_bytes w ! 0 = u32_byte 3 w" "to_be_bytes w ! 1 = u32_byte 2 w"
    "to_be_bytes w ! 2 = u32_byte 1 w" "to_be_bytes w ! 3 = u32_byte 0 w"
    by (simp_all add: to_be_bytes_def numeral_2_eq_2 numeral_3_eq_3)
  then show ?thesis by simp
qed

lemma request_arrives:
  assumes "servable q" and "arrives b r (request_encode q @ rest) tail" and "rd_now r < b" and "b \<le> dl"
  shows "\<exists>r'. read_request dl r = (Ok (Some q), r') \<and> arrives b r' rest tail
     \<and> rd_now r \<le> rd_now r' \<and> rd_now r' < b"
proof -
  have snd: "sendable q" and len: "length (request_line q) \<le> MAX_LINE_LENGTH" and url: "req_url q \<noteq> []"
    using assms(1) by (auto simp: servable_def)
  have "arrives b r (request_line q @ LF # request_tail q @ rest) tail"
    using assms(2) by (simp add: request_encode_line)
  from line_arrives [OF this sendable_line [OF snd] len assms(3,4)]
  obtain r1 where r1: "read_bounded_line_until dl r = (Ok (Some (request_line q @ [LF])), r1)"
    "arrives b r1 (request_tail q @ rest) tail" "rd_now r \<le> rd_now r1" "rd_now r1 < b" by blast
  show ?thesis
  proof (cases q)
    case (Get u tag)
    have "split_once sentinel (drop 4 (request_line q)) = map_option (\<lambda>t. (u, t)) tag"
      using Get snd by (cases tag) (simp_all add: wire_simps)
    moreover have "prefix ''GET '' (request_line q)" "drop 4 (request_line q) \<noteq> []"
      using Get url by (cases tag; simp)+
    moreover have "tag = None \<Longrightarrow> drop 4 (request_line q) = u" using Get by simp
    ultimately have "read_request dl r = (Ok (Some q), r1)"
      using r1(1) trim_request_line [OF assms(1)] Get
      by (cases tag) (simp_all add: read_request_def Let_def)
    with r1 Get show ?thesis by auto
  next
    case (Post u body)
    let ?n = "to_be_bytes (of_nat (length body) :: u32)"
    have body: "length body \<le> MAX_BODY_SIZE" using assms(1) Post by (simp add: servable_def)
    have "arrives b r1 (?n @ body @ rest) tail" using r1(2) Post by simp
    from exact_arrives [OF this _ r1(4) assms(4), of 4] obtain r2 where
      r2: "read_exact_until 4 dl r1 = (Ok ?n, r2)" "arrives b r2 (body @ rest) tail" "rd_now r1 \<le> rd_now r2" "rd_now r2 < b"
      by auto
    from exact_arrives [OF r2(2) refl r2(4) assms(4)] obtain r3 where
      r3: "read_exact_until (length body) dl r2 = (Ok body, r3)" "arrives b r3 rest tail" "rd_now r2 \<le> rd_now r3"
        "rd_now r3 < b" by auto
    have n: "unat (of_nat (length body) :: u32) = length body"
      using body by (simp add: unat_of_nat MAX_BODY_SIZE_def)
    have "\<not> prefix ''GET '' (request_line q)" "prefix ''POST '' (request_line q)" "drop 5 (request_line q) = u" "u \<noteq> []"
      using Post url by simp_all
    then have "read_request dl r = (Ok (Some q), r3)"
      using r1(1) r2(1) r3(1) trim_request_line [OF assms(1)] Post body
      by (simp add: read_request_def Let_def be_bytes_read [unfolded One_nat_def] n)
    with r1 r2 r3 show ?thesis by auto
  qed
qed

text \<open>
  The server reads the request that the client sent. When the bytes of an encoded request
  arrive before the deadline, cut by TCP at arbitrary places and with pauses in which the poll
  timeout of the socket fires any number of times, \<open>read_request\<close> returns exactly that request
  (a GET, with or without an etag, or a POST with its body) and leaves what follows it for the
  next call.
\<close>

theorem server_reads_request:
  assumes "servable q" and "arrives b r (request_encode q @ rest) tail" and "rd_now r < b" and "b \<le> deadline"
  shows "\<exists>r'. read_request deadline r = (Ok (Some q), r') \<and> arrives b r' rest tail"
  using request_arrives [OF assms] by blast

definition sample_request :: Request where
  "sample_request = Get ''http://a.b/'' (Some ''abc'')"

definition sample_reader :: Reader where
  "sample_reader =
     \<lparr>rd_buf = [],
      rd_sock = \<lparr>rx = segments [(40000, ''GET http://a.''), (100000, ''b/ IF-NONE-MATCH abc'' @ [LF])],
                 written = [], wr_results = []\<rparr>,
      rd_now = 0\<rparr>"

theorem server_reads_request_witness:
  "\<exists>r'. read_request 300000 sample_reader = (Ok (Some sample_request), r') \<and> arrives 200000 r' [] []"
proof -
  have "servable sample_request"
    by (simp add: servable_def sample_request_def sentinel_def MAX_LINE_LENGTH_def ascii_ink_def
        is_ascii_ws_def in_range_def LF_def is_ascii_def)
  moreover have "arrives 200000 sample_reader (request_encode sample_request @ []) []"
    by (auto simp: arrives_def sample_reader_def sample_request_def timely_def sentinel_def
        intro!: exI [of _ "[(40000, ''GET http://a.''), (100000, ''b/ IF-NONE-MATCH abc'' @ [LF])]"])
  ultimately show ?thesis
    using server_reads_request [of sample_request 200000 sample_reader "[]" "[]" 300000]
    by (simp add: sample_reader_def)
qed

section \<open>Bounds\<close>

lemma read_until_shape:
  "LF \<notin> set buf \<Longrightarrow> read_until limit buf r = (res, buf', r') \<Longrightarrow>
     LF \<notin> set buf' \<or> (\<exists>l. buf' = l @ [LF] \<and> LF \<notin> set l)"
proof (induction limit buf r rule: read_until.induct)
  case (1 limit buf r)
  show ?case
  proof (cases "limit = 0")
    case True
    with "1.prems" show ?thesis by (simp add: read_until.simps [of 0])
  next
    case lim: False
    obtain f r1 where f: "fill_buf r = (f, r1)" by fastforce
    show ?thesis
    proof (cases f)
      case (Inl e)
      with "1.prems" f lim show ?thesis by (simp add: read_until.simps [of limit])
    next
      case (Inr bs)
      let ?a = "take limit bs"
      show ?thesis
      proof (cases "position (\<lambda>b. b = LF) ?a")
        case (Some i)
        note p = position_SomeD [OF Some]
        have "take (i + 1) ?a = take i ?a @ [LF]" 
          using p take_Suc_conv_app_nth [of i ?a] by (simp del: nth_take take_take)
        then have "buf' = (buf @ take i ?a) @ [LF]"
          using "1.prems"(2) f lim Inr Some by (simp add: read_until.simps [of limit])
        moreover have "LF \<notin> set (buf @ take i ?a)" using p "1.prems"(1) by auto
        ultimately show ?thesis by blast
      next
        case None
        show ?thesis
        proof (cases "?a = []")
          case True
          with "1.prems" f lim Inr None show ?thesis by (simp add: read_until.simps [of limit])
        next
          case False
          have "read_until (limit - length ?a) (buf @ ?a) (consume (length ?a) r1) = (res, buf', r')"
            using "1.prems"(2) f lim Inr None False by (simp add: read_until.simps [of limit] Let_def)
          moreover have "LF \<notin> set (buf @ ?a)" using None "1.prems"(1) by (auto simp: position_None_iff)
          ultimately show ?thesis using "1.IH" [OF lim f [symmetric] Inr refl None False] by blast
        qed
      qed
    qed
  qed
qed

definition one_line :: "bytes \<Rightarrow> bool" where
  "one_line s \<longleftrightarrow> s \<noteq> [] \<and> last s = LF \<and> LF \<notin> set (butlast s) \<and> length s \<le> MAX_LINE_LENGTH + 1 \<and> utf8_valid s"

lemma line_result_shape:
  assumes "line_result buf' = Ok (Some s)" and "buf' \<noteq> []" and "last buf' = LF"
    and "LF \<notin> set buf' \<or> (\<exists>l. buf' = l @ [LF] \<and> LF \<notin> set l)" and "length buf' \<le> MAX_LINE_LENGTH + 1"
  shows "one_line s"
proof -
  from assms(1) have "s = buf'" "utf8_valid s"
    by (auto simp: line_result_def from_utf8_def split: if_splits)
  with assms(2-5) show ?thesis by (auto simp: one_line_def dest: in_set_butlastD)
qed

lemma line_loop_shape:
  "LF \<notin> set buf \<Longrightarrow> length buf \<le> MAX_LINE_LENGTH + 1 \<Longrightarrow> line_loop dl buf r = (Ok (Some s), r') \<Longrightarrow> one_line s"
proof (induction dl buf r rule: line_loop.induct)
  case (1 dl buf r)
  let ?n = "MAX_LINE_LENGTH + 1 - length buf"
  have now: "\<not> dl \<le> rd_now r" and n: "?n \<noteq> 0"
    using "1.prems"(3) by (auto simp: line_loop.simps [of dl buf r] split: if_splits)
  obtain res buf1 r1 where ru: "read_until ?n buf r = (res, buf1, r1)" by (metis surj_pair)
  note shape = read_until_shape [OF "1.prems"(1) ru]
  have len: "length buf1 \<le> MAX_LINE_LENGTH + 1" using read_until_progress [OF ru] "1.prems"(2) by auto
  note unf = "1.prems"(3) [unfolded line_loop.simps [of dl buf r] Let_def if_not_P [OF now] if_not_P [OF n] ru prod.case]
  have lf: "LF \<notin> set buf1" if "\<not> (buf1 \<noteq> [] \<and> last buf1 = LF)" using shape that by auto
  show ?case
  proof (cases res)
    case (Inl e)
    then consider "line_result buf1 = Ok (Some s)" "buf1 \<noteq> []" "last buf1 = LF"
      | "io_kind e = WouldBlock \<or> io_kind e = TimedOut" "\<not> (buf1 \<noteq> [] \<and> last buf1 = LF)"
        "line_loop dl buf1 r1 = (Ok (Some s), r')"
      using unf by (auto split: if_splits)
    then show ?thesis
    proof cases
      case 1
      then show ?thesis using line_result_shape shape len by blast
    next
      case 2
      then show ?thesis
        using "1.IH"(1) [OF now refl refl n ru [symmetric] Inl refl 2(1,2) lf [OF 2(2)] len] by blast
    qed
  next
    case (Inr u)
    then consider "line_result buf1 = Ok (Some s)" "last buf1 = LF" "buf1 \<noteq> buf"
      | "buf1 \<noteq> buf" "last buf1 \<noteq> LF" "\<not> MAX_LINE_LENGTH + 1 \<le> length buf1" "line_loop dl buf1 r1 = (Ok (Some s), r')"
      using unf by (auto split: if_splits)
    then show ?thesis
    proof cases
      case 1
      then have "buf1 \<noteq> []" using read_until_progress [OF ru] by auto
      then show ?thesis using 1 line_result_shape shape len by blast
    next
      case 2
      then show ?thesis
        using "1.IH"(2) [OF now refl refl n ru [symmetric] Inr refl 2(1-3) lf len] by blast
    qed
  qed
qed

text \<open>
  A line is bounded, whatever the peer does. Whatever bytes, errors and pauses the socket
  delivers, the line reader returns, and a line it returns is one line: it ends in its only line
  feed, it is valid UTF-8, and it has at most \<open>MAX_LINE_LENGTH\<close> bytes before the line feed.
\<close>

theorem line_is_bounded:
  "case fst (read_bounded_line_until deadline r) of
     Inr (Some s) \<Rightarrow> \<exists>l. s = l @ [LF] \<and> LF \<notin> set l \<and> length l \<le> MAX_LINE_LENGTH \<and> utf8_valid s
   | _ \<Rightarrow> True"
proof -
  obtain res r' where rd: "read_bounded_line_until deadline r = (res, r')" by fastforce
  have "\<exists>l. s = l @ [LF] \<and> LF \<notin> set l \<and> length l \<le> MAX_LINE_LENGTH \<and> utf8_valid s" if "res = Ok (Some s)" for s
  proof -
    have "one_line s"
      using line_loop_shape [of "[]" deadline r s r'] rd that by (simp add: read_bounded_line_until_def)
    then show ?thesis by (cases s rule: rev_cases) (auto simp: one_line_def)
  qed
  with rd show ?thesis by (auto split: sum.split option.split)
qed

section \<open>Sizes and frames\<close>

text \<open>What is still to come on the connection; every line that is read lowers it.\<close>

definition reader_size :: "Reader \<Rightarrow> nat" where
  "reader_size r = length (rd_buf r) + tcp_size (rd_sock r)"

lemma sock_read_size:
  assumes "sock_read cap r = (res, r')" and "0 < cap"
  shows "tcp_size (rd_sock r') + (case res of Inr bs \<Rightarrow> length bs | Inl e \<Rightarrow> 0) \<le> tcp_size (rd_sock r)"
    and "rd_buf r' = rd_buf r" and "written (rd_sock r') = written (rd_sock r)"
    and "wr_results (rd_sock r') = wr_results (rd_sock r)"
proof -
  obtain rr st now where t: "tcp_read cap (rd_now r + READ_POLL_SECS * 1000) (rd_sock r) (rd_now r) = (rr, st, now)"
    by (metis surj_pair)
  then have r': "r' = r\<lparr>rd_sock := st, rd_now := now\<rparr>" and res: "case rr of ReadData bs \<Rightarrow> res = Ok bs | _ \<Rightarrow> (\<forall>bs. res = Ok bs \<longrightarrow> bs = [])"
    using assms(1) by (auto simp: sock_read_def split: read_result.splits)
  show "tcp_size (rd_sock r') + (case res of Inr bs \<Rightarrow> length bs | Inl e \<Rightarrow> 0) \<le> tcp_size (rd_sock r)"
    using res r' tcp_read_size [OF t] tcp_read_data(1) [OF _ assms(2)] t
    by (auto split: read_result.splits sum.splits)
  show "rd_buf r' = rd_buf r" "written (rd_sock r') = written (rd_sock r)" "wr_results (rd_sock r') = wr_results (rd_sock r)"
    using r' tcp_read_frame [OF t] by simp_all
qed

text \<open>Reading neither writes nor gains bytes.\<close>

definition reads_on :: "Reader \<Rightarrow> Reader \<Rightarrow> bool" where
  "reads_on r r' \<longleftrightarrow>
     reader_size r' \<le> reader_size r \<and> written (rd_sock r') = written (rd_sock r)
     \<and> wr_results (rd_sock r') = wr_results (rd_sock r) \<and> rd_now r \<le> rd_now r'"

lemma reads_on_refl [simp]: "reads_on r r"
  by (simp add: reads_on_def)

lemma reads_on_trans: "reads_on r s \<Longrightarrow> reads_on s t \<Longrightarrow> reads_on r t"
  by (simp add: reads_on_def)

lemma fill_buf_reads:
  assumes "fill_buf r = (res, r')"
  shows "reads_on r r'" and "res = Ok bs \<Longrightarrow> rd_buf r' = bs"
proof -
  have cap: "0 < BUF_CAPACITY" by (simp add: BUF_CAPACITY_def)
  show "reads_on r r'"
  proof (cases "rd_buf r = []")
    case False
    with assms show ?thesis by (simp add: fill_buf_def)
  next
    case True
    obtain x r1 where x: "sock_read BUF_CAPACITY r = (x, r1)" by fastforce
    then have r': "r' = (case x of Inr bs \<Rightarrow> r1\<lparr>rd_buf := bs\<rparr> | Inl e \<Rightarrow> r1)"
      using assms True by (auto simp: fill_buf_def split: sum.splits)
    show ?thesis
      using sock_read_size [OF x cap] sock_read_clock(1) [OF x] True unfolding r'
      by (auto simp: reads_on_def reader_size_def split: sum.splits)
  qed
  show "res = Ok bs \<Longrightarrow> rd_buf r' = bs" using fill_buf_clock [OF assms] by blast
qed

lemma consume_reads: "n \<le> length (rd_buf r) \<Longrightarrow> reads_on r (consume n r) \<and> reader_size (consume n r) + n = reader_size r"
  by (simp add: reads_on_def reader_size_def consume_def)

lemma read_until_reads:
  "read_until limit buf r = (res, buf', r') \<Longrightarrow>
     reads_on r r' \<and> reader_size r' + length buf' \<le> reader_size r + length buf"
proof (induction limit buf r rule: read_until.induct)
  case (1 limit buf r)
  show ?case
  proof (cases "limit = 0")
    case True
    with "1.prems" show ?thesis by (simp add: read_until.simps [of 0])
  next
    case lim: False
    obtain f r1 where f: "fill_buf r = (f, r1)" by fastforce
    note fr = fill_buf_reads [OF f]
    show ?thesis
    proof (cases f)
      case (Inl e)
      with "1.prems" f lim fr(1) show ?thesis by (simp add: read_until.simps [of limit] reads_on_def)
    next
      case (Inr bs)
      let ?a = "take limit bs"
      have b: "rd_buf r1 = bs" using fr(2) Inr by simp
      show ?thesis
      proof (cases "position (\<lambda>b. b = LF) ?a")
        case (Some i)
        then have i: "i < length ?a" using position_SomeD by blast
        have out: "buf' = buf @ take (i + 1) ?a" "r' = consume (i + 1) r1"
          using "1.prems" f lim Inr Some by (simp_all add: read_until.simps [of limit])
        have "i + 1 \<le> length (rd_buf r1)" "length (take (i + 1) ?a) = i + 1" using i b by simp_all
        then show ?thesis
          using consume_reads [of "i + 1" r1] fr(1) reads_on_trans unfolding out by (auto simp: reads_on_def)
      next
        case None
        show ?thesis
        proof (cases "?a = []")
          case True
          with "1.prems" f lim Inr None fr(1) show ?thesis by (auto simp: read_until.simps [of limit] reads_on_def)
        next
          case False
          have rec: "read_until (limit - length ?a) (buf @ ?a) (consume (length ?a) r1) = (res, buf', r')"
            using "1.prems" f lim Inr None False by (simp add: read_until.simps [of limit] Let_def)
          have "length ?a \<le> length (rd_buf r1)" using b by simp
          with "1.IH" [OF lim f [symmetric] Inr refl None False rec] consume_reads [of "length ?a" r1] fr(1)
          show ?thesis by (auto simp: reads_on_def)
        qed
      qed
    qed
  qed
qed

lemma line_loop_reads:
  "line_loop dl buf r = (res, r') \<Longrightarrow>
     reads_on r r' \<and> (\<forall>s. res = Ok (Some s) \<longrightarrow> reader_size r' + length s \<le> reader_size r + length buf)"
proof (induction dl buf r rule: line_loop.induct)
  case (1 dl buf r)
  show ?case
  proof (cases "dl \<le> rd_now r \<or> MAX_LINE_LENGTH + 1 - length buf = 0")
    case True
    with "1.prems" show ?thesis by (auto simp: line_loop.simps [of dl buf r] Let_def split: if_splits)
  next
    case False
    then have now: "\<not> dl \<le> rd_now r" and n: "MAX_LINE_LENGTH + 1 - length buf \<noteq> 0" by auto
    obtain x buf1 r1 where ru: "read_until (MAX_LINE_LENGTH + 1 - length buf) buf r = (x, buf1, r1)" by (metis surj_pair)
    note rd = read_until_reads [OF ru]
    note unf = "1.prems" [unfolded line_loop.simps [of dl buf r] Let_def if_not_P [OF now] if_not_P [OF n] ru prod.case]
    have lr: "line_result b = Ok (Some s) \<Longrightarrow> s = b" for b s
      by (auto simp: line_result_def from_utf8_def split: if_splits)
    have fin: ?thesis if "r' = r1" "\<forall>s. res = Ok (Some s) \<longrightarrow> s = buf1" using rd that by auto
    have rec: ?thesis if "reads_on r1 r' \<and> (\<forall>s. res = Ok (Some s) \<longrightarrow> reader_size r' + length s \<le> reader_size r1 + length buf1)"
      using rd that reads_on_trans [of r r1 r'] by fastforce
    show ?thesis
    proof (cases x)
      case (Inl e)
      show ?thesis
      proof (cases "(io_kind e = WouldBlock \<or> io_kind e = TimedOut) \<and> \<not> (buf1 \<noteq> [] \<and> last buf1 = LF)")
        case True
        then have "line_loop dl buf1 r1 = (res, r')" using unf Inl by (auto split: if_splits)
        with True show ?thesis
          using rec "1.IH"(1) [OF now refl refl n ru [symmetric] Inl refl] by blast
      next
        case False
        then show ?thesis using unf Inl fin lr by (auto split: if_splits)
      qed
    next
      case (Inr u)
      show ?thesis
      proof (cases "buf1 \<noteq> buf \<and> last buf1 \<noteq> LF \<and> \<not> MAX_LINE_LENGTH + 1 \<le> length buf1")
        case True
        then have "line_loop dl buf1 r1 = (res, r')" using unf Inr by (auto split: if_splits)
        with True show ?thesis
          using rec "1.IH"(2) [OF now refl refl n ru [symmetric] Inr refl] by blast
      next
        case False
        then show ?thesis using unf Inr fin lr by (auto split: if_splits)
      qed
    qed
  qed
qed

lemma line_reads:
  assumes "read_bounded_line_until dl r = (res, r')"
  shows "reads_on r r'" and "res = Ok (Some s) \<Longrightarrow> reader_size r' < reader_size r"
proof -
  have l: "line_loop dl [] r = (res, r')" using assms by (simp add: read_bounded_line_until_def)
  note rd = line_loop_reads [OF l]
  then show "reads_on r r'" by simp
  assume "res = Ok (Some s)"
  then have "one_line s" using line_loop_shape [of "[]" dl r s r'] l by simp
  then have "0 < length s" by (simp add: one_line_def)
  moreover have "reader_size r' + length s \<le> reader_size r" using rd \<open>res = Ok (Some s)\<close> by simp
  ultimately show "reader_size r' < reader_size r" by linarith
qed

lemma buf_read_reads:
  assumes "buf_read n r = (res, r')" and "0 < n"
  shows "reads_on r r'"
proof (cases "rd_buf r = [] \<and> BUF_CAPACITY \<le> n")
  case True
  then have s: "sock_read n r = (res, r')" using assms by (simp add: buf_read_def)
  show ?thesis
    using sock_read_size [OF s assms(2)] sock_read_clock(1) [OF s] by (auto simp: reads_on_def reader_size_def)
next
  case False
  obtain f r1 where f: "fill_buf r = (f, r1)" by fastforce
  have "reads_on r1 (consume n r1)" by (auto simp: reads_on_def reader_size_def consume_def)
  moreover have "r' = r1 \<or> r' = consume n r1"
    using assms(1) False f by (auto simp: buf_read_def split: sum.splits)
  ultimately show ?thesis using fill_buf_reads(1) [OF f] reads_on_trans by blast
qed

lemma exact_loop_reads: "exact_loop len dl buf r = (res, r') \<Longrightarrow> reads_on r r'"
proof (induction len dl buf r rule: exact_loop.induct)
  case (1 len dl buf r)
  show ?case
  proof (cases "len \<le> length buf \<or> dl \<le> rd_now r")
    case True
    with "1.prems" show ?thesis by (auto simp: exact_loop.simps [of len dl buf r] split: if_splits)
  next
    case False
    then have c: "\<not> len \<le> length buf" "\<not> dl \<le> rd_now r" by auto
    obtain x r1 where b: "buf_read (len - length buf) r = (x, r1)" by fastforce
    have r1: "reads_on r r1" using buf_read_reads [OF b] c by simp
    note unf = "1.prems" [unfolded exact_loop.simps [of len dl buf r] if_not_P [OF c(1)] if_not_P [OF c(2)] b prod.case]
    have "reads_on r1 r'"
    proof (cases x)
      case (Inl e)
      with unf "1.IH"(1) [OF c b [symmetric] Inl] show ?thesis by (auto split: if_splits)
    next
      case (Inr bs)
      with unf "1.IH"(2) [OF c b [symmetric] Inr] show ?thesis by (auto split: if_splits)
    qed
    with r1 show ?thesis by (rule reads_on_trans)
  qed
qed

lemma read_request_reads:
  assumes "read_request dl r = (res, r')"
  shows "reads_on r r'" and "res = Ok (Some q) \<Longrightarrow> reader_size r' < reader_size r"
proof -
  obtain l r1 where l: "read_bounded_line_until dl r = (l, r1)" by fastforce
  note lr = line_reads [OF l]
  have ex: "read_exact_until n dl ra = (x, rb) \<Longrightarrow> reads_on ra rb" for n ra x rb
    by (auto simp: read_exact_until_def dest: exact_loop_reads)
  have r1: "reads_on r1 r'"
    using assms l
    by (auto simp: read_request_def Let_def split: sum.splits option.splits if_splits prod.splits
        dest!: ex intro: reads_on_trans)
  with lr(1) show "reads_on r r'" by (rule reads_on_trans)
  assume "res = Ok (Some q)"
  then obtain s where "l = Ok (Some s)"
    using assms l by (auto simp: read_request_def split: sum.splits option.splits)
  then show "reader_size r' < reader_size r" using lr(2) r1 by (force simp: reads_on_def)
qed

section \<open>The deadline and a slow peer\<close>

text \<open>A peer that sends one byte every 29 seconds.\<close>

fun dribble :: "nat \<Rightarrow> nat \<Rightarrow> (nat \<times> rx_event) list" where
  "dribble t 0 = [(t + 29000, RxBytes [LF])]"
| "dribble t (Suc n) = (t + 29000, RxBytes ''A'') # dribble (t + 29000) n"

definition slow_peer :: "nat \<Rightarrow> Reader" where
  "slow_peer n = \<lparr>rd_buf = [], rd_sock = \<lparr>rx = dribble 0 n, written = [], wr_results = []\<rparr>, rd_now = 0\<rparr>"

lemma fill_buf_dribble:
  assumes "rd_buf r = []" and "rx (rd_sock r) = (rd_now r + 29000, RxBytes [c]) # more_rx"
  shows "fill_buf r = (Ok [c], r\<lparr>rd_buf := [c], rd_sock := (rd_sock r)\<lparr>rx := more_rx\<rparr>, rd_now := rd_now r + 29000\<rparr>)"
  using assms
  by (simp add: fill_buf_def sock_read_def tcp_read.simps READ_POLL_SECS_def BUF_CAPACITY_def)

lemma read_until_dribble:
  "rd_buf r = [] \<Longrightarrow> rx (rd_sock r) = dribble (rd_now r) n \<Longrightarrow> n < limit \<Longrightarrow>
     \<exists>r'. read_until limit buf r = (Ok (), buf @ replicate n (CHR ''A'') @ [LF], r') \<and> rd_now r' = rd_now r + 29000 * (n + 1)"
proof (induction n arbitrary: limit buf r)
  case 0
  then show ?case
    using fill_buf_dribble [of r LF "[]"] by (auto simp: read_until.simps [of limit] consume_def)
next
  case (Suc n)
  let ?t = "rd_now r + 29000"
  let ?r = "r\<lparr>rd_sock := (rd_sock r)\<lparr>rx := dribble ?t n\<rparr>, rd_now := ?t, rd_buf := []\<rparr>"
  have "read_until limit buf r = read_until (limit - 1) (buf @ ''A'') ?r"
    using fill_buf_dribble [of r "CHR ''A''" "dribble ?t n"] Suc.prems
    by (simp add: read_until.simps [of limit] consume_def LF_def take_Cons')
  moreover have "n < limit - 1" using Suc.prems(3) by simp
  ultimately show ?case
    using Suc.IH [of ?r "limit - 1" "buf @ ''A''"] by (simp add: algebra_simps)
qed

text \<open>
  The deadline does not stop a slow peer. \<open>read_until\<close> blocks for the rest of a line without
  looking at the deadline, which is only checked when a poll times out. A peer that sends one
  byte every 29 seconds never lets a poll time out: its line is accepted however far past the
  deadline it ends, up to \<open>29 * (MAX_LINE_LENGTH + 1)\<close> seconds, more than eight hours.
\<close>

theorem slow_line_outlives_deadline:
  assumes "n \<le> MAX_LINE_LENGTH" and "0 < deadline"
  shows "\<exists>r'. read_bounded_line_until deadline (slow_peer n)
       = (Ok (Some (replicate n (CHR ''A'') @ [LF])), r') \<and> rd_now r' = 29000 * (n + 1)"
proof -
  obtain r' where r': "read_until (MAX_LINE_LENGTH + 1) [] (slow_peer n) = (Ok (), replicate n (CHR ''A'') @ [LF], r')"
    "rd_now r' = 29000 * (n + 1)"
    using read_until_dribble [of "slow_peer n" n "MAX_LINE_LENGTH + 1" "[]"] assms(1) by (auto simp: slow_peer_def)
  have "utf8_valid (replicate n (CHR ''A'') @ [LF])" by (rule utf8_valid_ascii) (auto simp: is_ascii_def LF_def)
  then have "line_loop deadline [] (slow_peer n) = (Ok (Some (replicate n (CHR ''A'') @ [LF])), r')"
    using r' assms(2) by (simp add: line_loop.simps [of deadline] slow_peer_def line_result_def from_utf8_def)
  with r'(2) show ?thesis by (simp add: read_bounded_line_until_def)
qed

theorem slow_line_outlives_deadline_witness:
  "\<exists>r'. read_bounded_line_until (PRE_AUTH_TIMEOUT_SECS * 1000) (slow_peer 1024)
       = (Ok (Some (replicate 1024 (CHR ''A'') @ [LF])), r') \<and> rd_now r' = 29725000"
  using slow_line_outlives_deadline [of 1024 "PRE_AUTH_TIMEOUT_SECS * 1000"]
  by (simp add: MAX_LINE_LENGTH_def PRE_AUTH_TIMEOUT_SECS_def)

end
