(* ===== verification/Ip_Addr.thy ===== *)
theory Ip_Addr
  imports Rust_Str
begin

text \<open>
  IP addresses as the standard library has them: an IPv4 address is a 32-bit word, an IPv6
  address a 128-bit word, both with the most significant octet first. The parsers follow
  \<open>core::net::parser\<close> (each reader either consumes a prefix of its input or fails and consumes
  nothing), the printers the \<open>Display\<close> instances.
\<close>

section \<open>Addresses\<close>

type_synonym Ipv4Addr = "32 word"
type_synonym Ipv6Addr = "128 word"

datatype IpAddr = V4 Ipv4Addr | V6 Ipv6Addr

definition octet4 :: "nat \<Rightarrow> Ipv4Addr \<Rightarrow> 8 word" where
  "octet4 k ip = ucast (drop_bit (8 * (3 - k)) ip)"

definition octet6 :: "nat \<Rightarrow> Ipv6Addr \<Rightarrow> 8 word" where
  "octet6 k ip = ucast (drop_bit (8 * (15 - k)) ip)"

definition segment6 :: "nat \<Rightarrow> Ipv6Addr \<Rightarrow> 16 word" where
  "segment6 k ip = ucast (drop_bit (16 * (7 - k)) ip)"

definition ipv4_new :: "8 word \<Rightarrow> 8 word \<Rightarrow> 8 word \<Rightarrow> 8 word \<Rightarrow> Ipv4Addr" where
  "ipv4_new a b c d =
     push_bit 24 (ucast a) + push_bit 16 (ucast b) + push_bit 8 (ucast c) + ucast d"

definition ipv6_of_segments :: "16 word list \<Rightarrow> Ipv6Addr" where
  "ipv6_of_segments segs = foldl (\<lambda>acc s. push_bit 16 acc + ucast s) 0 segs"

definition is_loopback6 :: "Ipv6Addr \<Rightarrow> bool" where "is_loopback6 ip \<longleftrightarrow> ip = 1"
definition is_unspecified6 :: "Ipv6Addr \<Rightarrow> bool" where "is_unspecified6 ip \<longleftrightarrow> ip = 0"
definition is_multicast6 :: "Ipv6Addr \<Rightarrow> bool" where "is_multicast6 ip \<longleftrightarrow> octet6 0 ip = 0xFF"

definition to_ipv4_mapped :: "Ipv6Addr \<Rightarrow> Ipv4Addr option" where
  "to_ipv4_mapped ip =
     (if drop_bit 32 ip = 0xFFFF then Some (ucast ip) else None)"

section \<open>Parsing\<close>

definition digit_value :: "int \<Rightarrow> byte \<Rightarrow> int option" where
  "digit_value radix b =
     (let v = (if is_ascii_digit b then of_char b - 48
               else if is_ascii_lower b then of_char b - 87
               else if is_ascii_upper b then of_char b - 55
               else radix)
      in if v < radix then Some v else None)"

text \<open>\<open>read_number\<close>: the digits, greedily; more digits than allowed, a value that does not
  fit, no digit at all or a forbidden leading zero fail.\<close>

fun number_digits :: "int \<Rightarrow> bytes \<Rightarrow> int list \<times> bytes" where
  "number_digits radix [] = ([], [])"
| "number_digits radix (b # bs) =
     (case digit_value radix b of
        None \<Rightarrow> ([], b # bs)
      | Some v \<Rightarrow> (case number_digits radix bs of (ds, rest) \<Rightarrow> (v # ds, rest)))"

definition read_number :: "int \<Rightarrow> nat \<Rightarrow> bool \<Rightarrow> int \<Rightarrow> bytes \<Rightarrow> (int \<times> bytes) option" where
  "read_number radix max_digits allow_zero_prefix bound s =
     (case number_digits radix s of (ds, rest) \<Rightarrow>
        let n = foldl (\<lambda>acc d. acc * radix + d) 0 ds in
        if ds = [] \<or> max_digits < length ds \<or> bound < n
           \<or> \<not> allow_zero_prefix \<and> 1 < length ds \<and> hd ds = 0
        then None else Some (n, rest))"

definition read_given_char :: "byte \<Rightarrow> bytes \<Rightarrow> bytes option" where
  "read_given_char c s = (case s of [] \<Rightarrow> None | b # r \<Rightarrow> if b = c then Some r else None)"

definition read_separator :: "byte \<Rightarrow> nat \<Rightarrow> (bytes \<Rightarrow> ('a \<times> bytes) option) \<Rightarrow> bytes \<Rightarrow> ('a \<times> bytes) option" where
  "read_separator sep i inner s =
     (if 0 < i then Option.bind (read_given_char sep s) inner else inner s)"

fun read_octets :: "nat \<Rightarrow> nat \<Rightarrow> bytes \<Rightarrow> (8 word list \<times> bytes) option" where
  "read_octets 0 i s = Some ([], s)"
| "read_octets (Suc n) i s =
     Option.bind (read_separator (CHR ''.'') i (read_number 10 3 False 255) s) (\<lambda>(v, s1).
     map_option (\<lambda>(vs, s2). (of_int v # vs, s2)) (read_octets n (Suc i) s1))"

definition read_ipv4_addr :: "bytes \<Rightarrow> (Ipv4Addr \<times> bytes) option" where
  "read_ipv4_addr s =
     (case read_octets 4 0 s of
        Some ([a, b, c, d], rest) \<Rightarrow> Some (ipv4_new a b c d, rest)
      | _ \<Rightarrow> None)"

definition parse_ipv4 :: "bytes \<Rightarrow> Ipv4Addr option" where
  "parse_ipv4 s =
     (if 15 < length s then None
      else case read_ipv4_addr s of Some (ip, []) \<Rightarrow> Some ip | _ \<Rightarrow> None)"

text \<open>\<open>read_groups\<close>: at most \<open>n\<close> groups from position \<open>i\<close> on; the flag tells that the last two
  were an embedded IPv4 address.\<close>

fun read_groups :: "nat \<Rightarrow> nat \<Rightarrow> bytes \<Rightarrow> 16 word list \<times> bool \<times> bytes" where
  "read_groups 0 i s = ([], False, s)"
| "read_groups (Suc n) i s =
     (case (if 0 < n then read_separator (CHR '':'') i read_ipv4_addr s else None) of
        Some (v4, s1) \<Rightarrow> ([ucast (drop_bit 16 v4), ucast v4], True, s1)
      | None \<Rightarrow>
          (case read_separator (CHR '':'') i (read_number 16 4 True 65535) s of
             None \<Rightarrow> ([], False, s)
           | Some (g, s1) \<Rightarrow>
               (case read_groups n (Suc i) s1 of (gs, v4, s2) \<Rightarrow> (of_int g # gs, v4, s2))))"

definition read_ipv6_addr :: "bytes \<Rightarrow> (Ipv6Addr \<times> bytes) option" where
  "read_ipv6_addr s =
     (case read_groups 8 0 s of (head, head_v4, s1) \<Rightarrow>
        if length head = 8 then Some (ipv6_of_segments head, s1)
        else if head_v4 then None
        else
          Option.bind (read_given_char (CHR '':'') s1) (\<lambda>s2.
          Option.bind (read_given_char (CHR '':'') s2) (\<lambda>s3.
          case read_groups (8 - (length head + 1)) 0 s3 of (tail, _, s4) \<Rightarrow>
            Some (ipv6_of_segments (head @ replicate (8 - length head - length tail) 0 @ tail), s4))))"

definition parse_ipv6 :: "bytes \<Rightarrow> Ipv6Addr option" where
  "parse_ipv6 s = (case read_ipv6_addr s of Some (ip, []) \<Rightarrow> Some ip | _ \<Rightarrow> None)"

text \<open>\<open>str::parse::<IpAddr>()\<close>: an IPv4 address, or else an IPv6 address.\<close>

definition parse_ip :: "bytes \<Rightarrow> IpAddr option" where
  "parse_ip s =
     (case read_ipv4_addr s of
        Some (ip, r) \<Rightarrow> (if r = [] then Some (V4 ip) else None)
      | None \<Rightarrow> map_option V6 (parse_ipv6 s))"

section \<open>Printing\<close>

definition ipv4_to_string :: "Ipv4Addr \<Rightarrow> bytes" where
  "ipv4_to_string ip =
     nat_to_string (unat (octet4 0 ip)) @ ''.'' @ nat_to_string (unat (octet4 1 ip)) @ ''.''
     @ nat_to_string (unat (octet4 2 ip)) @ ''.'' @ nat_to_string (unat (octet4 3 ip))"

fun nat_to_hex :: "nat \<Rightarrow> bytes" where
  "nat_to_hex n =
     (if n < 16 then [''0123456789abcdef'' ! n]
      else nat_to_hex (n div 16) @ [''0123456789abcdef'' ! (n mod 16)])"

declare nat_to_hex.simps [simp del]

fun join_colon :: "nat list \<Rightarrow> bytes" where
  "join_colon [] = []"
| "join_colon [x] = nat_to_hex x"
| "join_colon (x # y # r) = nat_to_hex x @ '':'' @ join_colon (y # r)"

text \<open>The first longest run of zero segments (start, length): \<open>cur\<close> is the run being scanned.\<close>

fun zero_run :: "nat \<Rightarrow> nat \<times> nat \<Rightarrow> nat \<times> nat \<Rightarrow> nat list \<Rightarrow> nat \<times> nat" where
  "zero_run i cur best [] = best"
| "zero_run i cur best (s # segs) =
     (if s = 0 then
        (let cur = (if snd cur = 0 then (i, 1) else (fst cur, snd cur + 1));
             best = (if snd best < snd cur then cur else best)
         in zero_run (Suc i) cur best segs)
      else zero_run (Suc i) (0, 0) best segs)"

definition ipv6_to_string :: "Ipv6Addr \<Rightarrow> bytes" where
  "ipv6_to_string ip =
     (case to_ipv4_mapped ip of
        Some v4 \<Rightarrow> ''::ffff:'' @ ipv4_to_string v4
      | None \<Rightarrow>
          let segs = map (\<lambda>k. unat (segment6 k ip)) [0..<8];
              (start, len) = zero_run 0 (0, 0) (0, 0) segs
          in if 1 < len then join_colon (take start segs) @ ''::'' @ join_colon (drop (start + len) segs)
             else join_colon segs)"

fun ip_to_string :: "IpAddr \<Rightarrow> bytes" where
  "ip_to_string (V4 ip) = ipv4_to_string ip"
| "ip_to_string (V6 ip) = ipv6_to_string ip"

end
