(* ===== verification/Blocklist.thy ===== *)
theory Blocklist
  imports Rust_Str
begin

text \<open>
  The domain blocklist of \<open>server/src/blocklist.rs\<close>: hosts-format lists are fetched, parsed and
  held as a set that the URL filter consults. The global \<open>OnceLock<Arc<RwLock<HashSet>>>\<close> is a
  \<open>bytes set option\<close> (\<open>None\<close> before initialisation). An HTTP body is what the client library
  delivers: an error or a list of chunks with an announced length.
\<close>

definition MAX_BLOCKLIST_BYTES :: nat where "MAX_BLOCKLIST_BYTES = 16 * 1024 * 1024"
definition MAX_DOMAIN_LEN :: nat where "MAX_DOMAIN_LEN = 253"

definition init_domain_blocklist :: "bytes set option \<Rightarrow> bytes set option" where
  "init_domain_blocklist bl = (case bl of None \<Rightarrow> Some {} | Some s \<Rightarrow> Some s)"

definition is_domain_blocked :: "bytes set option \<Rightarrow> bytes \<Rightarrow> bool" where
  "is_domain_blocked bl host =
     (case bl of None \<Rightarrow> False | Some s \<Rightarrow> to_ascii_lowercase host \<in> s)"

lemma is_domain_blocked_lower [simp]:
  "is_domain_blocked bl (to_ascii_lowercase host) = is_domain_blocked bl host"
  by (simp add: is_domain_blocked_def split: option.split)

section \<open>Hosts format\<close>

text \<open>\<open>str::lines\<close>: pieces ended by a line feed, each without a trailing carriage return.\<close>

definition strip_cr :: "bytes \<Rightarrow> bytes" where
  "strip_cr l = (if l \<noteq> [] \<and> last l = CR then butlast l else l)"

definition str_lines :: "bytes \<Rightarrow> bytes list" where
  "str_lines s =
     (let ps = split_char LF s in
      map strip_cr (butlast ps) @ (if last ps = [] then [] else [last ps]))"

definition hosts_entry :: "bytes \<Rightarrow> bytes option" where
  "hosts_entry line =
     (let line = trim line in
      if line = [] \<or> prefix ''#'' line then None
      else (case split_whitespace line of
              _ # domain # _ \<Rightarrow>
                if MAX_DOMAIN_LEN < length domain then None
                else if domain = ''localhost'' \<or> domain = ''localhost.localdomain''
                        \<or> domain = ''broadcasthost'' then None
                else Some (to_ascii_lowercase domain)
            | _ \<Rightarrow> None))"

definition hosts_domains :: "bytes \<Rightarrow> bytes set" where
  "hosts_domains body = set (List.map_filter hosts_entry (str_lines body))"

section \<open>Fetching and updating\<close>

datatype http_read = HttpChunk bytes | HttpReadErr

record http_body =
  content_length :: "nat option"
  body_reads :: "http_read list"

datatype BlocklistError = FetchFailed | AnnouncedTooLarge nat | ExceededSize | BadUtf8

fun read_capped :: "bytes \<Rightarrow> http_read list \<Rightarrow> (BlocklistError, bytes) result" where
  "read_capped buf [] = Ok buf"
| "read_capped buf (HttpReadErr # r) = Err FetchFailed"
| "read_capped buf (HttpChunk c # r) =
     (if c = [] then Ok buf
      else if MAX_BLOCKLIST_BYTES < length buf + length c then Err ExceededSize
      else read_capped (buf @ c) r)"

definition fetch_capped :: "http_body option \<Rightarrow> (BlocklistError, bytes) result" where
  "fetch_capped resp =
     (case resp of
        None \<Rightarrow> Err FetchFailed
      | Some b \<Rightarrow>
          (case content_length b of
             Some len \<Rightarrow>
               if MAX_BLOCKLIST_BYTES < len then Err (AnnouncedTooLarge len)
               else res_bind (read_capped [] (body_reads b)) (\<lambda>buf. ok_or (from_utf8 buf) BadUtf8)
           | None \<Rightarrow> res_bind (read_capped [] (body_reads b)) (\<lambda>buf. ok_or (from_utf8 buf) BadUtf8)))"

fun collect_domains :: "bytes set \<Rightarrow> http_body option list \<Rightarrow> (BlocklistError, bytes set) result" where
  "collect_domains acc [] = Ok acc"
| "collect_domains acc (resp # resps) =
     res_bind (fetch_capped resp) (\<lambda>body. collect_domains (acc \<union> hosts_domains body) resps)"

text \<open>\<open>update_blocklist\<close>: the new set replaces the old one only when every list was fetched; the
  argument lists what each URL answers.\<close>

definition update_blocklist ::
  "http_body option list \<Rightarrow> bytes set option \<Rightarrow> (BlocklistError, unit) result \<times> bytes set option" where
  "update_blocklist resps bl =
     (case collect_domains {} resps of
        Inl e \<Rightarrow> (Err e, bl)
      | Inr domains \<Rightarrow> (Ok (), map_option (\<lambda>_. domains) bl))"

text \<open>\<open>start_blocklist_manager\<close>: the first fetch and then one per refresh; each round is one
  list of answers, a failed round is only reported.\<close>

definition start_blocklist_manager ::
  "nat \<Rightarrow> http_body option list list \<Rightarrow> bytes set option \<Rightarrow> bytes set option" where
  "start_blocklist_manager n_urls rounds bl =
     (if n_urls = 0 then bl
      else foldl (\<lambda>bl resps. snd (update_blocklist resps bl)) (init_domain_blocklist bl) rounds)"

section \<open>Laws\<close>

lemma read_capped_bound: "read_capped buf rs = Ok out \<Longrightarrow> length buf \<le> MAX_BLOCKLIST_BYTES
    \<Longrightarrow> length out \<le> MAX_BLOCKLIST_BYTES"
  by (induction buf rs rule: read_capped.induct) (auto split: if_splits)

lemma fetch_capped_bound: "fetch_capped resp = Ok body \<Longrightarrow> length body \<le> MAX_BLOCKLIST_BYTES"
proof -
  have "res_bind (read_capped [] rs) (\<lambda>buf. ok_or (from_utf8 buf) e) = Ok body
      \<Longrightarrow> length body \<le> MAX_BLOCKLIST_BYTES" for rs e
    using read_capped_bound [of "[]" rs]
    by (auto simp: res_bind_Ok_iff from_utf8_def split: if_splits)
  then show "fetch_capped resp = Ok body \<Longrightarrow> length body \<le> MAX_BLOCKLIST_BYTES"
    by (auto simp: fetch_capped_def split: option.splits if_splits)
qed

lemma hosts_entry_lower: "hosts_entry line = Some d \<Longrightarrow> to_ascii_lowercase d = d"
  by (auto simp: hosts_entry_def Let_def split: if_splits list.splits)

lemma collect_domains_spec:
  "collect_domains acc resps = Ok ds \<Longrightarrow>
     ds = acc \<union> (\<Union>r\<in>set resps. case fetch_capped r of Inr body \<Rightarrow> hosts_domains body | Inl e \<Rightarrow> {})"
proof (induction resps arbitrary: acc)
  case Nil
  then show ?case by simp
next
  case (Cons r resps)
  then obtain body where "fetch_capped r = Ok body"
      "collect_domains (acc \<union> hosts_domains body) resps = Ok ds"
    by (auto simp: res_bind_Ok_iff)
  with Cons.IH show ?case by auto
qed

text \<open>
  A blocklist is all or nothing. A refresh in which any list fails to load, is too large or
  is not UTF-8 leaves the set in force unchanged. A refresh that succeeds makes exactly the
  domains of the fetched lists blocked, in whatever letter case a host name is written.
\<close>

theorem blocklist_update_atomic:
  "case update_blocklist resps (Some old) of
     (Inl e, bl) \<Rightarrow> bl = Some old
   | (Inr _, bl) \<Rightarrow> is_domain_blocked bl host \<longleftrightarrow>
       (\<exists>r body. r \<in> set resps \<and> fetch_capped r = Ok body
          \<and> to_ascii_lowercase host \<in> hosts_domains body)"
proof (cases "collect_domains {} resps")
  case (Inl e)
  then show ?thesis by (simp add: update_blocklist_def)
next
  case (Inr ds)
  have "x \<in> ds \<longleftrightarrow> (\<exists>r body. r \<in> set resps \<and> fetch_capped r = Ok body \<and> x \<in> hosts_domains body)" for x
    unfolding collect_domains_spec [OF Inr] by (auto split: sum.splits) (metis Inr_inject sum.distinct(1) obj_sumE)+
  with Inr show ?thesis by (simp add: update_blocklist_def is_domain_blocked_def)
qed

end
