(* ===== verification/Url_Filter.thy ===== *)
theory Url_Filter
  imports Ip_Addr Blocklist
begin

text \<open>
  The URL filter of \<open>server/src/filter.rs\<close>: the server-side request-forgery guard. \<open>Url::parse\<close>
  (the \<open>url\<close> crate) and name resolution are arguments: \<open>url_parse\<close> yields the scheme, host and
  port of a URL, \<open>dns\<close> the addresses of a host name in the order of the resolver.

  The lemmas characterise the CIDR test by integer division, show that everything the filter
  lets through is outside the blocked ranges, and pin down which IPv6 addresses are covered.
\<close>

unbundle bit_operations_syntax

section \<open>Data\<close>

datatype UrlError =
    BlockedProtocol bytes
  | BlockedHost bytes
  | UnresolvableHost bytes
  | InvalidUrl

fun url_error_to_string :: "UrlError \<Rightarrow> bytes" where
  "url_error_to_string (BlockedProtocol p) = ''Blocked protocol: '' @ p"
| "url_error_to_string (BlockedHost h) = ''Blocked host: '' @ h"
| "url_error_to_string (UnresolvableHost h) = ''Host could not be resolved: '' @ h"
| "url_error_to_string InvalidUrl = ''Invalid URL''"

datatype Host = Domain bytes | HostV4 Ipv4Addr | HostV6 Ipv6Addr

record ParsedUrl =
  scheme :: bytes
  url_host :: "Host option"
  url_port :: "nat option"

type_synonym resolver = "bytes \<Rightarrow> nat \<Rightarrow> IpAddr list option"

definition BLOCKED_HOSTNAMES :: "bytes list" where
  "BLOCKED_HOSTNAMES =
     [''localhost'', ''localhost.localdomain'', ''ip6-localhost'', ''ip6-loopback'', ''broadcasthost'']"

section \<open>Address ranges\<close>

definition is_ipv4_in_cidr :: "Ipv4Addr \<Rightarrow> Ipv4Addr \<Rightarrow> nat \<Rightarrow> bool" where
  "is_ipv4_in_cidr ip network prefix_len \<longleftrightarrow>
     (let mask = (if prefix_len = 0 then 0 else push_bit (32 - prefix_len) (NOT 0))
      in (ip AND mask) = (network AND mask))"

definition range_blocks :: "Ipv4Addr \<Rightarrow> bytes \<Rightarrow> bool" where
  "range_blocks ip rng \<longleftrightarrow>
     (case split_once ''/'' rng of
        Some (network, pfx) \<Rightarrow>
          (case (parse_ipv4 network, parse_u8 pfx) of
             (Some net_ip, Some prefix_len) \<Rightarrow> prefix_len \<le> 32 \<and> is_ipv4_in_cidr ip net_ip prefix_len
           | _ \<Rightarrow> False)
      | None \<Rightarrow> False)"

definition ipv4_is_blocked :: "Ipv4Addr \<Rightarrow> bytes list \<Rightarrow> bool" where
  "ipv4_is_blocked ip blocked_ranges \<longleftrightarrow> list_ex (range_blocks ip) blocked_ranges"

definition ipv6_is_blocked :: "Ipv6Addr \<Rightarrow> bytes list \<Rightarrow> bool" where
  "ipv6_is_blocked ip blocked_ranges \<longleftrightarrow>
     (if is_loopback6 ip \<or> is_unspecified6 ip \<or> is_multicast6 ip then True
      else if octet6 0 ip AND 0xFE = 0xFC then True
      else if octet6 0 ip = 0xFE \<and> octet6 1 ip AND 0xC0 = 0x80 then True
      else if map (\<lambda>k. octet6 k ip) [0..<8] = [0x01, 0, 0, 0, 0, 0, 0, 0] then True
      else (case to_ipv4_mapped ip of
              Some v4 \<Rightarrow> ipv4_is_blocked v4 blocked_ranges
            | None \<Rightarrow>
                if octet6 0 ip = 0x20 \<and> octet6 1 ip = 0x02 then
                  ipv4_is_blocked (ipv4_new (octet6 2 ip) (octet6 3 ip) (octet6 4 ip) (octet6 5 ip)) blocked_ranges
                else False))"

fun ip_is_blocked :: "IpAddr \<Rightarrow> bytes list \<Rightarrow> bool" where
  "ip_is_blocked (V4 v4) ranges = ipv4_is_blocked v4 ranges"
| "ip_is_blocked (V6 v6) ranges = ipv6_is_blocked v6 ranges"

section \<open>Resolving and validating\<close>

definition resolve_and_pin ::
  "bytes set option \<Rightarrow> resolver \<Rightarrow> bytes \<Rightarrow> nat \<Rightarrow> bytes list \<Rightarrow> (UrlError, IpAddr) result" where
  "resolve_and_pin bl dns host port blocked_ranges =
     (let host_lc = to_ascii_lowercase host in
      if host_lc \<in> set BLOCKED_HOSTNAMES then Err (BlockedHost host_lc)
      else if is_domain_blocked bl host_lc then Err (BlockedHost host_lc)
      else
        let check = (\<lambda>ip. if ip_is_blocked ip blocked_ranges then Err (BlockedHost (ip_to_string ip))
                          else Ok ip) in
        (case parse_ip host of
           Some ip \<Rightarrow> check ip
         | None \<Rightarrow>
             (case Option.bind (Option.bind (strip_prefix ''['' host) (strip_suffix '']'')) parse_ip of
                Some ip \<Rightarrow> check ip
              | None \<Rightarrow>
                  (case dns host port of
                     None \<Rightarrow> Err (UnresolvableHost host)
                   | Some [] \<Rightarrow> Err (UnresolvableHost host)
                   | Some (first # _) \<Rightarrow>
                       if ip_is_blocked first blocked_ranges then
                         Err (BlockedHost (host @ '' (resolves to '' @ ip_to_string first @ '')''))
                       else Ok first))))"

definition validate_url ::
  "(bytes \<Rightarrow> ParsedUrl option) \<Rightarrow> bytes set option \<Rightarrow> resolver \<Rightarrow> bytes \<Rightarrow> bytes list \<Rightarrow> (UrlError, unit) result" where
  "validate_url url_parse bl dns url blocked_ranges =
     (case url_parse url of
        None \<Rightarrow> Err InvalidUrl
      | Some parsed \<Rightarrow>
          if \<not> (scheme parsed = ''http'' \<or> scheme parsed = ''https'') then
            Err (BlockedProtocol (scheme parsed))
          else (case url_host parsed of
                  None \<Rightarrow> Err InvalidUrl
                | Some (Domain name) \<Rightarrow>
                    let name_lc = to_ascii_lowercase name in
                    if name_lc \<in> set BLOCKED_HOSTNAMES then Err (BlockedHost name_lc)
                    else if is_domain_blocked bl name_lc then Err (BlockedHost name_lc)
                    else
                      let port = (case url_port parsed of Some p \<Rightarrow> p | None \<Rightarrow> 80) in
                      (case dns name port of
                         None \<Rightarrow> Err (UnresolvableHost name)
                       | Some addrs \<Rightarrow>
                           (case find (\<lambda>ip. ip_is_blocked ip blocked_ranges) addrs of
                              Some ip \<Rightarrow> Err (BlockedHost (name @ '' (resolves to '' @ ip_to_string ip @ '')''))
                            | None \<Rightarrow> Ok ()))
                | Some (HostV4 ip) \<Rightarrow>
                    if ip_is_blocked (V4 ip) blocked_ranges then Err (BlockedHost (ipv4_to_string ip)) else Ok ()
                | Some (HostV6 ip) \<Rightarrow>
                    if ip_is_blocked (V6 ip) blocked_ranges then Err (BlockedHost (ipv6_to_string ip)) else Ok ()))"

section \<open>The CIDR test\<close>

lemma and_mask_drop:
  "(x AND push_bit n (NOT 0)) = (y AND push_bit n (NOT (0 :: 32 word)))
     \<longleftrightarrow> drop_bit n x = drop_bit n y"
proof
  assume a: "(x AND push_bit n (NOT 0)) = (y AND push_bit n (NOT (0 :: 32 word)))"
  show "drop_bit n x = drop_bit n y"
  proof (rule bit_word_eqI)
    fix m
    have "bit (x AND push_bit n (NOT 0)) (n + m) = bit (y AND push_bit n (NOT (0 :: 32 word))) (n + m)"
      using a by simp
    then show "bit (drop_bit n x) m = bit (drop_bit n y) m"
      using bit_imp_le_length [of x "n + m"] bit_imp_le_length [of y "n + m"]
      by (auto simp: bit_simps)
  qed
next
  assume d: "drop_bit n x = drop_bit n y"
  show "(x AND push_bit n (NOT 0)) = (y AND push_bit n (NOT (0 :: 32 word)))"
  proof (rule bit_word_eqI)
    fix m
    have "bit x m = bit y m" if "n \<le> m"
      using arg_cong [OF d, of "\<lambda>w. bit w (m - n)"] that by (simp add: bit_simps)
    then show "bit (x AND push_bit n (NOT 0)) m = bit (y AND push_bit n (NOT (0 :: 32 word))) m"
      by (auto simp: bit_simps)
  qed
qed

lemma drop_bit_eq_iff_div: "drop_bit n x = drop_bit n y \<longleftrightarrow> unat x div 2 ^ n = unat y div 2 ^ n"
  for x y :: "'a :: len word"
  by (metis drop_bit_eq_div unat_drop_bit_eq word_unat_eq_iff)

lemma cidr_iff_div:
  assumes "prefix_len \<le> 32"
  shows "is_ipv4_in_cidr ip network prefix_len \<longleftrightarrow>
     unat ip div 2 ^ (32 - prefix_len) = unat network div 2 ^ (32 - prefix_len)"
proof (cases "prefix_len = 0")
  case True
  have "unat x div 2 ^ 32 = 0" for x :: "32 word"
    using unsigned_less [of x, where ?'a = nat] by simp
  with True show ?thesis by (simp add: is_ipv4_in_cidr_def)
next
  case False
  then show ?thesis
    using and_mask_drop [of ip "32 - prefix_len" network]
      drop_bit_eq_iff_div [of "32 - prefix_len" ip network]
    by (simp add: is_ipv4_in_cidr_def)
qed

text \<open>
  The CIDR test is the textbook one. For a prefix length up to 32 the masked comparison
  holds exactly when the two addresses agree in their leading bits, that is, when they are in
  the same block of \<open>2 ^ (32 - prefix_len)\<close> addresses; the shift by 32 that a prefix of zero
  would need never happens.
\<close>

theorem cidr_test_exact:
  assumes "prefix_len \<le> 32"
  shows "is_ipv4_in_cidr ip network prefix_len \<longleftrightarrow>
     unat ip div 2 ^ (32 - prefix_len) = unat network div 2 ^ (32 - prefix_len)"
  using assms by (rule cidr_iff_div)

theorem cidr_test_exact_witness:
  "is_ipv4_in_cidr (ipv4_new 10 1 2 3) (ipv4_new 10 0 0 0) 8 \<longleftrightarrow>
     unat (ipv4_new 10 1 2 3) div 2 ^ 24 = unat (ipv4_new 10 0 0 0) div 2 ^ 24"
  using cidr_test_exact [of 8 "ipv4_new 10 1 2 3" "ipv4_new 10 0 0 0"] by simp

section \<open>What the filter lets through\<close>

lemma find_SomeD: "find P xs = Some x \<Longrightarrow> x \<in> set xs \<and> P x"
  by (auto simp: find_Some_iff)

text \<open>
  C9: a pinned address is clean. Whatever the resolver answers, an address returned by
  \<open>resolve_and_pin\<close> is outside every blocked range, the host name is neither one of the
  built-in local names nor on the domain blocklist, and the address is the literal in the
  request or the first answer of the one lookup made here, so that the connection cannot be
  rebound to another address between the check and the fetch.
\<close>

theorem pinned_address_is_clean:
  "case resolve_and_pin bl dns host port ranges of
     Inl e \<Rightarrow> True
   | Inr ip \<Rightarrow>
       \<not> ip_is_blocked ip ranges
       \<and> to_ascii_lowercase host \<notin> set BLOCKED_HOSTNAMES \<and> \<not> is_domain_blocked bl host
       \<and> (parse_ip host = Some ip
          \<or> Option.bind (Option.bind (strip_prefix ''['' host) (strip_suffix '']'')) parse_ip = Some ip
          \<or> (\<exists>others. dns host port = Some (ip # others)))"
  by (auto simp: resolve_and_pin_def Let_def split: sum.splits option.splits list.splits if_splits)

text \<open>
  C10: a validated URL is clean. A URL that passes \<open>validate_url\<close> is http or https, has a host,
  and that host is an address outside the blocked ranges or a name that is not blocked and
  none of whose resolved addresses is in a blocked range.
\<close>

theorem validated_url_is_clean:
  "validate_url url_parse bl dns url ranges = Ok () \<longleftrightarrow>
     (\<exists>u. url_parse url = Some u \<and> (scheme u = ''http'' \<or> scheme u = ''https'')
        \<and> (case url_host u of
             None \<Rightarrow> False
           | Some (HostV4 ip) \<Rightarrow> \<not> ip_is_blocked (V4 ip) ranges
           | Some (HostV6 ip) \<Rightarrow> \<not> ip_is_blocked (V6 ip) ranges
           | Some (Domain name) \<Rightarrow>
               to_ascii_lowercase name \<notin> set BLOCKED_HOSTNAMES \<and> \<not> is_domain_blocked bl name
               \<and> (\<exists>addrs. dns name (case url_port u of Some p \<Rightarrow> p | None \<Rightarrow> 80) = Some addrs
                    \<and> list_all (\<lambda>ip. \<not> ip_is_blocked ip ranges) addrs)))"
  by (auto simp: validate_url_def Let_def find_None_iff list_all_iff
      dest: find_SomeD split: option.splits Host.splits if_splits)

section \<open>IPv6 coverage\<close>

lemma unat_octet6: "unat (octet6 k ip) = unat ip div 2 ^ (8 * (15 - k)) mod 256"
  by (simp only: octet6_def unsigned_ucast_eq unat_drop_bit_eq)
    (simp add: drop_bit_eq_div take_bit_eq_mod)

lemma octet6_eq_iff: "octet6 k ip = w \<longleftrightarrow> unat ip div 2 ^ (8 * (15 - k)) mod 256 = unat w"
  by (simp add: word_unat_eq_iff unat_octet6)

lemma ip6_bound: "unat (ip :: Ipv6Addr) < 2 ^ 128"
  using unsigned_less [of ip, where ?'a = nat] by simp

lemma byte_masks:
  "list_all (\<lambda>n. ((of_nat n :: 8 word) AND 0xFE = 0xFC \<longleftrightarrow> n div 2 = 0x7E)
     \<and> ((of_nat n :: 8 word) AND 0xC0 = 0x80 \<longleftrightarrow> n div 64 = 2)) [0..<256]"
  by code_simp

lemma byte_mask:
  fixes w :: "8 word"
  shows "w AND 0xFE = 0xFC \<longleftrightarrow> unat w div 2 = 0x7E" and "w AND 0xC0 = 0x80 \<longleftrightarrow> unat w div 64 = 2"
proof -
  have "unat w \<in> set [0..<256]" using unsigned_less [of w, where ?'a = nat] by simp
  moreover have "w = of_nat (unat w)" by simp
  ultimately show "w AND 0xFE = 0xFC \<longleftrightarrow> unat w div 2 = 0x7E" "w AND 0xC0 = 0x80 \<longleftrightarrow> unat w div 64 = 2"
    using byte_masks unfolding list_all_iff by metis+
qed

lemma quot_rem_iff:
  fixes x b q r :: nat
  assumes "r < b"
  shows "x div b = q \<and> x mod b = r \<longleftrightarrow> x = q * b + r"
proof
  assume "x div b = q \<and> x mod b = r"
  then show "x = q * b + r" by (metis div_mult_mod_eq)
qed (use assms in simp)

lemma drop_bit_eq_iff: "drop_bit k w = v \<longleftrightarrow> unat w div 2 ^ k = unat v" for w v :: "'a :: len word"
  unfolding word_unat_eq_iff unat_drop_bit_eq by (simp only: drop_bit_eq_div)

text \<open>The leading octets as quotients.\<close>

lemma octet_prefixes:
  fixes ip :: Ipv6Addr
  defines "n \<equiv> unat ip"
  shows "octet6 0 ip = 0xFF \<longleftrightarrow> n div 2 ^ 120 = 0xFF"
    and "octet6 0 ip AND 0xFE = 0xFC \<longleftrightarrow> n div 2 ^ 121 = 0x7E"
    and "octet6 0 ip = 0xFE \<and> octet6 1 ip AND 0xC0 = 0x80 \<longleftrightarrow> n div 2 ^ 118 = 0x3FA"
    and "octet6 0 ip = 0x20 \<and> octet6 1 ip = 0x02 \<longleftrightarrow> n div 2 ^ 112 = 0x2002"
proof -
  define a where "a = n div 2 ^ 112"
  have n: "n < 2 ^ 128" unfolding n_def by (rule ip6_bound)
  then have a: "a < 2 ^ 16" unfolding a_def by (simp add: less_mult_imp_div_less)
  have d: "n div 2 ^ 120 = a div 256" "n div 2 ^ 121 = a div 512" "n div 2 ^ 118 = a div 64"
    unfolding a_def by (simp_all add: div_mult2_eq [symmetric])
  have o: "unat (octet6 0 ip) = a div 256" "unat (octet6 1 ip) = a mod 256"
  proof -
    have "unat (octet6 0 ip) = n div 2 ^ 120 mod 256" "unat (octet6 1 ip) = a mod 256"
      by (simp_all add: unat_octet6 n_def a_def)
    then show "unat (octet6 0 ip) = a div 256" "unat (octet6 1 ip) = a mod 256"
      unfolding d using a by simp_all
  qed
  show "octet6 0 ip = 0xFF \<longleftrightarrow> n div 2 ^ 120 = 0xFF"
    unfolding d by (simp add: word_unat_eq_iff o)
  show "octet6 0 ip AND 0xFE = 0xFC \<longleftrightarrow> n div 2 ^ 121 = 0x7E"
    unfolding d by (simp add: byte_mask(1) o div_mult2_eq [symmetric])
  have q: "a div 256 = a div 64 div 4" "a mod 256 div 64 = a div 64 mod 4"
    using mod_mult2_eq [of a 64 4] by (simp_all add: div_mult2_eq [symmetric])
  have "x div 4 = 0xFE \<and> x mod 4 = 2 \<longleftrightarrow> x = 0x3FA" for x :: nat
    using quot_rem_iff [where r = 2 and b = 4 and q = "0xFE" and x = x] by simp
  then have "a div 256 = 0xFE \<and> a mod 256 div 64 = 2 \<longleftrightarrow> a div 64 = 0x3FA" unfolding q .
  then show "octet6 0 ip = 0xFE \<and> octet6 1 ip AND 0xC0 = 0x80 \<longleftrightarrow> n div 2 ^ 118 = 0x3FA"
    unfolding d by (simp add: word_unat_eq_iff [of "octet6 0 ip"] byte_mask(2) o [unfolded One_nat_def])
  have "a div 256 = 0x20 \<and> a mod 256 = 2 \<longleftrightarrow> a = 0x2002"
    using quot_rem_iff [where r = 2 and b = 256 and q = "0x20" and x = a] by simp
  then show "octet6 0 ip = 0x20 \<and> octet6 1 ip = 0x02 \<longleftrightarrow> n div 2 ^ 112 = 0x2002"
    unfolding a_def [symmetric] by (simp add: word_unat_eq_iff o [unfolded One_nat_def])
qed

lemma discard_prefix:
  "map (\<lambda>k. octet6 k ip) [0..<8] = [0x01, 0, 0, 0, 0, 0, 0, 0] \<longleftrightarrow> unat ip div 2 ^ 64 = 2 ^ 56"
proof -
  define m where "m = unat ip div 2 ^ 64"
  have m: "m < 2 ^ 64" unfolding m_def using ip6_bound [of ip] by (simp add: less_mult_imp_div_less)
  have o: "unat (octet6 k ip) = m div 2 ^ (8 * (7 - k)) mod 256" if "k < 8" for k
  proof -
    have "8 * (15 - k) = 64 + 8 * (7 - k)" using that by simp
    then show ?thesis by (simp only: unat_octet6 m_def power_add div_mult2_eq)
  qed
  have list: "map (\<lambda>k. octet6 k ip) [0..<8] = [0x01, 0, 0, 0, 0, 0, 0, 0] \<longleftrightarrow>
      m div 2 ^ 56 mod 256 = 1 \<and> m div 2 ^ 48 mod 256 = 0 \<and> m div 2 ^ 40 mod 256 = 0
      \<and> m div 2 ^ 32 mod 256 = 0 \<and> m div 2 ^ 24 mod 256 = 0 \<and> m div 2 ^ 16 mod 256 = 0
      \<and> m div 2 ^ 8 mod 256 = 0 \<and> m mod 256 = 0"
    by (simp add: upt_rec word_unat_eq_iff o)
  show ?thesis
  proof
    assume "map (\<lambda>k. octet6 k ip) [0..<8] = [0x01, 0, 0, 0, 0, 0, 0, 0]"
    then have z: "m div 2 ^ 56 mod 256 = 1" "m div 2 ^ 48 mod 256 = 0" "m div 2 ^ 40 mod 256 = 0"
        "m div 2 ^ 32 mod 256 = 0" "m div 2 ^ 24 mod 256 = 0" "m div 2 ^ 16 mod 256 = 0"
        "m div 2 ^ 8 mod 256 = 0" "m mod 256 = 0"
      unfolding list by auto
    have step: "m div 2 ^ k = 256 * (m div 2 ^ (k + 8))" if "m div 2 ^ k mod 256 = 0" for k
      using that by (simp add: power_add div_mult2_eq) (metis mod_0_imp_dvd dvd_mult_div_cancel)
    have "m = 256 ^ 7 * (m div 2 ^ 56)"
      using step [of 0] step [of 8] step [of 16] step [of 24] step [of 32] step [of 40] step [of 48] z by simp
    moreover have "m div 2 ^ 56 = 1" using z(1) m by (simp add: less_mult_imp_div_less)
    ultimately show "unat ip div 2 ^ 64 = 2 ^ 56" unfolding m_def [symmetric] by simp
  next
    assume "unat ip div 2 ^ 64 = 2 ^ 56"
    then have "m = 2 ^ 56" by (simp only: m_def)
    then show "map (\<lambda>k. octet6 k ip) [0..<8] = [0x01, 0, 0, 0, 0, 0, 0, 0]"
      unfolding list by simp
  qed
qed

lemma ipv6_blocked_iff:
  "ipv6_is_blocked ip ranges \<longleftrightarrow>
     ip = 0 \<or> ip = 1
     \<or> unat ip div 2 ^ 120 = 0xFF \<or> unat ip div 2 ^ 121 = 0x7E
     \<or> unat ip div 2 ^ 118 = 0x3FA \<or> unat ip div 2 ^ 64 = 2 ^ 56
     \<or> drop_bit 32 ip = 0xFFFF \<and> ipv4_is_blocked (ucast ip) ranges
     \<or> unat ip div 2 ^ 112 = 0x2002
       \<and> ipv4_is_blocked (ipv4_new (octet6 2 ip) (octet6 3 ip) (octet6 4 ip) (octet6 5 ip)) ranges"
proof -
  have mapped: "unat ip div 2 ^ 112 \<noteq> 0x2002" if "drop_bit 32 ip = 0xFFFF"
  proof -
    have "unat ip div 2 ^ 32 = 0xFFFF" using that by (simp only: drop_bit_eq_iff) simp
    then have "unat ip div 2 ^ 32 div 2 ^ 80 = 0" by (simp only:) simp
    then have "unat ip div 2 ^ 112 = 0" by (simp only: div_mult2_eq [symmetric] power_add [symmetric]) simp
    then show ?thesis by simp
  qed
  show ?thesis
    unfolding ipv6_is_blocked_def is_loopback6_def is_unspecified6_def is_multicast6_def
      octet_prefixes discard_prefix to_ipv4_mapped_def
    using mapped by (auto split: if_splits)
qed

text \<open>
  Which IPv6 addresses are blocked. Besides the unspecified and the loopback address,
  these are exactly the multicast addresses ff00::/8, the unique-local ones fc00::/7, the
  link-local ones fe80::/10 and the discard prefix 100::/64, whatever the configured ranges;
  and the IPv4-mapped addresses ::ffff:0:0/96 and the 6to4 addresses 2002::/16 whose embedded
  IPv4 address is in a configured range.
\<close>

theorem ipv6_coverage:
  "ipv6_is_blocked ip ranges \<longleftrightarrow>
     ip = 0 \<or> ip = 1
     \<or> unat ip div 2 ^ 120 = 0xFF \<or> unat ip div 2 ^ 121 = 0x7E
     \<or> unat ip div 2 ^ 118 = 0x3FA \<or> unat ip div 2 ^ 64 = 2 ^ 56
     \<or> drop_bit 32 ip = 0xFFFF \<and> ipv4_is_blocked (ucast ip) ranges
     \<or> unat ip div 2 ^ 112 = 0x2002
       \<and> ipv4_is_blocked (ipv4_new (octet6 2 ip) (octet6 3 ip) (octet6 4 ip) (octet6 5 ip)) ranges"
  by (rule ipv6_blocked_iff)

text \<open>
  NAT64 is not covered. An address of the well-known prefix 64:ff9b::/96, behind which a
  NAT64 gateway reaches the embedded IPv4 address, is never blocked, whatever that address is
  and whatever the configured ranges are.
\<close>

theorem nat64_not_blocked:
  fixes v4 :: Ipv4Addr
  shows "\<not> ipv6_is_blocked (of_nat (0x64FF9B * 2 ^ 96 + unat v4)) ranges"
proof -
  let ?ip = "of_nat (0x64FF9B * 2 ^ 96 + unat v4) :: Ipv6Addr"
  define n where "n = 0x64FF9B * 2 ^ 96 + unat v4"
  have v4: "unat v4 < 2 ^ 32" using unsigned_less [of v4, where ?'a = nat] by simp
  then have "n < 2 ^ LENGTH(128)" by (simp add: n_def)
  then have n: "unat ?ip = n" unfolding n_def [symmetric] by (rule of_nat_inverse [OF refl])
  have top: "n div 2 ^ 96 = 0x64FF9B" unfolding n_def using v4 by simp
  have up: "n div 2 ^ (96 + k) = 0x64FF9B div 2 ^ k" for k
    by (simp only: power_add div_mult2_eq top)
  have down: "n div 2 ^ k \<noteq> c" if "k \<le> 96" "c div 2 ^ (96 - k) \<noteq> 0x64FF9B" for k c
  proof
    assume "n div 2 ^ k = c"
    then have "c div 2 ^ (96 - k) = n div 2 ^ (k + (96 - k))" by (simp only: power_add div_mult2_eq)
    with that top show False by simp
  qed
  have "n \<noteq> 0" "n \<noteq> 1" using down [of 0 0] down [of 0 1] by simp_all
  then have "?ip \<noteq> 0" "?ip \<noteq> 1" using n by (metis unat_0, metis unat_1)
  moreover have "n div 2 ^ 120 = 0" "n div 2 ^ 121 = 0" "n div 2 ^ 118 = 1" "n div 2 ^ 112 = 0x64"
    using up [of 24] up [of 25] up [of 22] up [of 16] by simp_all
  moreover have "n div 2 ^ 64 \<noteq> 2 ^ 56" "n div 2 ^ 32 \<noteq> 0xFFFF" using down [of 64 "2 ^ 56"] down [of 32 "0xFFFF"] by simp_all
  ultimately show ?thesis
    unfolding ipv6_blocked_iff drop_bit_eq_iff n by simp
qed

end
