(* ===== verification/Server_Config.thy ===== *)
theory Server_Config
  imports Url_Filter
begin

text \<open>
  The server's configuration (\<open>server/src/config.rs\<close>): every setting comes from the environment
  (a partial map of UTF-8 strings) and falls back to its default when it is unset or does not
  parse. The Unicode case tables are arguments.
\<close>

record Config =
  listen_port :: nat
  portal_url :: bytes
  idle_timeout_minutes :: nat
  brotli_quality :: nat
  blocked_ranges :: "bytes list"
  blocklist_urls :: "bytes list"
  blocklist_refresh_hours :: nat
  blocklist_enabled :: bool
  allowed_callsigns :: "bytes list"
  origin_cc_head_timeout_ms :: nat
  default_max_age_seconds :: int
  max_max_age_seconds :: int

type_synonym env = "bytes \<Rightarrow> bytes option"

definition env_or :: "env \<Rightarrow> bytes \<Rightarrow> (bytes \<Rightarrow> 'a option) \<Rightarrow> 'a \<Rightarrow> 'a" where
  "env_or env key f dflt = (case Option.bind (env key) f of Some v \<Rightarrow> v | None \<Rightarrow> dflt)"

definition parse_env_u16 :: "env \<Rightarrow> bytes \<Rightarrow> nat \<Rightarrow> nat" where
  "parse_env_u16 env key dflt = env_or env key parse_u16 dflt"

definition parse_env_u32 :: "env \<Rightarrow> bytes \<Rightarrow> nat \<Rightarrow> nat" where
  "parse_env_u32 env key dflt = env_or env key parse_u32 dflt"

definition parse_env_u64 :: "env \<Rightarrow> bytes \<Rightarrow> nat \<Rightarrow> nat" where
  "parse_env_u64 env key dflt = env_or env key parse_u64 dflt"

definition parse_env_i32 :: "env \<Rightarrow> bytes \<Rightarrow> int \<Rightarrow> int" where
  "parse_env_i32 env key dflt = env_or env key parse_i32 dflt"

definition bool_word :: "(bytes \<Rightarrow> nat \<Rightarrow> bytes) \<Rightarrow> bytes \<Rightarrow> bool option" where
  "bool_word lc v =
     (let w = to_lowercase lc v in
      if w \<in> set [''true'', ''1'', ''yes'', ''on''] then Some True
      else if w \<in> set [''false'', ''0'', ''no'', ''off''] then Some False
      else None)"

definition parse_env_bool :: "(bytes \<Rightarrow> nat \<Rightarrow> bytes) \<Rightarrow> env \<Rightarrow> bytes \<Rightarrow> bool \<Rightarrow> bool" where
  "parse_env_bool lc env key dflt = env_or env key (bool_word lc) dflt"

definition parse_env_vec :: "env \<Rightarrow> bytes \<Rightarrow> bytes list \<Rightarrow> bytes list" where
  "parse_env_vec env key dflt =
     (case env key of
        Some v \<Rightarrow> filter (\<lambda>s. s \<noteq> []) (map trim (split_char (CHR '','') v))
      | None \<Rightarrow> dflt)"

definition default_blocked_ranges :: "bytes list" where
  "default_blocked_ranges =
     [''0.0.0.0/8'', ''127.0.0.0/8'', ''10.0.0.0/8'', ''172.16.0.0/12'', ''192.168.0.0/16'',
      ''169.254.0.0/16'']"

definition config_from_env ::
  "(bytes \<Rightarrow> bytes) \<Rightarrow> (bytes \<Rightarrow> nat \<Rightarrow> bytes) \<Rightarrow> env \<Rightarrow> Config" where
  "config_from_env uc lc env =
     \<lparr>listen_port = parse_env_u16 env ''LISTEN_PORT'' 63004,
      portal_url = (case env ''PORTAL_URL'' of Some v \<Rightarrow> v | None \<Rightarrow> ''https://www.zeroretries.radio''),
      idle_timeout_minutes = parse_env_u64 env ''IDLE_TIMEOUT_MINUTES'' 10,
      brotli_quality = parse_env_u32 env ''BROTLI_QUALITY'' 11,
      blocked_ranges = parse_env_vec env ''BLOCKED_RANGES'' default_blocked_ranges,
      blocklist_urls = parse_env_vec env ''BLOCKLIST_URLS'' [],
      blocklist_refresh_hours = parse_env_u64 env ''BLOCKLIST_REFRESH_HOURS'' 24,
      blocklist_enabled = parse_env_bool lc env ''BLOCKLIST_ENABLED'' True,
      allowed_callsigns = map (to_uppercase uc) (parse_env_vec env ''ALLOWED_CALLSIGNS'' []),
      origin_cc_head_timeout_ms = parse_env_u64 env ''ORIGIN_CC_HEAD_TIMEOUT_MS'' 3000,
      default_max_age_seconds = parse_env_i32 env ''DEFAULT_MAX_AGE_SECONDS'' 3600,
      max_max_age_seconds = parse_env_i32 env ''MAX_MAX_AGE_SECONDS'' 2592000\<rparr>"

section \<open>The default ranges\<close>

definition range_parts :: "bytes \<Rightarrow> (Ipv4Addr option \<times> nat option) option" where
  "range_parts r = map_option (\<lambda>(n, p). (parse_ipv4 n, parse_u8 p)) (split_once ''/'' r)"

lemma parse_default_ranges:
  "range_parts ''0.0.0.0/8'' = Some (Some 0x00000000, Some 8)"
  "range_parts ''127.0.0.0/8'' = Some (Some 0x7F000000, Some 8)"
  "range_parts ''10.0.0.0/8'' = Some (Some 0x0A000000, Some 8)"
  "range_parts ''172.16.0.0/12'' = Some (Some 0xAC100000, Some 12)"
  "range_parts ''192.168.0.0/16'' = Some (Some 0xC0A80000, Some 16)"
  "range_parts ''169.254.0.0/16'' = Some (Some 0xA9FE0000, Some 16)"
  by code_simp+

lemma range_blocks_div:
  assumes "range_parts r = Some (Some net, Some k)" and "k \<le> 32"
  shows "range_blocks ip r \<longleftrightarrow> unat ip div 2 ^ (32 - k) = unat net div 2 ^ (32 - k)"
  using assms cidr_iff_div [of k ip net] by (auto simp: range_blocks_def range_parts_def)

lemma default_range_list:
  "ipv4_is_blocked ip default_blocked_ranges \<longleftrightarrow>
     unat ip div 2 ^ 24 \<in> {0, 127, 10} \<or> unat ip div 2 ^ 20 = 172 * 16 + 1
     \<or> unat ip div 2 ^ 16 \<in> {192 * 256 + 168, 169 * 256 + 254}"
  unfolding ipv4_is_blocked_def default_blocked_ranges_def list_ex_iff list.set bex_simps(5,7)
    parse_default_ranges [THEN range_blocks_div, simplified]
  by simp

text \<open>
  C32: with \<open>BLOCKED_RANGES\<close> unset, the IPv4 addresses the server refuses to fetch from are
  exactly "this network" 0/8, loopback 127/8, the private ranges 10/8, 172.16/12 and 192.168/16
  and link-local 169.254/16: the strings of the default list all parse, with the prefix lengths
  they are meant to have.
\<close>

theorem default_ranges_exact:
  assumes "env ''BLOCKED_RANGES'' = None"
  shows "ipv4_is_blocked ip (blocked_ranges (config_from_env uc lc env)) \<longleftrightarrow>
     unat ip div 2 ^ 24 \<in> {0, 127, 10} \<or> unat ip div 2 ^ 20 = 172 * 16 + 1
     \<or> unat ip div 2 ^ 16 \<in> {192 * 256 + 168, 169 * 256 + 254}"
  using assms by (simp only: config_from_env_def parse_env_vec_def default_range_list Config.simps option.simps)

theorem default_ranges_exact_witness:
  "ipv4_is_blocked 0x0A010203 (blocked_ranges (config_from_env (\<lambda>c. c) (\<lambda>s _. s) Map.empty))"
proof -
  have "unat (0x0A010203 :: Ipv4Addr) div 2 ^ 24 = 10" by simp
  then show ?thesis
    by (subst default_ranges_exact [of Map.empty]) (simp_all only: insert_iff simp_thms)
qed

end
