(* ===== verification/Server_Session.thy ===== *)
theory Server_Session
  imports Server_Config
begin

text \<open>
  Callsigns, sessions and the access log of the server (\<open>server/src/session.rs\<close>,
  \<open>server/src/logger.rs\<close>). The callsign expression
  \<open>^[a-zA-Z0-9]{1,3}[0-9][a-zA-Z0-9]{0,3}[a-zA-Z]$\<close> is written out as a test on the string; the
  Unicode table and the JSON printer are arguments.
\<close>

section \<open>Callsigns\<close>

datatype SessionError = InvalidCallsign

text \<open>The digit of the expression at position \<open>k\<close>.\<close>

definition callsign_at :: "bytes \<Rightarrow> nat \<Rightarrow> bool" where
  "callsign_at c k \<longleftrightarrow>
     k < length c \<and> list_all is_ascii_alphanumeric (take k c) \<and> is_ascii_digit (c ! k)
     \<and> (let rest = drop (k + 1) c in
        rest \<noteq> [] \<and> length rest \<le> 4 \<and> list_all is_ascii_alphanumeric (butlast rest)
        \<and> is_ascii_alphabetic (last rest))"

definition callsign_regex :: "bytes \<Rightarrow> bool" where
  "callsign_regex c \<longleftrightarrow> list_ex (callsign_at c) [1, 2, 3]"

definition validate_callsign_with_allowlist ::
  "(bytes \<Rightarrow> bytes) \<Rightarrow> bytes \<Rightarrow> bytes list \<Rightarrow> (SessionError, bytes) result" where
  "validate_callsign_with_allowlist uc callsign allowlist =
     (let call = hd (split_char (CHR ''-'') callsign); upper = to_uppercase uc call in
      if callsign_regex call then Ok upper
      else if list_ex (\<lambda>entry. eq_ignore_ascii_case entry call) allowlist then Ok upper
      else Err InvalidCallsign)"

definition validate_callsign :: "(bytes \<Rightarrow> bytes) \<Rightarrow> bytes \<Rightarrow> (SessionError, bytes) result" where
  "validate_callsign uc callsign = validate_callsign_with_allowlist uc callsign []"

section \<open>Sessions\<close>

record Session =
  sess_callsign :: bytes
  acknowledged :: bool
  current_url :: "bytes option"
  last_activity :: nat

definition session_begin :: "nat \<Rightarrow> bytes \<Rightarrow> Session" where
  "session_begin now call =
     \<lparr>sess_callsign = call, acknowledged = False, current_url = None, last_activity = now\<rparr>"

definition touch :: "nat \<Rightarrow> Session \<Rightarrow> Session" where
  "touch now s = s\<lparr>last_activity := now\<rparr>"

definition acknowledge :: "nat \<Rightarrow> Session \<Rightarrow> Session" where
  "acknowledge now s = touch now (s\<lparr>acknowledged := True\<rparr>)"

text \<open>\<open>timeout_minutes * 60\<close> is a \<open>u64\<close> product.\<close>

definition minutes_to_secs :: "nat \<Rightarrow> nat" where
  "minutes_to_secs m = m * 60 mod 2 ^ 64"

definition is_timed_out :: "nat \<Rightarrow> nat \<Rightarrow> Session \<Rightarrow> bool" where
  "is_timed_out now timeout_minutes s \<longleftrightarrow>
     (now - last_activity s) div 1000 > minutes_to_secs timeout_minutes"

section \<open>The access log\<close>

datatype LogStatus = LogOk | LogBlocked | LogError | LogAgreed

record LogEntry =
  le_ts :: nat
  le_call :: bytes
  le_url :: bytes
  le_status :: LogStatus
  le_reason :: "bytes option"

definition log_entry_new :: "nat \<Rightarrow> bytes \<Rightarrow> bytes \<Rightarrow> LogStatus \<Rightarrow> bytes option \<Rightarrow> LogEntry" where
  "log_entry_new now call url st why =
     \<lparr>le_ts = now, le_call = call, le_url = url, le_status = st, le_reason = why\<rparr>"

definition to_json :: "(LogEntry \<Rightarrow> bytes option) \<Rightarrow> LogEntry \<Rightarrow> bytes" where
  "to_json json e = (case json e of Some j \<Rightarrow> j | None \<Rightarrow> ''{}'')"

text \<open>\<open>Logger::log\<close>: append one line to the file, if it opens and takes the write.\<close>

definition logger_log ::
  "(LogEntry \<Rightarrow> bytes option) \<Rightarrow> bytes option \<Rightarrow> LogEntry \<Rightarrow> bytes \<Rightarrow> (bytes, unit) result \<times> bytes" where
  "logger_log json io_error e file =
     (case io_error of
        Some err \<Rightarrow> (Err err, file)
      | None \<Rightarrow> (Ok (), file @ to_json json e @ [LF]))"

section \<open>What a valid callsign is\<close>

lemma callsign_regex_chars:
  assumes "callsign_regex c"
  shows "list_all is_ascii_alphanumeric c" and "3 \<le> length c" and "length c \<le> 8"
proof -
  from assms obtain k where k: "callsign_at c k" "k \<in> {1, 2, 3}" by (auto simp: callsign_regex_def)
  let ?rest = "drop (k + 1) c"
  have r: "k < length c" "?rest \<noteq> []" "length ?rest \<le> 4" "list_all is_ascii_alphanumeric (take k c)"
    "is_ascii_digit (c ! k)" "list_all is_ascii_alphanumeric (butlast ?rest)" "is_ascii_alphabetic (last ?rest)"
    using k(1) unfolding callsign_at_def Let_def by blast+
  have "c = take k c @ c ! k # butlast ?rest @ [last ?rest]"
    using id_take_nth_drop [OF r(1)] append_butlast_last_id [OF r(2)] by (metis Suc_eq_plus1)
  moreover have "list_all is_ascii_alphanumeric (take k c @ c ! k # butlast ?rest @ [last ?rest])"
    using r(4-7) by (simp add: is_ascii_alphanumeric_def)
  ultimately show "list_all is_ascii_alphanumeric c" by metis
  show "3 \<le> length c" "length c \<le> 8" using r(1-3) k(2) by auto
qed

lemma alphanumeric_ascii: "is_ascii_alphanumeric b \<Longrightarrow> is_ascii b"
  by (auto simp: ascii_class_defs)

end
