(* ===== verification/Origin_Cc.thy ===== *)
theory Origin_Cc
  imports Server_Config
begin

text \<open>
  The cache lifetime a page gets on the wire (\<open>server/src/origin_cc.rs\<close>): the rules on
  \<open>Cache-Control\<close>, \<open>Expires\<close> and \<open>Date\<close>, and the probe that asks the origin for them through the
  filtering proxy. The HTTP client and the HTTP-date parser are arguments. A panic (of
  \<open>clamp\<close> with a negative upper bound) is \<open>None\<close>.
\<close>

record CcDefaults =
  default_max_age :: int
  max_max_age :: int

text \<open>Casts between the integer types of the source.\<close>

definition as_u64 :: "int \<Rightarrow> nat" where "as_u64 i = nat (i mod 2 ^ 64)"

definition as_i32 :: "nat \<Rightarrow> int" where "as_i32 n = (int n + 2 ^ 31) mod 2 ^ 32 - 2 ^ 31"

definition clamp :: "int \<Rightarrow> int \<Rightarrow> int \<Rightarrow> int option" where
  "clamp x lo hi = (if lo \<le> hi then Some (max lo (min hi x)) else None)"

fun find_map :: "('a \<Rightarrow> 'b option) \<Rightarrow> 'a list \<Rightarrow> 'b option" where
  "find_map f [] = None"
| "find_map f (x # xs) = (case f x of Some y \<Rightarrow> Some y | None \<Rightarrow> find_map f xs)"

definition option_or :: "'a option \<Rightarrow> 'a option \<Rightarrow> 'a option" where
  "option_or a b = (case a of Some x \<Rightarrow> Some x | None \<Rightarrow> b)"

definition cc_tokens :: "bytes \<Rightarrow> bytes list" where
  "cc_tokens cc = map trim (split_char (CHR '','') (to_ascii_lowercase cc))"

definition cc_seconds :: "bytes \<Rightarrow> bytes list \<Rightarrow> int option" where
  "cc_seconds name tokens = Option.bind (find_map (strip_prefix name) tokens) parse_i64"

definition parse_cache_control ::
  "(bytes \<Rightarrow> nat option) \<Rightarrow> bytes option \<Rightarrow> bytes option \<Rightarrow> bytes option \<Rightarrow> CcDefaults \<Rightarrow> int option" where
  "parse_cache_control http_date cc expires date defaults =
     (case cc of
        Some cc \<Rightarrow>
          let tokens = cc_tokens cc in
          if list_ex (\<lambda>t. t = ''no-store'' \<or> t = ''private'') tokens then Some (- 1)
          else if list_ex (\<lambda>t. t = ''no-cache'') tokens then Some 0
          else
            let s_maxage = cc_seconds ''s-maxage='' tokens;
                max_age = cc_seconds ''max-age='' tokens in
            (case option_or s_maxage max_age of
               Some secs \<Rightarrow> clamp secs 0 (max_max_age defaults)
             | None \<Rightarrow> Some (default_max_age defaults))
      | None \<Rightarrow>
          (case (expires, date) of
             (Some exp, Some dt) \<Rightarrow>
               (case (http_date exp, http_date dt) of
                  (Some exp_ts, Some dt_ts) \<Rightarrow>
                    if dt_ts \<le> exp_ts then
                      Some (as_i32 (min (exp_ts - dt_ts) (as_u64 (max_max_age defaults))))
                    else Some (default_max_age defaults)
                | _ \<Rightarrow> Some (default_max_age defaults))
           | _ \<Rightarrow> Some (default_max_age defaults)))"

section \<open>The probe\<close>

type_synonym headers = "bytes \<Rightarrow> bytes option"

text \<open>The HTTP client: what building it and sending a HEAD and a GET request give. A header whose
  value is not visible ASCII is absent here (\<open>to_str\<close> fails on it).\<close>

record ProbeEnv =
  pe_proxy_ok :: bool
  pe_client_ok :: bool
  pe_head :: "(nat \<times> headers) option"
  pe_get :: "(nat \<times> headers) option"

definition is_success :: "nat \<Rightarrow> bool" where "is_success st \<longleftrightarrow> 200 \<le> st \<and> st \<le> 299"
definition is_redirection :: "nat \<Rightarrow> bool" where "is_redirection st \<longleftrightarrow> 300 \<le> st \<and> st \<le> 399"

definition probe_headers :: "ProbeEnv \<Rightarrow> headers option" where
  "probe_headers pe =
     (case pe_head pe of
        Some (st, hs) \<Rightarrow>
          if is_success st \<or> is_redirection st then Some hs
          else if st = 405 then
            (case pe_get pe of
               Some (st, hs) \<Rightarrow> if is_success st \<or> is_redirection st then Some hs else None
             | None \<Rightarrow> None)
          else None
      | None \<Rightarrow> None)"

definition probe_origin_cc ::
  "(bytes \<Rightarrow> nat option) \<Rightarrow> nat option \<Rightarrow> ProbeEnv \<Rightarrow> Config \<Rightarrow> int option" where
  "probe_origin_cc http_date proxy_port pe config =
     (let defaults = \<lparr>default_max_age = default_max_age_seconds config,
                      max_max_age = max_max_age_seconds config\<rparr>;
          default_out = default_max_age defaults in
      case proxy_port of
        None \<Rightarrow> Some default_out
      | Some p \<Rightarrow>
          if \<not> pe_proxy_ok pe then Some default_out
          else if \<not> pe_client_ok pe then Some default_out
          else (case probe_headers pe of
                  None \<Rightarrow> Some default_out
                | Some hs \<Rightarrow>
                    parse_cache_control http_date (hs ''cache-control'') (hs ''expires'') (hs ''date'') defaults))"

section \<open>Bounds of the lifetime\<close>

lemma as_u64_cap: "0 \<le> m \<Longrightarrow> m < 2 ^ 31 \<Longrightarrow> as_u64 m = nat m"
  by (simp add: as_u64_def)

lemma as_i32_small: "n < 2 ^ 31 \<Longrightarrow> as_i32 n = int n"
  by (simp add: as_i32_def)

lemma parse_cache_control_range:
  assumes "0 \<le> max_max_age d" and "max_max_age d < 2 ^ 31"
  shows "\<exists>a. parse_cache_control http_date cc expires date d = Some a
     \<and> (a = default_max_age d \<or> - 1 \<le> a \<and> a \<le> max_max_age d)"
proof (cases cc)
  case (Some c)
  have "\<exists>a. clamp secs 0 (max_max_age d) = Some a \<and> - 1 \<le> a \<and> a \<le> max_max_age d" for secs
    using assms(1) by (simp add: clamp_def)
  then show ?thesis
    using Some assms(1) by (auto simp: parse_cache_control_def Let_def split: option.split)
next
  case None
  have "as_i32 (min n (as_u64 (max_max_age d))) = int (min n (nat (max_max_age d)))" for n
    using assms as_i32_small [of "min n (nat (max_max_age d))"] by (simp add: as_u64_cap)
  then show ?thesis
    using None assms(1) by (auto simp: parse_cache_control_def split: option.split)
qed



text \<open>With a negative cap, which the configuration accepts, a \<open>max-age\<close> panics the probe and
  \<open>Expires\<close> is not capped at all.\<close>

lemma negative_cap:
  assumes "max_max_age d < 0" and "- (2 ^ 31) \<le> max_max_age d"
  shows "parse_cache_control http_date (Some ''max-age=60'') expires date d = None"
    and "http_date e = Some (t + n) \<Longrightarrow> http_date dt = Some t \<Longrightarrow> n < 2 ^ 31 \<Longrightarrow>
      parse_cache_control http_date None (Some e) (Some dt) d = Some (int n)"
proof -
  have "cc_tokens ''max-age=60'' = [''max-age=60'']" by code_simp
  moreover have "cc_seconds ''s-maxage='' [''max-age=60''] = None" "cc_seconds ''max-age='' [''max-age=60''] = Some 60"
    by (simp_all add: cc_seconds_def strip_prefix_def parse_i64_def parse_signed_def parse_unsigned_def
        parse_digits_def digits_value_def ascii_class_defs)
  ultimately show "parse_cache_control http_date (Some ''max-age=60'') expires date d = None"
    using assms(1) by (simp add: parse_cache_control_def option_or_def clamp_def)
  have "max_max_age d mod 2 ^ 64 = (max_max_age d + 2 ^ 64) mod 2 ^ 64" by simp
  also have "\<dots> = max_max_age d + 2 ^ 64" by (rule mod_pos_pos_trivial) (use assms in simp_all)
  finally have "(2 :: int) ^ 31 \<le> max_max_age d mod 2 ^ 64" using assms(2) by simp
  then have "2 ^ 31 \<le> as_u64 (max_max_age d)" by (simp add: as_u64_def)
  then show "http_date e = Some (t + n) \<Longrightarrow> http_date dt = Some t \<Longrightarrow> n < 2 ^ 31 \<Longrightarrow>
      parse_cache_control http_date None (Some e) (Some dt) d = Some (int n)"
    by (simp add: parse_cache_control_def as_i32_small)
qed

end
