(* ===== verification/Compress.thy ===== *)
theory Compress
  imports Prelude
begin

text \<open>
  Brotli with a size cap (\<open>shared/src/compress.rs\<close>). The brotli crate is an argument: the
  compressor writes its output or fails, the decompressor yields a sequence of reads. What the
  program needs of the pair is the predicate \<open>undoes\<close>; everything about caps and errors is proved
  from the definitions here.
\<close>

definition MAX_DECOMPRESSED_SIZE :: nat where
  "MAX_DECOMPRESSED_SIZE = 10 * 1024 * 1024"

datatype CompressionError = CompressFailed bytes | DecompressFailed bytes | TooLarge

text \<open>One \<open>read\<close> of the decompressor: an error or some bytes, none at the end of the stream.\<close>

type_synonym compressor = "bytes \<Rightarrow> nat \<Rightarrow> (bytes, bytes) result"
type_synonym decompressor = "bytes \<Rightarrow> (bytes, bytes) result list"

definition brotli_compress :: "compressor \<Rightarrow> bytes \<Rightarrow> nat \<Rightarrow> (CompressionError, bytes) result" where
  "brotli_compress cmp data quality =
     (case cmp data quality of
        Inl e \<Rightarrow> Err (CompressFailed e)
      | Inr outp \<Rightarrow> Ok outp)"

fun decompress_loop :: "(bytes, bytes) result list \<Rightarrow> bytes \<Rightarrow> (CompressionError, bytes) result" where
  "decompress_loop [] outp = Ok outp"
| "decompress_loop (Inl e # reads) outp = Err (DecompressFailed e)"
| "decompress_loop (Inr buf # reads) outp =
     (if buf = [] then Ok outp
      else if MAX_DECOMPRESSED_SIZE < length outp + length buf then Err TooLarge
      else decompress_loop reads (outp @ buf))"

definition brotli_decompress :: "decompressor \<Rightarrow> bytes \<Rightarrow> (CompressionError, bytes) result" where
  "brotli_decompress dcm data = decompress_loop (dcm data) []"

section \<open>The cap\<close>

lemma decompress_loop_bound:
  "decompress_loop reads outp = Ok out \<Longrightarrow> length outp \<le> MAX_DECOMPRESSED_SIZE \<Longrightarrow>
     length out \<le> MAX_DECOMPRESSED_SIZE"
  by (induction reads outp rule: decompress_loop.induct) (auto split: if_splits)

lemma decompress_loop_reads:
  "list_all (\<lambda>c. c \<noteq> []) cs \<Longrightarrow>
     decompress_loop (map Inr cs) outp =
       (if length outp + length (concat cs) \<le> MAX_DECOMPRESSED_SIZE \<or> cs = [] then Ok (outp @ concat cs)
        else Err TooLarge)"
proof (induction cs arbitrary: outp)
  case Nil
  show ?case by simp
next
  case (Cons c cs)
  show ?case
  proof (cases "cs = []")
    case True
    with Cons.prems show ?thesis by simp
  next
    case False
    with Cons show ?thesis by auto
  qed
qed

section \<open>What the program needs of the crate\<close>

text \<open>Decompressing compressed data yields the data in non-empty pieces.\<close>

definition undoes :: "decompressor \<Rightarrow> compressor \<Rightarrow> bool" where
  "undoes dcm cmp \<longleftrightarrow>
     (\<forall>data quality outp. cmp data quality = Ok outp \<longrightarrow>
        (\<exists>cs. dcm outp = map Inr cs \<and> list_all (\<lambda>c. c \<noteq> []) cs \<and> concat cs = data))"

lemma decompress_compress:
  assumes "undoes dcm cmp" and "brotli_compress cmp data quality = Ok outp"
  shows "brotli_decompress dcm outp = (if length data \<le> MAX_DECOMPRESSED_SIZE then Ok data else Err TooLarge)"
proof -
  from assms(2) have "cmp data quality = Ok outp" by (auto simp: brotli_compress_def split: sum.splits)
  then obtain cs where "dcm outp = map Inr cs" "list_all (\<lambda>c. c \<noteq> []) cs" "concat cs = data"
    using assms(1) unfolding undoes_def by blast
  then show ?thesis using decompress_loop_reads [of cs "[]"] by (auto simp: brotli_decompress_def)
qed

text \<open>A coder that stores its input, in pieces of at most one read buffer.\<close>

function pieces_of :: "nat \<Rightarrow> bytes \<Rightarrow> bytes list" where
  "pieces_of n data = (if n = 0 \<or> data = [] then [] else take n data # pieces_of n (drop n data))"
  by pat_completeness auto
termination
  by (relation "measure (\<lambda>(n, data). length data)") auto

declare pieces_of.simps [simp del]

definition stored_compressor :: compressor where "stored_compressor data quality = Ok data"

definition stored_decompressor :: decompressor where
  "stored_decompressor data = map Ok (pieces_of 8192 data)"

lemma pieces_of_concat: "0 < n \<Longrightarrow> concat (pieces_of n data) = data \<and> list_all (\<lambda>c. c \<noteq> []) (pieces_of n data)"
proof (induction n data rule: pieces_of.induct)
  case (1 n data)
  then show ?case by (cases "data = []") (simp_all add: pieces_of.simps)
qed

lemma stored_undoes: "undoes stored_decompressor stored_compressor"
  using pieces_of_concat [of 8192] by (auto simp: undoes_def stored_compressor_def stored_decompressor_def)

text \<open>
  C37: decompression cannot be made to exhaust memory, and loses nothing. Whatever the
  decompressor yields, the output is at most \<open>MAX_DECOMPRESSED_SIZE\<close> bytes; and when it undoes the
  compressor, the output is the original data exactly when that fits and \<open>TooLarge\<close> otherwise.
\<close>

theorem decompress_capped:
  assumes "undoes dcm cmp" and "brotli_compress cmp data quality = Ok outp"
  shows "brotli_decompress dcm outp = (if length data \<le> MAX_DECOMPRESSED_SIZE then Ok data else Err TooLarge)
     \<and> (case brotli_decompress dcm junk of Inl e \<Rightarrow> True | Inr out \<Rightarrow> length out \<le> MAX_DECOMPRESSED_SIZE)"
  using decompress_compress [OF assms] decompress_loop_bound [of "dcm junk" "[]"]
  by (auto simp: brotli_decompress_def split: sum.split)

theorem decompress_capped_witness:
  "brotli_decompress stored_decompressor ''page'' = Ok ''page''"
  using decompress_capped [OF stored_undoes, of "''page''" 11 "''page''" "[]"]
  by (simp add: brotli_compress_def stored_compressor_def MAX_DECOMPRESSED_SIZE_def)

end
