(* ===== verification/Browser.thy ===== *)
theory Browser
  imports Rust_Str
begin

text \<open>
  The headless browser of the server (\<open>server/src/browser.rs\<close>): launching geckodriver and
  Firefox, loading one page, and shutting the driver down. The operating system and the WebDriver
  client are arguments, one record per launch and one per page load. Time is in milliseconds;
  \<open>drivers\<close> counts the geckodriver processes that are running. The script that runs inside the
  page (\<open>JS_SCRUB_HTML\<close>) is in \<open>Page_Scrub\<close>; here its result is an argument.
\<close>

datatype BrowserError =
    LaunchFailed bytes
  | NavigationFailed bytes
  | ExtractionFailed bytes
  | BrowserCrashed

fun browser_error_to_string :: "BrowserError \<Rightarrow> bytes" where
  "browser_error_to_string (LaunchFailed m) = ''Failed to launch browser: '' @ m"
| "browser_error_to_string (NavigationFailed m) = ''Failed to navigate: '' @ m"
| "browser_error_to_string (ExtractionFailed m) = ''Failed to extract content: '' @ m"
| "browser_error_to_string BrowserCrashed = ''Browser crashed - please try again''"

text \<open>\<open>PROXY_PORT\<close> is set once; later calls change nothing.\<close>

definition set_proxy_port :: "nat \<Rightarrow> nat option \<Rightarrow> nat option" where
  "set_proxy_port port cell = (case cell of None \<Rightarrow> Some port | Some p \<Rightarrow> Some p)"

definition current_proxy_port :: "nat option \<Rightarrow> nat option" where
  "current_proxy_port cell = cell"

section \<open>Launching\<close>

text \<open>What the system does during one launch: the process environment, the directory that is made for a
  prefix, the errors of the steps (an error is its message); \<open>le_listen\<close> is the time after the start at which the
  driver accepts connections, if it ever does, and \<open>le_alphanumeric\<close> the Unicode class of a character.\<close>

record LaunchEnv =
  le_alphanumeric :: "bytes \<Rightarrow> bool"
  le_env :: "bytes \<Rightarrow> bytes option"
  le_tempdir :: "bytes \<Rightarrow> (bytes, bytes) result"
  le_runtime :: "bytes option"
  le_port_probe :: "bytes option"
  le_local_addr :: "(bytes, nat) result"
  le_spawn :: "bytes option"
  le_listen :: "nat option"
  le_connect :: "bytes option"
  le_timeouts :: "bytes option"

text \<open>The driver process, as it is spawned.\<close>

record DriverCommand =
  dc_program :: bytes
  dc_args :: "bytes list"
  dc_env :: "(bytes \<times> bytes) list"

text \<open>A JSON value of the capabilities.\<close>

datatype Json = JBool bool | JNum nat | JStr bytes | JArr "Json list" | JObj "(bytes \<times> Json) list"

record BrowserInstance =
  webdriver_port :: nat
  driver_command :: DriverCommand
  capabilities :: "(bytes \<times> Json) list"

definition env_var :: "LaunchEnv \<Rightarrow> bytes \<Rightarrow> bytes \<Rightarrow> bytes" where
  "env_var le name fallback = (case le_env le name of Some v \<Rightarrow> v | None \<Rightarrow> fallback)"

definition firefox_path :: "LaunchEnv \<Rightarrow> bytes" where
  "firefox_path le = env_var le ''FIREFOX_PATH'' ''/bin/firefox''"

definition session_prefix :: "LaunchEnv \<Rightarrow> bytes \<Rightarrow> bytes" where
  "session_prefix le callsign = ''firefox-'' @ concat (filter (le_alphanumeric le) (utf8_chars callsign)) @ ''-''"

definition geckodriver_command :: "LaunchEnv \<Rightarrow> bytes \<Rightarrow> nat \<Rightarrow> DriverCommand" where
  "geckodriver_command le dir port =
     \<lparr>dc_program = env_var le ''GECKODRIVER_PATH'' ''/bin/geckodriver'',
      dc_args = [''--port'', nat_to_string port, ''--binary'', firefox_path le, ''--profile-root'', dir],
      dc_env = [(''HOME'', dir), (''MOZ_HEADLESS'', ''1''), (''LD_LIBRARY_PATH'', env_var le ''LD_LIBRARY_PATH'' ''/lib'')]\<rparr>"

definition firefox_prefs :: "nat \<Rightarrow> (bytes \<times> Json) list" where
  "firefox_prefs proxy_port =
     [(''browser.cache.disk.enable'', JBool False),
      (''browser.cache.memory.enable'', JBool True),
      (''media.autoplay.default'', JNum 5),
      (''permissions.default.image'', JNum 2),
      (''datareporting.healthreport.uploadEnabled'', JBool False),
      (''toolkit.telemetry.enabled'', JBool False),
      (''app.update.enabled'', JBool False),
      (''browser.shell.checkDefaultBrowser'', JBool False),
      (''browser.startup.homepage_override.mstone'', JStr ''ignore''),
      (''browser.contentblocking.category'', JStr ''strict''),
      (''network.cookie.cookieBehavior'', JNum 5),
      (''security.enterprise_roots.enabled'', JBool True),
      (''pdfjs.disabled'', JBool True),
      (''network.proxy.type'', JNum 1),
      (''network.proxy.http'', JStr ''127.0.0.1''),
      (''network.proxy.http_port'', JNum proxy_port),
      (''network.proxy.ssl'', JStr ''127.0.0.1''),
      (''network.proxy.ssl_port'', JNum proxy_port),
      (''network.proxy.share_proxy_settings'', JBool True),
      (''network.proxy.socks_remote_dns'', JBool True),
      (''network.proxy.no_proxies_on'', JStr []),
      (''network.dns.disablePrefetch'', JBool True),
      (''network.prefetch-next'', JBool False)]"

definition firefox_caps :: "bytes \<Rightarrow> nat \<Rightarrow> (bytes \<times> Json) list" where
  "firefox_caps path proxy_port =
     [(''moz:firefoxOptions'',
       JObj [(''binary'', JStr path), (''args'', JArr [JStr ''-headless'']), (''prefs'', JObj (firefox_prefs proxy_port))])]"

text \<open>The machine: clock and running driver processes.\<close>

record Machine =
  mc_now :: nat
  drivers :: nat

text \<open>\<open>while connect(..).is_err() { if now >= deadline { .. } sleep(100 ms) }\<close>: the time at which
  the driver accepts, or the time at which the loop gives up.\<close>

function wait_listen :: "nat \<Rightarrow> nat option \<Rightarrow> nat \<Rightarrow> (nat, nat) result" where
  "wait_listen deadline listen now =
     (if (case listen of Some t \<Rightarrow> t \<le> now | None \<Rightarrow> False) then Ok now
      else if deadline \<le> now then Err now
      else wait_listen deadline listen (now + 100))"
  by pat_completeness auto
termination
  by (relation "measure (\<lambda>(deadline, listen, now). deadline - now)") auto

declare wait_listen.simps [simp del]

text \<open>The WebDriver session on the driver, and its timeouts.\<close>

definition webdriver_session :: "LaunchEnv \<Rightarrow> BrowserInstance \<Rightarrow> (BrowserError, BrowserInstance) result" where
  "webdriver_session le b =
     (case le_connect le of
        Some e \<Rightarrow> Err (LaunchFailed (''connect WebDriver: '' @ e))
      | None \<Rightarrow>
          (case le_timeouts le of
             Some e \<Rightarrow> Err (LaunchFailed (''set timeouts: '' @ e))
           | None \<Rightarrow> Ok b))"

definition browser_new ::
  "nat option \<Rightarrow> bytes \<Rightarrow> LaunchEnv \<Rightarrow> Machine \<Rightarrow> (BrowserError, BrowserInstance) result \<times> Machine" where
  "browser_new proxy_port callsign le m =
     (case le_tempdir le (session_prefix le callsign) of
        Inl e \<Rightarrow> (Err (LaunchFailed (''Failed to create session dir: '' @ e)), m)
      | Inr dir \<Rightarrow>
     (case le_runtime le of
        Some e \<Rightarrow> (Err (LaunchFailed (''create tokio runtime: '' @ e)), m)
      | None \<Rightarrow>
     (case le_port_probe le of
        Some e \<Rightarrow> (Err (LaunchFailed (''port probe: '' @ e)), m)
      | None \<Rightarrow>
     (case le_local_addr le of
        Inl e \<Rightarrow> (Err (LaunchFailed e), m)
      | Inr port \<Rightarrow>
     (case le_spawn le of
        Some e \<Rightarrow> (Err (LaunchFailed (''spawn geckodriver: '' @ e)), m)
      | None \<Rightarrow>
          let m = m\<lparr>drivers := drivers m + 1\<rparr> in
          (case wait_listen (mc_now m + 30 * 1000) (map_option (\<lambda>t. mc_now m + t) (le_listen le)) (mc_now m) of
             Inl now \<Rightarrow>
               (Err (LaunchFailed ''geckodriver did not start listening within 30s''),
                m\<lparr>mc_now := now, drivers := drivers m - 1\<rparr>)
           | Inr now \<Rightarrow>
               let m = m\<lparr>mc_now := now\<rparr> in
               (case proxy_port of
                  None \<Rightarrow> (Err (LaunchFailed ''proxy port not initialized before BrowserInstance::new''), m)
                | Some p \<Rightarrow>
                    (webdriver_session le
                       \<lparr>webdriver_port = port, driver_command = geckodriver_command le dir port,
                        capabilities = firefox_caps (firefox_path le) p\<rparr>, m))))))))"

text \<open>\<open>Drop\<close>: close the session and kill the driver.\<close>

definition browser_drop :: "BrowserInstance \<Rightarrow> Machine \<Rightarrow> Machine" where
  "browser_drop b m = m\<lparr>drivers := drivers m - 1\<rparr>"

section \<open>Loading a page\<close>

text \<open>One page load: how long it takes, the error of \<open>goto\<close> (its \<open>Display\<close> and its \<open>Debug\<close> text), and the
  result of the script: an error, or the string it returned, if it returned one.\<close>

record FetchEnv =
  fe_millis :: nat
  fe_goto :: "(bytes \<times> bytes) option"
  fe_script :: "(bytes, bytes option) result"

definition session_lost_text :: "bytes \<Rightarrow> bool" where
  "session_lost_text s \<longleftrightarrow> contains_str s ''session deleted'' \<or> contains_str s ''invalid session id''"

definition fetch_page :: "FetchEnv \<Rightarrow> BrowserInstance \<Rightarrow> (BrowserError, bytes) result" where
  "fetch_page fe b =
     (case fe_goto fe of
        Some (display, debug) \<Rightarrow>
          if session_lost_text display then Err BrowserCrashed
          else Err (NavigationFailed (if display = [] then debug else display))
      | None \<Rightarrow>
          (case fe_script fe of
             Inl s \<Rightarrow> if session_lost_text s then Err BrowserCrashed else Err (ExtractionFailed s)
           | Inr None \<Rightarrow> Err (ExtractionFailed ''No HTML returned'')
           | Inr (Some html) \<Rightarrow>
               (case strip_prefix ''__SCRUB_ERROR__'' html of
                  Some rest \<Rightarrow> Err (ExtractionFailed rest)
                | None \<Rightarrow> Ok html)))"

section \<open>Driver processes\<close>

lemma wait_listen_bounds:
  assumes "now \<le> deadline"
  shows "case wait_listen deadline listen now of
     Inl t \<Rightarrow> deadline \<le> t \<and> t < deadline + 100 | Inr t \<Rightarrow> now \<le> t \<and> t < deadline + 100"
  using assms
proof (induction deadline listen now rule: wait_listen.induct)
  case (1 deadline listen now)
  show ?case
  proof (cases "(case listen of Some t \<Rightarrow> t \<le> now | None \<Rightarrow> False) \<or> deadline \<le> now")
    case True
    with "1.prems" show ?thesis by (auto simp: wait_listen.simps [of deadline listen now])
  next
    case False
    show ?thesis
    proof (cases "now + 100 \<le> deadline")
      case True
      with False 1 show ?thesis
        by (auto simp: wait_listen.simps [of deadline listen now] split: sum.splits)
    next
      case late: False
      then have "wait_listen deadline listen (now + 100) \<in> {Ok (now + 100), Err (now + 100)}"
        by (simp add: wait_listen.simps [of deadline listen "now + 100"])
      with late False show ?thesis
        by (auto simp: wait_listen.simps [of deadline listen now])
    qed
  qed
qed

text \<open>
  A launch that fails late leaves its driver running. A launch takes at most 30.1 seconds
  until the driver listens; it owns exactly one more driver process when it succeeds, and none
  when it fails early or the driver never listens. But when the proxy port is missing or the WebDriver
  session cannot be set up, the launch fails and the driver it started is neither killed nor owned
  by anyone.
\<close>

lemma launch_accounts_for_driver:
  "case browser_new proxy callsign le m of
     (r, m') \<Rightarrow>
       mc_now m \<le> mc_now m' \<and> mc_now m' < mc_now m + 30100
       \<and> (case r of
            Inr b \<Rightarrow> drivers m' = drivers m + 1
          | Inl e \<Rightarrow> drivers m' = drivers m
              \<or> drivers m' = drivers m + 1 \<and> (proxy = None \<or> le_connect le \<noteq> None \<or> le_timeouts le \<noteq> None))"
proof -
  have w: "wait_listen (mc_now m + 30000) l (mc_now m) = Inl t \<Longrightarrow> mc_now m \<le> t \<and> t < mc_now m + 30100"
    "wait_listen (mc_now m + 30000) l (mc_now m) = Inr t \<Longrightarrow> mc_now m \<le> t \<and> t < mc_now m + 30100" for l t
    using wait_listen_bounds [of "mc_now m" "mc_now m + 30000" l] by auto
  show ?thesis
    by (auto simp: browser_new_def webdriver_session_def Let_def split: option.split sum.splits dest: w)
qed

lemma failed_session_leaks_driver:
  assumes "le_tempdir le (session_prefix le callsign) = Ok dir" "le_runtime le = None" "le_port_probe le = None" "le_local_addr le = Ok port"
    "le_spawn le = None" "le_listen le = Some 0" "le_connect le = Some e"
  shows "\<exists>err. browser_new (Some p) callsign le m = (Err err, m\<lparr>drivers := drivers m + 1\<rparr>)"
  using assms by (simp add: browser_new_def webdriver_session_def Let_def wait_listen.simps)

section \<open>The browser is confined to the proxy\<close>

text \<open>What a session asks Firefox for: a manual proxy (type 1) on the loopback address for plain and for
  TLS connections, the same port for both, and no exceptions.\<close>

fun json_get :: "bytes \<Rightarrow> Json \<Rightarrow> Json option" where
  "json_get k (JObj kvs) = map_of kvs k"
| "json_get k _ = None"

definition pref :: "bytes \<Rightarrow> BrowserInstance \<Rightarrow> Json option" where
  "pref name b =
     Option.bind (Option.bind (map_of (capabilities b) ''moz:firefoxOptions'') (json_get ''prefs'')) (json_get name)"

definition proxied :: "nat \<Rightarrow> BrowserInstance \<Rightarrow> bool" where
  "proxied p b \<longleftrightarrow>
     pref ''network.proxy.type'' b = Some (JNum 1)
     \<and> pref ''network.proxy.http'' b = Some (JStr ''127.0.0.1'') \<and> pref ''network.proxy.http_port'' b = Some (JNum p)
     \<and> pref ''network.proxy.ssl'' b = Some (JStr ''127.0.0.1'') \<and> pref ''network.proxy.ssl_port'' b = Some (JNum p)
     \<and> pref ''network.proxy.no_proxies_on'' b = Some (JStr [])"

lemma launched_proxied:
  assumes "browser_new cell callsign le m = (Ok b, m')"
  shows "\<exists>p. cell = Some p \<and> proxied p b"
proof -
  obtain p where p: "cell = Some p" "capabilities b = firefox_caps (firefox_path le) p"
    using assms by (auto simp: browser_new_def webdriver_session_def Let_def split: sum.splits option.splits)
  then have "pref name b = map_of (firefox_prefs p) name" for name by (simp add: pref_def firefox_caps_def)
  then have "proxied p b" by (simp add: proxied_def firefox_prefs_def)
  with p(1) show ?thesis by blast
qed

text \<open>Firefox never uses a proxy for loopback hosts unless one more preference is set, and it is not
  among those that are sent.\<close>

lemma loopback_preference_missing:
  assumes "browser_new cell callsign le m = (Ok b, m')"
  shows "pref ''network.proxy.allow_hijacking_localhost'' b = None"
proof -
  obtain p where "capabilities b = firefox_caps (firefox_path le) p"
    using assms by (auto simp: browser_new_def webdriver_session_def Let_def split: sum.splits option.splits)
  then show ?thesis by (simp add: pref_def firefox_caps_def firefox_prefs_def)
qed

end
