(* ===== verification/Server_Main.thy ===== *)
theory Server_Main
  imports Server_Io Server_Session Origin_Cc Compress Browser
begin

text \<open>
  One connection of the server (\<open>server/src/main.rs\<close>): the login exchange, the request loop, and the
  handling of one request from the URL filter to the framed response. Third-party code and the
  outside world are the record \<open>ServerEnv\<close>: URL parsing, name resolution, the compressor, the
  outcome of every browser launch and page load, and so on; every theorem quantifies over it.

  \<open>Srv\<close> is the state of one connection. Two of its fields are histories that the program does not
  read: \<open>visits\<close>, the URLs handed to the browser with the time of their check, and \<open>access_log\<close>, the
  entries handed to the logger, each with whether the append succeeded.

  The loop that restarts a crashed browser has no bound, so \<open>fetch_loop\<close> is a partial function:
  \<open>None\<close> is a request that never returns.
\<close>

section \<open>State\<close>

record ServerEnv =
  sv_config :: Config
  sv_clone :: "bytes option"
  sv_upper :: "bytes \<Rightarrow> bytes"
  sv_b64 :: "bytes \<Rightarrow> bytes"
  sv_sha256 :: "bytes \<Rightarrow> bytes"
  sv_url_safe :: "bytes \<Rightarrow> bytes"
  sv_brotli :: compressor
  sv_url_parse :: "bytes \<Rightarrow> ParsedUrl option"
  sv_blocklist :: "nat \<Rightarrow> bytes set option"
  sv_dns :: "nat \<Rightarrow> resolver"
  sv_proxy_port :: "nat option"
  sv_http_date :: "bytes \<Rightarrow> nat option"
  sv_launch :: "nat \<Rightarrow> LaunchEnv"
  sv_fetch :: "nat \<Rightarrow> FetchEnv"
  sv_probe :: "nat \<Rightarrow> ProbeEnv"
  sv_log_io :: "nat \<Rightarrow> bytes option"

record Srv =
  rd :: Reader
  sess :: Session
  brow :: "BrowserInstance option"
  drv :: nat
  launches :: nat
  loads :: nat
  probes :: nat
  access_log :: "(LogEntry \<times> bool) list"
  visits :: "(nat \<times> bytes) list"
  used :: "BrowserInstance list"

definition srv_now :: "Srv \<Rightarrow> nat" where
  "srv_now s = rd_now (rd s)"

definition srv_out :: "Srv \<Rightarrow> bytes" where
  "srv_out s = written (rd_sock (rd s))"

definition srv_write :: "bytes \<Rightarrow> Srv \<Rightarrow> (IoError, unit) result \<times> Srv" where
  "srv_write bs s =
     (let (r, t) = tcp_write bs (rd_sock (rd s))
      in (map_err (IoError OtherIo) r, s\<lparr>rd := (rd s)\<lparr>rd_sock := t\<rparr>\<rparr>))"

definition log_access :: "ServerEnv \<Rightarrow> bytes \<Rightarrow> bytes \<Rightarrow> LogStatus \<Rightarrow> bytes option \<Rightarrow> Srv \<Rightarrow> Srv" where
  "log_access E call url st why s =
     s\<lparr>access_log := access_log s
        @ [(log_entry_new (srv_now s) call url st why, sv_log_io E (length (access_log s)) = None)]\<rparr>"

definition srv_touch :: "Srv \<Rightarrow> Srv" where
  "srv_touch s = s\<lparr>sess := touch (srv_now s) (sess s)\<rparr>"

definition srv_launch :: "ServerEnv \<Rightarrow> Srv \<Rightarrow> (BrowserError, BrowserInstance) result \<times> Srv" where
  "srv_launch E s =
     (let (r, m) = browser_new (sv_proxy_port E) (sess_callsign (sess s)) (sv_launch E (launches s)) \<lparr>mc_now = srv_now s, drivers = drv s\<rparr>
      in (r, s\<lparr>rd := (rd s)\<lparr>rd_now := mc_now m\<rparr>, drv := drivers m, launches := launches s + 1\<rparr>))"

definition srv_drop :: "Srv \<Rightarrow> Srv" where
  "srv_drop s =
     (case brow s of
        None \<Rightarrow> s
      | Some b \<Rightarrow> s\<lparr>brow := None, drv := drivers (browser_drop b \<lparr>mc_now = srv_now s, drivers = drv s\<rparr>)\<rparr>)"

text \<open>\<open>*browser = BrowserInstance::new(callsign).ok()\<close>: the new one is made before the old one is
  dropped.\<close>

definition restart :: "ServerEnv \<Rightarrow> Srv \<Rightarrow> Srv" where
  "restart E s =
     (let (r, s) = srv_launch E s
      in (srv_drop s)\<lparr>brow := (case r of Inr b \<Rightarrow> Some b | Inl e \<Rightarrow> None)\<rparr>)"

section \<open>Responses\<close>

definition send_response :: "ServerEnv \<Rightarrow> Response \<Rightarrow> Srv \<Rightarrow> (IoError, unit) result \<times> Srv" where
  "send_response E resp s = srv_write (response_encode (sv_b64 E) resp) s"

definition status_response :: "ServerEnv \<Rightarrow> Status \<Rightarrow> bytes \<Rightarrow> Response" where
  "status_response E st msg =
     \<lparr>status = st, etag = ''-'', max_age = - 1,
      payload = (case brotli_compress (sv_brotli E) msg 11 of Inr c \<Rightarrow> c | Inl e \<Rightarrow> msg)\<rparr>"

definition send_status_response ::
  "ServerEnv \<Rightarrow> Status \<Rightarrow> bytes \<Rightarrow> Srv \<Rightarrow> (IoError, unit) result \<times> Srv" where
  "send_status_response E st msg s = send_response E (status_response E st msg) s"

definition send_error_response :: "ServerEnv \<Rightarrow> bytes \<Rightarrow> Srv \<Rightarrow> (IoError, unit) result \<times> Srv" where
  "send_error_response E msg s = send_status_response E StatusErr msg s"

section \<open>One request\<close>

datatype FetchFailure = Unavailable | LoadError BrowserError

definition load_page :: "ServerEnv \<Rightarrow> bytes \<Rightarrow> BrowserInstance \<Rightarrow> Srv \<Rightarrow> (BrowserError, bytes) result \<times> Srv" where
  "load_page E url b s =
     (let fe = sv_fetch E (loads s)
      in (fetch_page fe b,
          s\<lparr>loads := loads s + 1, visits := visits s @ [(srv_now s, url)], used := used s @ [b],
            rd := (rd s)\<lparr>rd_now := srv_now s + fe_millis fe\<rparr>\<rparr>))"

partial_function (option) fetch_loop ::
  "ServerEnv \<Rightarrow> bytes \<Rightarrow> Srv \<Rightarrow> ((FetchFailure, bytes) result \<times> Srv) option" where
  "fetch_loop E url s =
     (case brow s of
        None \<Rightarrow>
          let s = restart E s in
          if brow s = None then Some (Err Unavailable, s) else fetch_loop E url s
      | Some b \<Rightarrow>
          (case load_page E url b s of
             (Inr html, s) \<Rightarrow> Some (Ok html, s)
           | (Inl e, s) \<Rightarrow>
               if e = BrowserCrashed then
                 let s = restart E s in
                 if brow s = None then Some (Err Unavailable, s) else fetch_loop E url s
               else Some (Err (LoadError e), s)))"

fun url_error_status :: "UrlError \<Rightarrow> Status \<times> LogStatus" where
  "url_error_status (BlockedProtocol _) = (StatusBlocked, LogBlocked)"
| "url_error_status (BlockedHost _) = (StatusBlocked, LogBlocked)"
| "url_error_status (UnresolvableHost _) = (StatusErr, LogError)"
| "url_error_status InvalidUrl = (StatusErr, LogError)"

definition check_url :: "ServerEnv \<Rightarrow> nat \<Rightarrow> bytes \<Rightarrow> (UrlError, unit) result" where
  "check_url E now url =
     validate_url (sv_url_parse E) (sv_blocklist E now) (sv_dns E now) url (blocked_ranges (sv_config E))"

text \<open>The page has been loaded: the answer to it.\<close>

definition page_max_age :: "ServerEnv \<Rightarrow> nat \<Rightarrow> int" where
  "page_max_age E n =
     (case probe_origin_cc (sv_http_date E) (current_proxy_port (sv_proxy_port E)) (sv_probe E n) (sv_config E) of
        Some a \<Rightarrow> a
      | None \<Rightarrow> default_max_age_seconds (sv_config E))"

definition answer_page ::
  "ServerEnv \<Rightarrow> int \<Rightarrow> bytes \<Rightarrow> bytes option \<Rightarrow> bytes \<Rightarrow> Srv \<Rightarrow> (IoError, unit) result \<times> Srv" where
  "answer_page E age url inm html s =
     (let tag = sanitized_html_etag (sv_sha256 E) (sv_url_safe E) html;
          s = log_access E (sess_callsign (sess s)) url LogOk None s;
          s = s\<lparr>sess := (sess s)\<lparr>current_url := Some url\<rparr>\<rparr> in
      if (case inm of Some e \<Rightarrow> e = tag | None \<Rightarrow> False) then
        send_response E \<lparr>status = StatusNotModified, etag = tag, max_age = age, payload = []\<rparr> s
      else (case brotli_compress (sv_brotli E) html (brotli_quality (sv_config E)) of
              Inl e \<Rightarrow> send_error_response E ''Compression error'' s
            | Inr compressed \<Rightarrow>
                send_response E \<lparr>status = StatusOk, etag = tag, max_age = age, payload = compressed\<rparr> s))"

definition handle_request ::
  "ServerEnv \<Rightarrow> bytes \<Rightarrow> bytes option \<Rightarrow> Srv \<Rightarrow> ((IoError, unit) result \<times> Srv) option" where
  "handle_request E url inm s =
     (case check_url E (srv_now s) url of
        Inl e \<Rightarrow>
          let (st, log_status) = url_error_status e; msg = url_error_to_string e;
              s = log_access E (sess_callsign (sess s)) url log_status (Some msg) s
          in Some (send_status_response E st msg s)
      | Inr _ \<Rightarrow>
          let age = page_max_age E (probes s); s = s\<lparr>probes := probes s + 1\<rparr> in
          (case fetch_loop E url s of
             None \<Rightarrow> None
           | Some (Inl Unavailable, s) \<Rightarrow> Some (send_error_response E ''Browser unavailable'' s)
           | Some (Inl (LoadError e), s) \<Rightarrow>
               let s = log_access E (sess_callsign (sess s)) url LogError (Some (browser_error_to_string e)) s
               in Some (send_error_response E ''Failed to load page'' s)
           | Some (Inr html, s) \<Rightarrow> Some (answer_page E age url inm html s)))"

section \<open>What a request leaves alone\<close>

text \<open>Loading a page only lets time pass, uses the browser, and records visits of its URL.\<close>

definition fetch_frame :: "bytes \<Rightarrow> Srv \<Rightarrow> Srv \<Rightarrow> bool" where
  "fetch_frame url s s' \<longleftrightarrow>
     rd_buf (rd s') = rd_buf (rd s) \<and> rd_sock (rd s') = rd_sock (rd s) \<and> srv_now s \<le> srv_now s'
     \<and> sess s' = sess s \<and> access_log s' = access_log s
     \<and> (\<exists>ts. visits s' = visits s @ map (\<lambda>t. (t, url)) ts \<and> list_all (\<lambda>t. srv_now s \<le> t) ts)"

lemma fetch_frame_trans:
  assumes "fetch_frame url s t" and "fetch_frame url t u"
  shows "fetch_frame url s u"
proof -
  from assms obtain ts us where
    "visits t = visits s @ map (\<lambda>t. (t, url)) ts" "list_all (\<lambda>x. srv_now s \<le> x) ts"
    "visits u = visits t @ map (\<lambda>t. (t, url)) us" "list_all (\<lambda>x. srv_now t \<le> x) us"
    by (auto simp: fetch_frame_def)
  then have "visits u = visits s @ map (\<lambda>t. (t, url)) (ts @ us)" "list_all (\<lambda>x. srv_now s \<le> x) (ts @ us)"
    using assms by (auto simp: fetch_frame_def list_all_iff)
  with assms show ?thesis unfolding fetch_frame_def by (metis order_trans)
qed

lemma fetch_frame_refl: "fetch_frame url s s"
  by (auto simp: fetch_frame_def)

lemma launch_frame: "srv_launch E s = (r, s') \<Longrightarrow> fetch_frame url s s' \<and> visits s' = visits s \<and> loads s' = loads s"
  using launch_accounts_for_driver [where proxy = "sv_proxy_port E" and callsign = "sess_callsign (sess s)" and le = "sv_launch E (launches s)"
      and m = "\<lparr>mc_now = srv_now s, drivers = drv s\<rparr>"]
  by (auto simp: srv_launch_def fetch_frame_def srv_now_def split: prod.splits)

lemma drop_frame [simp]:
  "rd (srv_drop s) = rd s" "sess (srv_drop s) = sess s" "access_log (srv_drop s) = access_log s"
  "probes (srv_drop s) = probes s" "visits (srv_drop s) = visits s" "loads (srv_drop s) = loads s"
  "launches (srv_drop s) = launches s" "srv_now (srv_drop s) = srv_now s" "srv_out (srv_drop s) = srv_out s"
  by (simp_all add: srv_drop_def srv_now_def srv_out_def split: option.split)

lemma restart_frame: "fetch_frame url s (restart E s)"
proof -
  obtain r t where l: "srv_launch E s = (r, t)" by fastforce
  have "fetch_frame url s t" using launch_frame [OF l] by blast
  moreover have "fetch_frame url t (restart E s)"
    by (auto simp: l restart_def fetch_frame_def srv_now_def)
  ultimately show ?thesis by (rule fetch_frame_trans)
qed

lemma load_frame: "load_page E url b s = (r, s') \<Longrightarrow> fetch_frame url s s'"
  by (auto simp: load_page_def fetch_frame_def srv_now_def Let_def intro!: exI [of _ "[srv_now s]"])

lemma fetch_loop_frame:
  assumes "fetch_loop E url s = Some y"
  shows "fetch_frame url s (snd y)"
proof (rule fetch_loop.raw_induct [where P = "\<lambda>E url s y. fetch_frame url s (snd y)", OF _ assms])
  fix loop E url s and y :: "(FetchFailure, bytes) result \<times> Srv"
  assume IH: "\<And>E url s y. loop E url s = Some y \<Longrightarrow> fetch_frame url s (snd y)"
    and eq: "(case brow s of
        None \<Rightarrow>
          let s = restart E s in
          if brow s = None then Some (Err Unavailable, s) else loop E url s
      | Some b \<Rightarrow>
          (case load_page E url b s of
             (Inr html, s) \<Rightarrow> Some (Ok html, s)
           | (Inl e, s) \<Rightarrow>
               if e = BrowserCrashed then
                 let s = restart E s in
                 if brow s = None then Some (Err Unavailable, s) else loop E url s
               else Some (Err (LoadError e), s))) = Some y"
  have again: "fetch_frame url t (snd y)"
    if "y = (Err Unavailable, restart E t) \<or> loop E url (restart E t) = Some y" for t
    using that restart_frame [of url t E] IH [of E url "restart E t" y] fetch_frame_trans by (metis snd_conv)
  show "fetch_frame url s (snd y)"
  proof (cases "brow s")
    case None
    with eq show ?thesis by (intro again) (auto simp: Let_def split: if_splits)
  next
    case (Some b)
    obtain r t where l: "load_page E url b s = (r, t)" by fastforce
    from eq Some l have "snd y = t \<or> (y = (Err Unavailable, restart E t) \<or> loop E url (restart E t) = Some y)"
      by (auto simp: Let_def split: sum.splits if_splits)
    then show ?thesis using load_frame [OF l] again [of t] fetch_frame_trans by metis
  qed
qed

text \<open>What a write leaves alone.\<close>

lemma write_frame:
  assumes "srv_write bs s = (r, s')"
  shows "rd_buf (rd s') = rd_buf (rd s)" "rx (rd_sock (rd s')) = rx (rd_sock (rd s))" "srv_now s' = srv_now s"
    "sess s' = sess s" "access_log s' = access_log s" "visits s' = visits s"
    "srv_out s' = (case r of Inr _ \<Rightarrow> srv_out s @ bs | Inl e \<Rightarrow> srv_out s)"
    "brow s' = brow s" "drv s' = drv s" "loads s' = loads s"
  using assms
  by (auto simp: srv_write_def tcp_write_def srv_now_def srv_out_def split: prod.splits list.splits option.splits)

section \<open>The login exchange\<close>

datatype PreAuthLine = DuplicateCallsign | LinbpqStatus | Candidate

definition classify_preauth_line :: "(bytes \<Rightarrow> bytes) \<Rightarrow> bytes \<Rightarrow> bytes \<Rightarrow> PreAuthLine" where
  "classify_preauth_line uc line call =
     (let trimmed = to_uppercase uc (trim line) in
      if trimmed = call then DuplicateCallsign
      else if prefix ''***'' trimmed then LinbpqStatus
      else Candidate)"

text \<open>The loop that skips noise before the answer to the disclaimer.\<close>

function preauth_loop ::
  "(bytes \<Rightarrow> bytes) \<Rightarrow> bytes \<Rightarrow> nat \<Rightarrow> Reader \<Rightarrow> (IoError, bytes option) result \<times> Reader" where
  "preauth_loop uc call deadline r =
     (case read_bounded_line_until deadline r of
        (Inl e, r) \<Rightarrow> (Err e, r)
      | (Inr None, r) \<Rightarrow> (Ok None, r)
      | (Inr (Some line), r) \<Rightarrow>
          (case classify_preauth_line uc line call of
             DuplicateCallsign \<Rightarrow> preauth_loop uc call deadline r
           | LinbpqStatus \<Rightarrow> preauth_loop uc call deadline r
           | Candidate \<Rightarrow> (Ok (Some line), r)))"
  by pat_completeness auto
termination
  by (relation "measure (\<lambda>(uc, call, deadline, r). reader_size r)") (auto dest: sym dest!: line_reads(2) [OF sym])

declare preauth_loop.simps [simp del]

section \<open>What one request does\<close>

text \<open>The specification of one request, against which \<open>handle_request\<close> is proved: nothing is read,
  exactly one response goes out (unless the write fails), the browser is sent to this URL only and
  only when the filter passed it, and the log entries name this callsign and this URL.\<close>

definition answered :: "ServerEnv \<Rightarrow> bytes \<Rightarrow> Srv \<Rightarrow> (IoError, unit) result \<Rightarrow> Srv \<Rightarrow> bool" where
  "answered E url s r s' \<longleftrightarrow>
     rd_buf (rd s') = rd_buf (rd s) \<and> rx (rd_sock (rd s')) = rx (rd_sock (rd s)) \<and> srv_now s \<le> srv_now s'
     \<and> sess_callsign (sess s') = sess_callsign (sess s) \<and> acknowledged (sess s') = acknowledged (sess s)
     \<and> (\<exists>resp. srv_out s' = (case r of Inr _ \<Rightarrow> srv_out s @ response_encode (sv_b64 E) resp | Inl e \<Rightarrow> srv_out s))
     \<and> (\<exists>ts. visits s' = visits s @ map (\<lambda>t. (t, url)) ts
          \<and> list_all (\<lambda>t. srv_now s \<le> t \<and> check_url E (srv_now s) url = Ok ()) ts)
     \<and> (\<exists>es. access_log s' = access_log s @ es
          \<and> list_all (\<lambda>(e, _). le_call e = sess_callsign (sess s) \<and> le_url e = url) es)"

lemma log_access_frame [simp]:
  "rd (log_access E c u st w s) = rd s" "sess (log_access E c u st w s) = sess s"
  "visits (log_access E c u st w s) = visits s" "srv_now (log_access E c u st w s) = srv_now s"
  "srv_out (log_access E c u st w s) = srv_out s" "brow (log_access E c u st w s) = brow s"
  by (simp_all add: log_access_def srv_now_def srv_out_def)

lemma log_access_log:
  "access_log (log_access E c u st w s) = access_log s
     @ [(log_entry_new (srv_now s) c u st w, sv_log_io E (length (access_log s)) = None)]"
  by (simp add: log_access_def)

text \<open>A response written after the page was looked at (or refused) answers the request.\<close>

lemma send_response_answers:
  assumes "send_response E resp t = (r, s')"
    and "rd_buf (rd t) = rd_buf (rd s)" "rd_sock (rd t) = rd_sock (rd s)" "srv_now s \<le> srv_now t"
    and "sess_callsign (sess t) = sess_callsign (sess s)" "acknowledged (sess t) = acknowledged (sess s)"
    and "visits t = visits s @ map (\<lambda>t. (t, url)) ts" "list_all (\<lambda>t. srv_now s \<le> t \<and> check_url E (srv_now s) url = Ok ()) ts"
    and "access_log t = access_log s @ es" "list_all (\<lambda>(e, _). le_call e = sess_callsign (sess s) \<and> le_url e = url) es"
  shows "answered E url s r s'"
proof -
  have "srv_out t = srv_out s" using assms(3) by (simp add: srv_out_def)
  with write_frame [OF assms(1) [unfolded send_response_def]] assms(2-) show ?thesis
    unfolding answered_def by (auto split: sum.splits)
qed

lemma answer_page_answers:
  assumes "answer_page E age url inm html t = (r, s')" and "fetch_frame url s t"
    and "check_url E (srv_now s) url = Ok ()"
  shows "answered E url s r s'"
proof -
  let ?e = "(log_entry_new (srv_now t) (sess_callsign (sess t)) url LogOk None, sv_log_io E (length (access_log t)) = None)"
  let ?t = "(log_access E (sess_callsign (sess t)) url LogOk None t)\<lparr>sess := (sess t)\<lparr>current_url := Some url\<rparr>\<rparr>"
  from assms(1) obtain resp where resp: "send_response E resp ?t = (r, s')"
    by (auto simp: answer_page_def Let_def send_error_response_def send_status_response_def split: if_splits sum.splits)
  from assms(2) obtain ts where "visits t = visits s @ map (\<lambda>t. (t, url)) ts" "list_all (\<lambda>t. srv_now s \<le> t) ts"
    by (auto simp: fetch_frame_def)
  then show ?thesis
    using assms(2,3)
    by (intro send_response_answers [OF resp, where ts = ts and es = "[?e]"])
      (auto simp: fetch_frame_def log_access_log log_entry_new_def list_all_iff srv_now_def)
qed

lemma handle_request_answers:
  assumes "handle_request E url inm s = Some (r, s')"
  shows "answered E url s r s'"
proof (cases "check_url E (srv_now s) url")
  case (Inl e)
  obtain st ls where st: "url_error_status e = (st, ls)" by fastforce
  let ?m = "url_error_to_string e"
  let ?t = "log_access E (sess_callsign (sess s)) url ls (Some ?m) s"
  have "send_response E (status_response E st ?m) ?t = (r, s')"
    using assms Inl st by (simp add: handle_request_def send_status_response_def Let_def)
  then show ?thesis
    by (rule send_response_answers [where ts = "[]"]) (auto simp: log_access_log log_entry_new_def)
next
  case (Inr u)
  let ?s = "s\<lparr>probes := probes s + 1\<rparr>"
  from assms Inr obtain f t where f: "fetch_loop E url ?s = Some (f, t)"
    by (auto simp: handle_request_def Let_def split: option.splits)
  have fr: "fetch_frame url s t" using fetch_loop_frame [OF f] by (simp add: fetch_frame_def srv_now_def)
  then obtain ts where ts: "visits t = visits s @ map (\<lambda>t. (t, url)) ts" "list_all (\<lambda>t. srv_now s \<le> t) ts"
    by (auto simp: fetch_frame_def)
  have ok: "check_url E (srv_now s) url = Ok ()" using Inr by simp
  show ?thesis
  proof (cases f)
    case (Inr html)
    with assms ok f show ?thesis
      by (auto simp: handle_request_def Let_def intro: answer_page_answers [OF _ fr ok])
  next
    case (Inl e)
    show ?thesis
    proof (cases e)
      case Unavailable
      then have "send_response E (status_response E StatusErr ''Browser unavailable'') t = (r, s')"
        using assms ok f Inl
        by (simp add: handle_request_def Let_def send_error_response_def send_status_response_def)
      then show ?thesis
        by (rule send_response_answers [where ts = ts and es = "[]"])
          (use fr ts ok in \<open>auto simp: fetch_frame_def list_all_iff\<close>)
    next
      case (LoadError b)
      let ?w = "Some (browser_error_to_string b)"
      let ?t = "log_access E (sess_callsign (sess t)) url LogError ?w t"
      have "send_response E (status_response E StatusErr ''Failed to load page'') ?t = (r, s')"
        using assms ok f Inl LoadError
        by (simp add: handle_request_def Let_def send_error_response_def send_status_response_def)
      then show ?thesis
        by (rule send_response_answers [where ts = ts
              and es = "[(log_entry_new (srv_now t) (sess_callsign (sess t)) url LogError ?w,
                 sv_log_io E (length (access_log t)) = None)]"])
          (use fr ts ok in \<open>auto simp: fetch_frame_def list_all_iff log_access_log log_entry_new_def\<close>)
    qed
  qed
qed

lemma write_size: "srv_write bs s = (r, s') \<Longrightarrow> reader_size (rd s') = reader_size (rd s)"
  by (frule write_frame(1), drule write_frame(2)) (simp add: reader_size_def tcp_size_def)

lemma touch_rd [simp]: "rd (srv_touch s) = rd s"
  by (simp add: srv_touch_def)

lemma answered_size: "answered E url s r s' \<Longrightarrow> reader_size (rd s') = reader_size (rd s)"
  by (simp add: answered_def reader_size_def tcp_size_def)

section \<open>The connection\<close>

definition idle_deadline :: "ServerEnv \<Rightarrow> Srv \<Rightarrow> nat" where
  "idle_deadline E s = last_activity (sess s) + minutes_to_secs (idle_timeout_minutes (sv_config E)) * 1000"

definition idle_notice :: bytes where
  "idle_notice = LF # ''Session timed out due to inactivity.'' @ [LF]"

text \<open>The request loop.\<close>

function session_loop :: "ServerEnv \<Rightarrow> Srv \<Rightarrow> Srv option" where
  "session_loop E s =
     (case read_request (idle_deadline E s) (rd s) of
        (Inr None, r) \<Rightarrow> Some (s\<lparr>rd := r\<rparr>)
      | (Inl e, r) \<Rightarrow>
          let s = s\<lparr>rd := r\<rparr> in
          if io_kind e = TimedOut then Some (snd (srv_write idle_notice s))
          else Some s
      | (Inr (Some (Post url body)), r) \<Rightarrow>
          (case send_error_response E ''POST requests are not supported'' (srv_touch (s\<lparr>rd := r\<rparr>)) of
             (Inl e, s) \<Rightarrow> Some s
           | (Inr _, s) \<Rightarrow> session_loop E (srv_touch s))
      | (Inr (Some (Get url inm)), r) \<Rightarrow>
          (case handle_request E url inm (srv_touch (s\<lparr>rd := r\<rparr>)) of
             None \<Rightarrow> None
           | Some (_, s) \<Rightarrow> session_loop E (srv_touch s)))"
  by pat_completeness auto
termination
proof (relation "measure (\<lambda>(E, s). reader_size (rd s))", goal_cases)
  case 1
  show ?case by simp
next
  case (2 E s x r b q url inm z y s1)
  then have h: "handle_request E url inm (srv_touch (s\<lparr>rd := r\<rparr>)) = Some (y, s1)" by simp
  show ?case
    using read_request_reads(2) [of "idle_deadline E s" "rd s" x r q] answered_size [OF handle_request_answers [OF h]] 2
    by simp
next
  case (3 E s x r b q url body y s1 u)
  then have w: "srv_write (response_encode (sv_b64 E) (status_response E StatusErr ''POST requests are not supported''))
      (srv_touch (s\<lparr>rd := r\<rparr>)) = (y, s1)"
    by (simp add: send_error_response_def send_status_response_def send_response_def)
  show ?case
    using read_request_reads(2) [of "idle_deadline E s" "rd s" x r q] write_size [OF w] 3
    by simp
qed

declare session_loop.simps [simp del]

definition login_prompt :: bytes where "login_prompt = ''Enter your callsign: ''"

definition agree_prompt :: bytes where
  "agree_prompt = ''All activity is logged including your callsign.'' @ [LF] @ ''Type AGREE to proceed: ''"

text \<open>After the operator agreed.\<close>

definition serve_session :: "ServerEnv \<Rightarrow> bytes \<Rightarrow> Srv \<Rightarrow> ((IoError, unit) result \<times> Srv) option" where
  "serve_session E call s =
     (let s = s\<lparr>sess := acknowledge (srv_now s) (sess s)\<rparr>;
          s = log_access E call ''AGREED'' LogAgreed None s in
      case srv_launch E s of
        (Inl e, s) \<Rightarrow> Some (send_error_response E ''Browser initialization failed'' s)
      | (Inr b, s) \<Rightarrow> map_option (\<lambda>s. (Ok (), srv_drop s)) (session_loop E (s\<lparr>brow := Some b\<rparr>)))"

text \<open>After the callsign was accepted.\<close>

definition ask_agreement :: "ServerEnv \<Rightarrow> nat \<Rightarrow> bytes \<Rightarrow> Srv \<Rightarrow> ((IoError, unit) result \<times> Srv) option" where
  "ask_agreement E deadline call s =
     (let s = s\<lparr>sess := session_begin (srv_now s) call\<rparr> in
      case srv_write agree_prompt s of
        (Inl e, s) \<Rightarrow> Some (Err e, s)
      | (Inr _, s) \<Rightarrow>
          (case preauth_loop (sv_upper E) call deadline (rd s) of
             (Inl e, r) \<Rightarrow> Some (Err e, s\<lparr>rd := r\<rparr>)
           | (Inr None, r) \<Rightarrow> Some (Ok (), s\<lparr>rd := r\<rparr>)
           | (Inr (Some line), r) \<Rightarrow>
               let s = s\<lparr>rd := r\<rparr> in
               if to_uppercase (sv_upper E) (trim line) \<noteq> ''AGREE'' then
                 Some (srv_write (''Acknowledgment required. Goodbye.'' @ [LF]) s)
               else serve_session E call s))"

definition handle_connection :: "ServerEnv \<Rightarrow> Srv \<Rightarrow> ((IoError, unit) result \<times> Srv) option" where
  "handle_connection E s =
     (case sv_clone E of
        Some e \<Rightarrow> Some (Err (IoError OtherIo e), s)
      | None \<Rightarrow>
          (case srv_write login_prompt s of
             (Inl e, s) \<Rightarrow> Some (Err e, s)
           | (Inr _, s) \<Rightarrow>
               let deadline = srv_now s + PRE_AUTH_TIMEOUT_SECS * 1000 in
               (case read_bounded_line_until deadline (rd s) of
                  (Inl e, r) \<Rightarrow> Some (Err e, s\<lparr>rd := r\<rparr>)
                | (Inr None, r) \<Rightarrow> Some (Ok (), s\<lparr>rd := r\<rparr>)
                | (Inr (Some line), r) \<Rightarrow>
                    let s = s\<lparr>rd := r\<rparr> in
                    (case validate_callsign_with_allowlist (sv_upper E) (trim line) (allowed_callsigns (sv_config E)) of
                       Inl e \<Rightarrow>
                         Some (Ok (), snd (srv_write (''Invalid callsign format. Disconnecting.'' @ [LF]) s))
                     | Inr call \<Rightarrow> ask_agreement E deadline call s))))"

end
