(* ===== verification/Server_Safety.thy ===== *)
theory Server_Safety
  imports Server_Main
begin

text \<open>
  What the server does over a whole connection: nothing is fetched before a valid callsign and
  \<open>AGREE\<close>, every page that is fetched passed the filter, and after \<open>AGREE\<close> the peer receives
  response frames only.
\<close>

section \<open>A whole session\<close>

definition frames :: "ServerEnv \<Rightarrow> Response list \<Rightarrow> bytes" where
  "frames E rs = concat (map (response_encode (sv_b64 E)) rs)"

lemma frames_append [simp]: "frames E (rs @ rs') = frames E rs @ frames E rs'" "frames E [] = []"
  by (simp_all add: frames_def)

text \<open>A visit that the filter had passed no later than it was made.\<close>

definition checked :: "ServerEnv \<Rightarrow> nat \<times> bytes \<Rightarrow> bool" where
  "checked E v \<longleftrightarrow> (\<exists>t \<le> fst v. check_url E t (snd v) = Ok ())"

definition entries_of :: "bytes \<Rightarrow> (LogEntry \<times> bool) list \<Rightarrow> bool" where
  "entries_of call es \<longleftrightarrow> list_all (\<lambda>(e, _). le_call e = call) es"

lemma entries_of_append [simp]: "entries_of c (es @ fs) \<longleftrightarrow> entries_of c es \<and> entries_of c fs"
  by (simp add: entries_of_def)

definition served :: "ServerEnv \<Rightarrow> Srv \<Rightarrow> Srv \<Rightarrow> bool" where
  "served E s s' \<longleftrightarrow>
     sess_callsign (sess s') = sess_callsign (sess s)
     \<and> (\<exists>rs tl. srv_out s' = srv_out s @ frames E rs @ tl \<and> tl \<in> {[], idle_notice})
     \<and> (\<exists>vs. visits s' = visits s @ vs \<and> list_all (checked E) vs)
     \<and> (\<exists>es. access_log s' = access_log s @ es \<and> entries_of (sess_callsign (sess s)) es)"

text \<open>Going on after one answer.\<close>

definition one_answer :: "ServerEnv \<Rightarrow> Srv \<Rightarrow> Srv \<Rightarrow> bool" where
  "one_answer E s s' \<longleftrightarrow>
     sess_callsign (sess s') = sess_callsign (sess s)
     \<and> (\<exists>rs. srv_out s' = srv_out s @ frames E rs)
     \<and> (\<exists>vs. visits s' = visits s @ vs \<and> list_all (checked E) vs)
     \<and> (\<exists>es. access_log s' = access_log s @ es \<and> entries_of (sess_callsign (sess s)) es)"

lemma one_answer_served:
  assumes "one_answer E s t" and "served E t u"
  shows "served E s u"
proof -
  from assms obtain rs1 vs1 es1 rs2 tl vs2 es2 where
    "srv_out t = srv_out s @ frames E rs1" "visits t = visits s @ vs1" "access_log t = access_log s @ es1"
    "srv_out u = srv_out t @ frames E rs2 @ tl" "visits u = visits t @ vs2" "access_log u = access_log t @ es2"
    and ok: "list_all (checked E) vs1" "list_all (checked E) vs2" "tl \<in> {[], idle_notice}"
      "entries_of (sess_callsign (sess s)) es1" "entries_of (sess_callsign (sess t)) es2"
    unfolding one_answer_def served_def by (elim conjE exE) blast
  then have "srv_out u = srv_out s @ frames E (rs1 @ rs2) @ tl" "visits u = visits s @ (vs1 @ vs2)"
    "access_log u = access_log s @ (es1 @ es2)" by simp_all
  moreover have "sess_callsign (sess u) = sess_callsign (sess s)" "sess_callsign (sess t) = sess_callsign (sess s)"
    using assms by (simp_all add: one_answer_def served_def)
  ultimately show ?thesis unfolding served_def using ok
    by (intro conjI exI [of _ "rs1 @ rs2"] exI [of _ tl] exI [of _ "vs1 @ vs2"] exI [of _ "es1 @ es2"]) simp_all
qed

lemma one_answer_touch: "one_answer E s t \<Longrightarrow> one_answer E s (srv_touch t)"
  by (simp add: one_answer_def srv_touch_def srv_out_def touch_def)

lemma answered_one: "answered E url s r t \<Longrightarrow> one_answer E s t"
proof -
  assume a: "answered E url s r t"
  then obtain resp ts es where
    "srv_out t = (case r of Inr _ \<Rightarrow> srv_out s @ response_encode (sv_b64 E) resp | Inl e \<Rightarrow> srv_out s)"
    and v: "visits t = visits s @ map (\<lambda>t. (t, url)) ts"
      "list_all (\<lambda>t. srv_now s \<le> t \<and> check_url E (srv_now s) url = Ok ()) ts"
    and l: "access_log t = access_log s @ es"
      "list_all (\<lambda>(e, _). le_call e = sess_callsign (sess s) \<and> le_url e = url) es"
    unfolding answered_def by blast
  then have "srv_out t = srv_out s @ frames E (case r of Inr _ \<Rightarrow> [resp] | Inl e \<Rightarrow> [])"
    by (cases r) (simp_all add: frames_def)
  moreover have "list_all (checked E) (map (\<lambda>t. (t, url)) ts)" using v(2) by (auto simp: checked_def list_all_iff)
  moreover have "entries_of (sess_callsign (sess s)) es" using l(2) by (auto simp: entries_of_def list_all_iff)
  ultimately show ?thesis using a v(1) l(1) unfolding one_answer_def answered_def by blast
qed

lemma write_one:
  "send_response E resp s = (r, t) \<Longrightarrow> one_answer E s t"
  unfolding send_response_def one_answer_def
  using write_frame [of "response_encode (sv_b64 E) resp" s r t]
  by (auto simp: frames_def entries_of_def split: sum.splits
      intro!: exI [of _ "case r of Inr _ \<Rightarrow> [resp] | Inl e \<Rightarrow> []"])

text \<open>Reading changes nothing that the specification speaks of.\<close>

lemma one_answer_read:
  assumes "reads_on (rd s) r" and "one_answer E (srv_touch (s\<lparr>rd := r\<rparr>)) t"
  shows "one_answer E s t"
  using assms by (simp add: one_answer_def srv_touch_def srv_out_def reads_on_def touch_def)

lemma session_loop_served: "session_loop E s = Some s' \<Longrightarrow> served E s s'"
proof (induction E s rule: session_loop.induct)
  case (1 E s)
  obtain x r where x: "read_request (idle_deadline E s) (rd s) = (x, r)" by fastforce
  note rd = read_request_reads(1) [OF x]
  have same: "served E s (s\<lparr>rd := r\<rparr>)"
    using rd by (auto simp: served_def srv_out_def reads_on_def entries_of_def intro!: exI [of _ "[]"])
  consider (eof) "x = Ok None" | (err) e where "x = Err e" | (post) url body where "x = Ok (Some (Post url body))"
    | (get) url inm where "x = Ok (Some (Get url inm))"
    by (metis Request.exhaust not_None_eq sum.exhaust)
  then show ?case
  proof cases
    case eof
    with "1.prems" x same show ?thesis by (simp add: session_loop.simps [of E s])
  next
    case err
    obtain w t where w: "srv_write idle_notice (s\<lparr>rd := r\<rparr>) = (w, t)" by fastforce
    have wo: "srv_out t = srv_out s @ frames E [] @ (case w of Inr _ \<Rightarrow> idle_notice | Inl e \<Rightarrow> [])"
      using write_frame(7) [OF w] rd by (auto simp: srv_out_def reads_on_def split: sum.splits)
    have "\<exists>rs tl. srv_out t = srv_out s @ frames E rs @ tl \<and> tl \<in> {[], idle_notice}"
      by (intro exI conjI, rule wo) (simp split: sum.split)
    then have "served E s t"
      using write_frame(4-6) [OF w] by (simp add: served_def entries_of_def)
    with "1.prems" x err same w show ?thesis by (auto simp: session_loop.simps [of E s] Let_def split: if_splits)
  next
    case post
    let ?s = "srv_touch (s\<lparr>rd := r\<rparr>)"
    obtain w t where w: "send_error_response E ''POST requests are not supported'' ?s = (w, t)" by fastforce
    then have one: "one_answer E s t"
      using one_answer_read [OF rd] write_one by (metis send_error_response_def send_status_response_def)
    show ?thesis
    proof (cases w)
      case (Inl e)
      then have "s' = t" using "1.prems" x post w by (simp add: session_loop.simps [of E s])
      moreover have "served E t t" by (auto simp: served_def entries_of_def intro!: exI [of _ "[]"])
      ultimately show ?thesis using one one_answer_served by blast
    next
      case (Inr u)
      then have "session_loop E (srv_touch t) = Some s'" using "1.prems" x post w by (simp add: session_loop.simps [of E s])
      then have "served E (srv_touch t) s'" using "1.IH"(2) x post w Inr by metis
      then show ?thesis using one one_answer_touch one_answer_served by blast
    qed
  next
    case get
    let ?s = "srv_touch (s\<lparr>rd := r\<rparr>)"
    obtain w t where w: "handle_request E url inm ?s = Some (w, t)"
      using "1.prems" x get by (auto simp: session_loop.simps [of E s] split: option.splits)
    have one: "one_answer E s t"
      using one_answer_read [OF rd] answered_one [OF handle_request_answers [OF w]] by blast
    have "session_loop E (srv_touch t) = Some s'" using "1.prems" x get w by (simp add: session_loop.simps [of E s])
    then have "served E (srv_touch t) s'" using "1.IH"(1) x get w by metis
    then show ?thesis using one one_answer_touch one_answer_served by blast
  qed
qed

section \<open>A whole connection\<close>

text \<open>The two lines of a login, as the server reads them: \<open>logged_in E s call s3\<close> holds when the
  first line is a callsign that validates to \<open>call\<close>, the first line after it that is neither
  its duplicate nor a status line of the node is \<open>AGREE\<close> in any letter case, and \<open>s3\<close> is the
  state in which the session begins.\<close>

definition logged_in :: "ServerEnv \<Rightarrow> Srv \<Rightarrow> bytes \<Rightarrow> Srv \<Rightarrow> bool" where
  "logged_in E s call s3 \<longleftrightarrow>
     (\<exists>s1 line r1 s2 answer r2.
        srv_write login_prompt s = (Ok (), s1)
        \<and> read_bounded_line_until (srv_now s + PRE_AUTH_TIMEOUT_SECS * 1000) (rd s1) = (Ok (Some line), r1)
        \<and> validate_callsign_with_allowlist (sv_upper E) (trim line) (allowed_callsigns (sv_config E)) = Ok call
        \<and> srv_write agree_prompt (s1\<lparr>rd := r1, sess := session_begin (rd_now r1) call\<rparr>) = (Ok (), s2)
        \<and> preauth_loop (sv_upper E) call (srv_now s + PRE_AUTH_TIMEOUT_SECS * 1000) (rd s2) = (Ok (Some answer), r2)
        \<and> to_uppercase (sv_upper E) (trim answer) = ''AGREE'' \<and> s3 = s2\<lparr>rd := r2\<rparr>)"

lemma preauth_reads: "preauth_loop uc call dl r = (res, r') \<Longrightarrow> reads_on r r'"
proof (induction uc call dl r rule: preauth_loop.induct)
  case (1 uc call dl r)
  obtain x r1 where x: "read_bounded_line_until dl r = (x, r1)" by fastforce
  note rd = line_reads(1) [OF x]
  show ?case
  proof (cases "\<exists>line. x = Ok (Some line) \<and> classify_preauth_line uc line call \<noteq> Candidate")
    case True
    then obtain line where l: "x = Ok (Some line)" "classify_preauth_line uc line call \<noteq> Candidate" by blast
    then have rec: "preauth_loop uc call dl r1 = (res, r')"
      using "1.prems" x by (cases "classify_preauth_line uc line call") (simp_all add: preauth_loop.simps [of uc call dl r])
    have "reads_on r1 r'"
      using "1.IH"(1) [OF x [symmetric] l(1) refl _ rec] "1.IH"(2) [OF x [symmetric] l(1) refl _ rec] l(2)
      by (cases "classify_preauth_line uc line call") simp_all
    with rd show ?thesis by (rule reads_on_trans)
  next
    case False
    with "1.prems" x have "r' = r1"
      by (auto simp: preauth_loop.simps [of uc call dl r] split: sum.splits option.splits PreAuthLine.splits)
    with rd show ?thesis by simp
  qed
qed

lemma logged_in_out:
  assumes "logged_in E s call s3"
  shows "srv_out s3 = srv_out s @ login_prompt @ agree_prompt" and "visits s3 = visits s"
    and "access_log s3 = access_log s" and "sess_callsign (sess s3) = call"
proof -
  from assms obtain s1 line r1 s2 answer r2 where
    w1: "srv_write login_prompt s = (Ok (), s1)" and
    l1: "read_bounded_line_until (srv_now s + PRE_AUTH_TIMEOUT_SECS * 1000) (rd s1) = (Ok (Some line), r1)" and
    w2: "srv_write agree_prompt (s1\<lparr>rd := r1, sess := session_begin (rd_now r1) call\<rparr>) = (Ok (), s2)" and
    l2: "preauth_loop (sv_upper E) call (srv_now s + PRE_AUTH_TIMEOUT_SECS * 1000) (rd s2) = (Ok (Some answer), r2)" and
    s3: "s3 = s2\<lparr>rd := r2\<rparr>"
    unfolding logged_in_def by blast
  note f1 = write_frame [OF w1] and f2 = write_frame [OF w2] and r1 = line_reads(1) [OF l1] and r2 = preauth_reads [OF l2]
  show "srv_out s3 = srv_out s @ login_prompt @ agree_prompt" "visits s3 = visits s"
    "access_log s3 = access_log s" "sess_callsign (sess s3) = call"
    using f1(5-7) f2(4-7) r1 r2 by (simp_all add: s3 srv_out_def reads_on_def session_begin_def)
qed

text \<open>A connection that does not log in.\<close>

definition refused_conn :: "Srv \<Rightarrow> Srv \<Rightarrow> bool" where
  "refused_conn s s' \<longleftrightarrow>
     visits s' = visits s \<and> access_log s' = access_log s
     \<and> (\<exists>out. srv_out s' = srv_out s @ out
          \<and> out \<in> {[], login_prompt, login_prompt @ ''Invalid callsign format. Disconnecting.'' @ [LF],
                   login_prompt @ agree_prompt,
                   login_prompt @ agree_prompt @ ''Acknowledgment required. Goodbye.'' @ [LF]})"

lemma refused_connI:
  assumes "visits s' = visits s" and "access_log s' = access_log s" and "srv_out s' = srv_out s @ out"
    and "out \<in> {[], login_prompt, login_prompt @ ''Invalid callsign format. Disconnecting.'' @ [LF],
                login_prompt @ agree_prompt, login_prompt @ agree_prompt @ ''Acknowledgment required. Goodbye.'' @ [LF]}"
  shows "refused_conn s s'"
  using assms unfolding refused_conn_def by blast

lemma ask_agreement_cases:
  assumes ask: "ask_agreement E (srv_now s + PRE_AUTH_TIMEOUT_SECS * 1000) call (s1\<lparr>rd := r1\<rparr>) = Some (r, s')"
    and w1: "srv_write login_prompt s = (Ok (), s1)"
    and l1: "read_bounded_line_until (srv_now s + PRE_AUTH_TIMEOUT_SECS * 1000) (rd s1) = (Ok (Some line), r1)"
    and v: "validate_callsign_with_allowlist (sv_upper E) (trim line) (allowed_callsigns (sv_config E)) = Ok call"
  shows "refused_conn s s' \<or> (\<exists>s3. logged_in E s call s3 \<and> serve_session E call s3 = Some (r, s'))"
proof -
  let ?dl = "srv_now s + PRE_AUTH_TIMEOUT_SECS * 1000"
  let ?t = "s1\<lparr>rd := r1, sess := session_begin (rd_now r1) call\<rparr>"
  note f1 = write_frame(5-7) [OF w1] and rd1 = line_reads(1) [OF l1]
  obtain w s2 where w2: "srv_write agree_prompt ?t = (w, s2)" by fastforce
  note f2 = write_frame(5-7) [OF w2]
  have now: "srv_now (s1\<lparr>rd := r1\<rparr>) = rd_now r1" by (simp add: srv_now_def)
  have t: "srv_out ?t = srv_out s @ login_prompt" "visits ?t = visits s" "access_log ?t = access_log s"
    using f1 rd1 by (simp_all add: srv_out_def reads_on_def)
  have ask': "(case (w, s2) of
        (Inl e, s) \<Rightarrow> Some (Err e, s)
      | (Inr _, s) \<Rightarrow>
          (case preauth_loop (sv_upper E) call ?dl (rd s) of
             (Inl e, r) \<Rightarrow> Some (Err e, s\<lparr>rd := r\<rparr>)
           | (Inr None, r) \<Rightarrow> Some (Ok (), s\<lparr>rd := r\<rparr>)
           | (Inr (Some line), r) \<Rightarrow>
               let s = s\<lparr>rd := r\<rparr> in
               if to_uppercase (sv_upper E) (trim line) \<noteq> ''AGREE'' then
                 Some (srv_write (''Acknowledgment required. Goodbye.'' @ [LF]) s)
               else serve_session E call s)) = Some (r, s')"
    using ask w2 now by (simp add: ask_agreement_def Let_def)
  show ?thesis
  proof (cases w)
    case (Inl e)
    with ask' have "s' = s2" by simp
    then show ?thesis using f2 t Inl by (intro disjI1 refused_connI [where out = login_prompt]) simp_all
  next
    case (Inr u)
    obtain x r2 where x: "preauth_loop (sv_upper E) call ?dl (rd s2) = (x, r2)" by fastforce
    have rd2: "reads_on (rd s2) r2" using preauth_reads [OF x] .
    have s2: "srv_out (s2\<lparr>rd := r2\<rparr>) = srv_out s @ login_prompt @ agree_prompt"
      "visits (s2\<lparr>rd := r2\<rparr>) = visits s" "access_log (s2\<lparr>rd := r2\<rparr>) = access_log s"
      using f2 t rd2 Inr by (simp_all add: srv_out_def reads_on_def)
    consider (ended) "s' = s2\<lparr>rd := r2\<rparr>"
      | (other) "srv_write (''Acknowledgment required. Goodbye.'' @ [LF]) (s2\<lparr>rd := r2\<rparr>) = (r, s')"
      | (agreed) answer where "x = Ok (Some answer)" "to_uppercase (sv_upper E) (trim answer) = ''AGREE''"
          "serve_session E call (s2\<lparr>rd := r2\<rparr>) = Some (r, s')"
      using ask' Inr x by (auto simp: Let_def split: sum.splits option.splits if_splits)
    then show ?thesis
    proof cases
      case ended
      then show ?thesis using s2 by (intro disjI1 refused_connI [where out = "login_prompt @ agree_prompt"]) simp_all
    next
      case other
      note fo = write_frame(5-7) [OF other]
      then show ?thesis
        using s2 by (intro disjI1 refused_connI [where out = "login_prompt @ agree_prompt @
            (case r of Inr _ \<Rightarrow> ''Acknowledgment required. Goodbye.'' @ [LF] | Inl e \<Rightarrow> [])"])
          (auto split: sum.splits)
    next
      case agreed
      have "logged_in E s call (s2\<lparr>rd := r2\<rparr>)"
        unfolding logged_in_def using w1 l1 v w2 Inr x agreed by (intro exI conjI) auto
      with agreed show ?thesis by blast
    qed
  qed
qed

lemma connection_cases:
  assumes "handle_connection E s = Some (r, s')"
  shows "refused_conn s s' \<or> (\<exists>call s3. logged_in E s call s3 \<and> serve_session E call s3 = Some (r, s'))"
proof (cases "sv_clone E")
  case (Some e)
  with assms show ?thesis by (auto simp: handle_connection_def intro: refused_connI [where out = "[]"])
next
  case None
  obtain w s1 where w1: "srv_write login_prompt s = (w, s1)" by fastforce
  note f1 = write_frame(5-7) [OF w1] and now = write_frame(3) [OF w1]
  show ?thesis
  proof (cases w)
    case (Inl e)
    with assms None w1 f1 show ?thesis
      by (auto simp: handle_connection_def intro: refused_connI [where out = "[]"])
  next
    case (Inr u)
    obtain x r1 where x: "read_bounded_line_until (srv_now s + PRE_AUTH_TIMEOUT_SECS * 1000) (rd s1) = (x, r1)"
      by fastforce
    have s1: "srv_out (s1\<lparr>rd := r1\<rparr>) = srv_out s @ login_prompt" "visits (s1\<lparr>rd := r1\<rparr>) = visits s"
      "access_log (s1\<lparr>rd := r1\<rparr>) = access_log s"
      using f1 line_reads(1) [OF x] Inr by (simp_all add: srv_out_def reads_on_def)
    consider (ended) "s' = s1\<lparr>rd := r1\<rparr>"
      | (invalid) "s' = snd (srv_write (''Invalid callsign format. Disconnecting.'' @ [LF]) (s1\<lparr>rd := r1\<rparr>))"
      | (valid) line call where "x = Ok (Some line)"
          "validate_callsign_with_allowlist (sv_upper E) (trim line) (allowed_callsigns (sv_config E)) = Ok call"
          "ask_agreement E (srv_now s + PRE_AUTH_TIMEOUT_SECS * 1000) call (s1\<lparr>rd := r1\<rparr>) = Some (r, s')"
      using assms None w1 Inr x now
      by (auto simp: handle_connection_def Let_def split: sum.splits option.splits)
    then show ?thesis
    proof cases
      case ended
      then show ?thesis using s1 by (intro disjI1 refused_connI [where out = login_prompt]) simp_all
    next
      case invalid
      then obtain w where "srv_write (''Invalid callsign format. Disconnecting.'' @ [LF]) (s1\<lparr>rd := r1\<rparr>) = (w, s')"
        by (metis eq_snd_iff)
      note fo = write_frame(5-7) [OF this]
      then show ?thesis
        using s1 by (intro disjI1 refused_connI [where out = "login_prompt @
            (case w of Inr _ \<Rightarrow> ''Invalid callsign format. Disconnecting.'' @ [LF] | Inl e \<Rightarrow> [])"])
          (auto split: sum.splits)
    next
      case valid
      then show ?thesis
        using ask_agreement_cases [OF valid(3), of line] w1 x Inr by fastforce
    qed
  qed
qed

lemma serve_session_served:
  assumes "serve_session E call s3 = Some (r, s')" and "sess_callsign (sess s3) = call"
  shows "\<exists>out vs es ok. srv_out s' = srv_out s3 @ out \<and> (\<exists>rs tl. out = frames E rs @ tl \<and> tl \<in> {[], idle_notice})
     \<and> visits s' = visits s3 @ vs \<and> list_all (checked E) vs
     \<and> access_log s' = access_log s3 @ (log_entry_new (srv_now s3) call ''AGREED'' LogAgreed None, ok) # es
     \<and> entries_of call es"
proof -
  let ?a = "log_access E call ''AGREED'' LogAgreed None (s3\<lparr>sess := acknowledge (srv_now s3) (sess s3)\<rparr>)"
  obtain l t where l: "srv_launch E ?a = (l, t)" by fastforce
  have fr: "fetch_frame [] ?a t" "visits t = visits ?a" using launch_frame [OF l] by blast+
  have t: "srv_out t = srv_out s3" "visits t = visits s3" "sess_callsign (sess t) = call"
    "access_log t = access_log s3 @ [(log_entry_new (srv_now s3) call ''AGREED'' LogAgreed None,
        sv_log_io E (length (access_log s3)) = None)]"
    using fr assms(2)
    by (simp_all add: fetch_frame_def srv_out_def log_access_log acknowledge_def touch_def srv_now_def)
  have "served E t s'"
  proof (cases l)
    case (Inl e)
    then have "send_response E (status_response E StatusErr ''Browser initialization failed'') t = (r, s')"
      using assms(1) l by (simp add: serve_session_def Let_def send_error_response_def send_status_response_def)
    from write_one [OF this] show ?thesis
      by (rule one_answer_served) (auto simp: served_def entries_of_def intro!: exI [of _ "[]"])
  next
    case (Inr b)
    then obtain s4 where s4: "session_loop E (t\<lparr>brow := Some b\<rparr>) = Some s4" "s' = srv_drop s4"
      using assms(1) l by (auto simp: serve_session_def Let_def)
    from session_loop_served [OF s4(1)] show ?thesis by (simp add: served_def s4(2) srv_out_def)
  qed
  then show ?thesis unfolding served_def t by fastforce
qed

section \<open>Connections that do not end\<close>

text \<open>A page load that crashes the browser.\<close>

definition crashes :: "FetchEnv \<Rightarrow> bool" where
  "crashes fe \<longleftrightarrow>
     (case fe_goto fe of
        Some (display, _) \<Rightarrow> session_lost_text display
      | None \<Rightarrow> (case fe_script fe of Inl s \<Rightarrow> session_lost_text s | Inr _ \<Rightarrow> False))"

lemma crashes_iff: "fetch_page fe b = Err BrowserCrashed \<longleftrightarrow> crashes fe"
  by (auto simp: fetch_page_def crashes_def split: option.splits sum.splits)

lemma restart_loads [simp]: "loads (restart E s) = loads s"
proof -
  obtain r t where l: "srv_launch E s = (r, t)" by fastforce
  have "loads t = loads s" using launch_frame [OF l] by blast
  then show ?thesis by (simp add: restart_def l)
qed

lemma fetch_loop_ends:
  assumes "n \<le> k" and "\<not> crashes (sv_fetch E k)" and "loads s = n"
  shows "fetch_loop E url s \<noteq> None"
proof -
  have with_browser: "loads s = n \<Longrightarrow> brow s \<noteq> None \<Longrightarrow> fetch_loop E url s \<noteq> None" for s
    using assms(1)
  proof (induction n arbitrary: s rule: inc_induct)
    case base
    then obtain b where b: "brow s = Some b" by blast
    obtain r t where l: "load_page E url b s = (r, t)" by fastforce
    then have "r \<noteq> Err BrowserCrashed"
      using assms(2) base crashes_iff [of "sv_fetch E k" b] by (auto simp: load_page_def Let_def)
    with b l show ?case by (subst fetch_loop.simps) (auto split: sum.split)
  next
    case (step n)
    then obtain b where b: "brow s = Some b" by blast
    obtain r t where l: "load_page E url b s = (r, t)" by fastforce
    have "loads t = Suc n" using l step.prems by (auto simp: load_page_def Let_def)
    then have "brow (restart E t) \<noteq> None \<Longrightarrow> fetch_loop E url (restart E t) \<noteq> None"
      using step.IH [of "restart E t"] by simp
    with b l show ?case by (subst fetch_loop.simps) (auto simp: Let_def split: sum.split)
  qed
  show ?thesis
  proof (cases "brow s")
    case None
    then show ?thesis
      using with_browser [of "restart E s"] assms(3) by (subst fetch_loop.simps) (auto simp: Let_def)
  qed (use with_browser assms(3) in auto)
qed

definition fair_browser :: "ServerEnv \<Rightarrow> bool" where
  "fair_browser E \<longleftrightarrow> (\<forall>n. \<exists>k \<ge> n. \<not> crashes (sv_fetch E k))"

lemma handle_request_ends: "fair_browser E \<Longrightarrow> handle_request E url inm s \<noteq> None"
proof -
  assume "fair_browser E"
  then obtain k where "loads s \<le> k" "\<not> crashes (sv_fetch E k)" unfolding fair_browser_def by blast
  then have "fetch_loop E url (s\<lparr>probes := probes s + 1\<rparr>) \<noteq> None"
    by (rule fetch_loop_ends) simp
  then show ?thesis
    by (auto simp: handle_request_def Let_def split: sum.split FetchFailure.split option.split prod.split)
qed

lemma session_loop_ends: "fair_browser E \<Longrightarrow> session_loop E s \<noteq> None"
proof (induction E s rule: session_loop.induct)
  case (1 E s)
  obtain x r where x: "read_request (idle_deadline E s) (rd s) = (x, r)" by fastforce
  consider (none) "\<nexists>q. x = Ok (Some q)" | (post) url body where "x = Ok (Some (Post url body))"
    | (get) url inm where "x = Ok (Some (Get url inm))"
    by (metis Request.exhaust)
  then show ?case
  proof cases
    case none
    with x show ?thesis by (auto simp: session_loop.simps [of E s] Let_def split: sum.split option.split)
  next
    case post
    obtain w t where w: "send_error_response E ''POST requests are not supported'' (srv_touch (s\<lparr>rd := r\<rparr>)) = (w, t)"
      by fastforce
    then have "w = Ok () \<Longrightarrow> session_loop E (srv_touch t) \<noteq> None" using "1.IH"(2) "1.prems" x post by metis
    with x post w show ?thesis by (cases w) (simp_all add: session_loop.simps [of E s])
  next
    case get
    obtain w t where w: "handle_request E url inm (srv_touch (s\<lparr>rd := r\<rparr>)) = Some (w, t)"
      using handle_request_ends [OF "1.prems"] by fastforce
    then have "session_loop E (srv_touch t) \<noteq> None" using "1.IH"(1) "1.prems" x get by metis
    with x get w show ?thesis by (simp add: session_loop.simps [of E s])
  qed
qed

lemma serve_session_ends: "fair_browser E \<Longrightarrow> serve_session E call s \<noteq> None"
  using session_loop_ends by (auto simp: serve_session_def Let_def split: prod.split sum.split)

lemma ask_agreement_ends: "fair_browser E \<Longrightarrow> ask_agreement E dl call s \<noteq> None"
  using serve_session_ends by (auto simp: ask_agreement_def Let_def split: prod.split sum.split option.split)

text \<open>When every load crashes and every relaunch succeeds, the request never returns.\<close>

lemma endless_restarts:
  assumes crash: "\<And>n. crashes (sv_fetch E n)" and up: "\<And>s. brow (restart E s) \<noteq> None"
  shows "fetch_loop E url s = None"
proof (rule ccontr)
  assume "fetch_loop E url s \<noteq> None"
  then obtain y where y: "fetch_loop E url s = Some y" by blast
  have "E' = E \<longrightarrow> False" if "fetch_loop E' url' s' = Some y'" for E' url' s' y'
  proof (rule fetch_loop.raw_induct [where P = "\<lambda>E' url s y. E' = E \<longrightarrow> False", OF _ that], intro impI)
    fix loop E' url s and y :: "(FetchFailure, bytes) result \<times> Srv"
    assume IH: "\<And>E' url s y. loop E' url s = Some y \<Longrightarrow> E' = E \<longrightarrow> False"
      and eq: "(case brow s of
        None \<Rightarrow>
          let s = restart E' s in
          if brow s = None then Some (Err Unavailable, s) else loop E' url s
      | Some b \<Rightarrow>
          (case load_page E' url b s of
             (Inr html, s) \<Rightarrow> Some (Ok html, s)
           | (Inl e, s) \<Rightarrow>
               if e = BrowserCrashed then
                 let s = restart E' s in
                 if brow s = None then Some (Err Unavailable, s) else loop E' url s
               else Some (Err (LoadError e), s))) = Some y" and E: "E' = E"
    have none: "loop E url t = None" for t using IH by (metis not_Some_eq)
    have load: "\<exists>t. load_page E url b s = (Err BrowserCrashed, t)" for b
      using crash crashes_iff by (simp add: load_page_def Let_def)
    show False
    proof (cases "brow s")
      case None
      with eq E none up [of s] show ?thesis by (simp add: Let_def)
    next
      case (Some b)
      obtain t where "load_page E url b s = (Err BrowserCrashed, t)" using load by blast
      with Some eq E none up [of t] show ?thesis by (simp add: Let_def)
    qed
  qed
  with y show False by blast
qed

text \<open>A server whose browser shows one short page, and a station that logs in and asks for it.\<close>

definition example_env :: ServerEnv where
  "example_env =
     \<lparr>sv_config = config_from_env (\<lambda>c. c) (\<lambda>s _. s) Map.empty, sv_clone = None, sv_upper = (\<lambda>c. c),
      sv_b64 = b64_encode, sv_sha256 = (\<lambda>_. []), sv_url_safe = (\<lambda>_. ''AAAABBBBCCCCDDDD''),
      sv_brotli = stored_compressor,
      sv_url_parse = (\<lambda>_. Some \<lparr>scheme = ''http'', url_host = Some (Domain ''example.org''), url_port = None\<rparr>),
      sv_blocklist = (\<lambda>_. None), sv_dns = (\<lambda>_ _ _. Some [V4 0x5DB8D822]), sv_proxy_port = Some 8118,
      sv_http_date = (\<lambda>_. None),
      sv_launch = (\<lambda>_. \<lparr>le_alphanumeric = (\<lambda>_. True), le_env = Map.empty, le_tempdir = Ok, le_runtime = None, le_port_probe = None, le_local_addr = Inr 4444,
        le_spawn = None, le_listen = Some 0, le_connect = None, le_timeouts = None\<rparr>),
      sv_fetch = (\<lambda>_. \<lparr>fe_millis = 10, fe_goto = None, fe_script = Inr (Some ''hello'')\<rparr>),
      sv_probe = (\<lambda>_. \<lparr>pe_proxy_ok = False, pe_client_ok = False, pe_head = None, pe_get = None\<rparr>),
      sv_log_io = (\<lambda>_. None)\<rparr>"

definition example_srv :: "(nat \<times> bytes) list \<Rightarrow> Srv" where
  "example_srv segs =
     \<lparr>rd = \<lparr>rd_buf = [], rd_sock = \<lparr>rx = segments segs, written = [], wr_results = []\<rparr>, rd_now = 0\<rparr>,
      sess = session_begin 0 [], brow = None, drv = 0, launches = 0, loads = 0, probes = 0,
      access_log = [], visits = [], used = []\<rparr>"

lemma example_srv_fields [simp]:
  "wr_results (rd_sock (rd (example_srv segs))) = []" "srv_now (example_srv segs) = 0" "srv_out (example_srv segs) = []"
  by (simp_all add: example_srv_def srv_now_def srv_out_def)

lemma example_arrives: "timely b segs \<Longrightarrow> arrives b (rd (example_srv segs)) (concat (map snd segs)) []"
  by (auto simp: arrives_def example_srv_def)

section \<open>Properties\<close>

text \<open>
  C2: nothing is fetched without consent, and nothing that the filter refuses. For every
  environment and every peer: a connection that ends either never logged in, and then the browser
  visited nothing and the log is untouched; or its first line was a valid callsign and its
  answer to the disclaimer \<open>AGREE\<close>, the first entry it adds to the log says so, every later entry
  carries the same callsign, and every URL the browser was sent to had passed the URL filter no
  later than it was visited.
\<close>

theorem browsing_needs_agreement:
  "case handle_connection E s of
     None \<Rightarrow> True
   | Some (r, s') \<Rightarrow>
       refused_conn s s'
       \<or> (\<exists>call s3 vs es ok. logged_in E s call s3
            \<and> visits s' = visits s @ vs \<and> list_all (checked E) vs
            \<and> access_log s' = access_log s @ (log_entry_new (srv_now s3) call ''AGREED'' LogAgreed None, ok) # es
            \<and> entries_of call es)"
proof (cases "handle_connection E s")
  case (Some y)
  obtain r s' where y: "y = (r, s')" by fastforce
  have "refused_conn s s' \<or> (\<exists>call s3. logged_in E s call s3 \<and> serve_session E call s3 = Some (r, s'))"
    using connection_cases Some y by blast
  then consider "refused_conn s s'"
    | call s3 where "logged_in E s call s3" "serve_session E call s3 = Some (r, s')" by blast
  then show ?thesis
  proof cases
    case 2
    note l = logged_in_out [OF 2(1)]
    obtain vs es ok where "visits s' = visits s @ vs" "list_all (checked E) vs" "entries_of call es"
      "access_log s' = access_log s @ (log_entry_new (srv_now s3) call ''AGREED'' LogAgreed None, ok) # es"
      using serve_session_served [OF 2(2) l(4)] l(2,3) by auto
    with 2 Some y show ?thesis by (simp, intro disjI2) blast
  qed (simp add: Some y)
qed simp




end
