(* ===== verification/End_To_End.thy ===== *)
theory End_To_End
  imports Delivery Server_Safety
begin

text \<open>
  Client and server together: the login lines that the client sends are accepted by the
  server, and a page that the server loads is the page that the client decodes.
\<close>

section \<open>The login lines\<close>

text \<open>A line of the kind the node adds, which the server is to skip.\<close>

definition noise_line :: "ServerEnv \<Rightarrow> bytes \<Rightarrow> bytes \<Rightarrow> bool" where
  "noise_line E call l \<longleftrightarrow>
     LF \<notin> set l \<and> utf8_valid l \<and> length l \<le> MAX_LINE_LENGTH
     \<and> classify_preauth_line (sv_upper E) (l @ [LF]) call \<noteq> Candidate"

definition lines :: "bytes list \<Rightarrow> bytes" where
  "lines ls = concat (map (\<lambda>l. l @ [LF]) ls)"

lemma lines_simps [simp]: "lines [] = []" "lines (l # ls) = l @ LF # lines ls"
  by (simp_all add: lines_def)

lemma preauth_skips_noise:
  assumes "list_all (noise_line E call) noise"
    and "arrives b r (lines noise @ ans @ LF # rest) tail"
    and "LF \<notin> set ans" "utf8_valid ans" "length ans \<le> MAX_LINE_LENGTH"
    and "classify_preauth_line (sv_upper E) (ans @ [LF]) call = Candidate"
    and "rd_now r < b" "b \<le> dl"
  shows "\<exists>r'. preauth_loop (sv_upper E) call dl r = (Ok (Some (ans @ [LF])), r') \<and> arrives b r' rest tail
     \<and> rd_now r \<le> rd_now r' \<and> rd_now r' < b"
  using assms(1,2,7)
proof (induction noise arbitrary: r)
  case Nil
  then obtain r' where "read_bounded_line_until dl r = (Ok (Some (ans @ [LF])), r')" "arrives b r' rest tail"
    "rd_now r \<le> rd_now r'" "rd_now r' < b"
    using line_arrives [of b r ans rest tail dl] assms by auto
  with assms(6) show ?case by (simp add: preauth_loop.simps [of _ _ _ r])
next
  case (Cons l noise)
  then obtain r1 where r1: "read_bounded_line_until dl r = (Ok (Some (l @ [LF])), r1)"
    "arrives b r1 (lines noise @ ans @ LF # rest) tail" "rd_now r \<le> rd_now r1" "rd_now r1 < b"
    using line_arrives [of b r l "lines noise @ ans @ LF # rest" tail dl] assms by (auto simp: noise_line_def)
  have "preauth_loop (sv_upper E) call dl r = preauth_loop (sv_upper E) call dl r1"
    using r1(1) Cons.prems(1)
    by (cases "classify_preauth_line (sv_upper E) (l @ [LF]) call")
      (simp_all add: preauth_loop.simps [of _ _ _ r] noise_line_def)
  with Cons.IH [OF _ r1(2,4)] Cons.prems(1) r1(3) show ?case by fastforce
qed

text \<open>A login that succeeds takes the connection to the session.\<close>

lemma logged_in_serves:
  assumes "logged_in E s call s3" and "sv_clone E = None"
  shows "handle_connection E s = serve_session E call s3"
proof -
  from assms(1) obtain s1 line r1 s2 answer r2 where
    w1: "srv_write login_prompt s = (Ok (), s1)" and
    rest: "read_bounded_line_until (srv_now s + PRE_AUTH_TIMEOUT_SECS * 1000) (rd s1) = (Ok (Some line), r1)"
      "validate_callsign_with_allowlist (sv_upper E) (trim line) (allowed_callsigns (sv_config E)) = Ok call"
      "srv_write agree_prompt (s1\<lparr>rd := r1, sess := session_begin (rd_now r1) call\<rparr>) = (Ok (), s2)"
      "preauth_loop (sv_upper E) call (srv_now s + PRE_AUTH_TIMEOUT_SECS * 1000) (rd s2) = (Ok (Some answer), r2)"
      "to_uppercase (sv_upper E) (trim answer) = ''AGREE''" "s3 = s2\<lparr>rd := r2\<rparr>"
    unfolding logged_in_def by blast
  have "srv_now s1 = srv_now s" by (rule write_frame(3) [OF w1])
  moreover have "srv_now (s1\<lparr>rd := r1\<rparr>) = rd_now r1" by (simp add: srv_now_def)
  ultimately show ?thesis
    using assms(2) w1 rest by (simp add: handle_connection_def ask_agreement_def Let_def)
qed

lemma write_ok:
  assumes "wr_results (rd_sock (rd s)) = []"
  shows "\<exists>s'. srv_write bs s = (Ok (), s') \<and> rd_buf (rd s') = rd_buf (rd s) \<and> rd_now (rd s') = rd_now (rd s)
     \<and> rx (rd_sock (rd s')) = rx (rd_sock (rd s)) \<and> wr_results (rd_sock (rd s')) = []
     \<and> sess s' = sess s \<and> srv_out s' = srv_out s @ bs"
  using assms by (simp add: srv_write_def tcp_write_def srv_out_def)

lemma arrives_written:
  "rd_buf r' = rd_buf r \<Longrightarrow> rx (rd_sock r') = rx (rd_sock r) \<Longrightarrow> arrives b r' bs tail \<longleftrightarrow> arrives b r bs tail"
  by (simp add: arrives_def)

text \<open>The connection up to the answer to the disclaimer, on a peer that sends whole lines.\<close>

lemma login_dialogue:
  assumes "wr_results (rd_sock (rd s)) = []"
    and "arrives b (rd s) (l1 @ LF # lines noise @ ans @ LF # rest) tail"
    and "LF \<notin> set l1" "utf8_valid l1" "length l1 \<le> MAX_LINE_LENGTH"
    and "validate_callsign_with_allowlist (sv_upper E) (trim (l1 @ [LF])) (allowed_callsigns (sv_config E)) = Ok call"
    and "list_all (noise_line E call) noise"
    and "LF \<notin> set ans" "utf8_valid ans" "length ans \<le> MAX_LINE_LENGTH"
    and "classify_preauth_line (sv_upper E) (ans @ [LF]) call = Candidate"
    and "srv_now s < b" "b \<le> srv_now s + PRE_AUTH_TIMEOUT_SECS * 1000"
  shows "\<exists>s1 r1 s2 r2. srv_write login_prompt s = (Ok (), s1)
     \<and> read_bounded_line_until (srv_now s + PRE_AUTH_TIMEOUT_SECS * 1000) (rd s1) = (Ok (Some (l1 @ [LF])), r1)
     \<and> srv_write agree_prompt (s1\<lparr>rd := r1, sess := session_begin (rd_now r1) call\<rparr>) = (Ok (), s2)
     \<and> preauth_loop (sv_upper E) call (srv_now s + PRE_AUTH_TIMEOUT_SECS * 1000) (rd s2) = (Ok (Some (ans @ [LF])), r2)
     \<and> arrives b r2 rest tail \<and> rd_now r2 < b"
proof -
  let ?dl = "srv_now s + PRE_AUTH_TIMEOUT_SECS * 1000"
  obtain s1 where s1: "srv_write login_prompt s = (Ok (), s1)" "rd_buf (rd s1) = rd_buf (rd s)"
    "rd_now (rd s1) = rd_now (rd s)" "rx (rd_sock (rd s1)) = rx (rd_sock (rd s))" "wr_results (rd_sock (rd s1)) = []"
    using write_ok [OF assms(1)] by blast
  have a1: "arrives b (rd s1) (l1 @ LF # lines noise @ ans @ LF # rest) tail" "rd_now (rd s1) < b"
    using assms(2,12) s1 by (simp_all add: srv_now_def arrives_written [OF s1(2,4)])
  obtain r1 where r1: "read_bounded_line_until ?dl (rd s1) = (Ok (Some (l1 @ [LF])), r1)"
    "arrives b r1 (lines noise @ ans @ LF # rest) tail" "rd_now r1 < b"
    using line_arrives [OF a1(1) assms(3-5) a1(2) assms(13)] by blast
  let ?t = "s1\<lparr>rd := r1, sess := session_begin (rd_now r1) call\<rparr>"
  have "wr_results (rd_sock (rd ?t)) = []" using line_reads(1) [OF r1(1)] s1(5) by (simp add: reads_on_def)
  from write_ok [OF this] obtain s2 where s2: "srv_write agree_prompt ?t = (Ok (), s2)" "rd_buf (rd s2) = rd_buf r1"
    "rd_now (rd s2) = rd_now r1" "rx (rd_sock (rd s2)) = rx (rd_sock r1)" by auto
  have a2: "arrives b (rd s2) (lines noise @ ans @ LF # rest) tail" "rd_now (rd s2) < b"
    using r1(2,3) s2 by (simp_all add: arrives_written [OF s2(2,4)])
  from preauth_skips_noise [OF assms(7) a2(1) assms(8-11) a2(2) assms(13)] obtain r2 where
    r2: "preauth_loop (sv_upper E) call ?dl (rd s2) = (Ok (Some (ans @ [LF])), r2)" "arrives b r2 rest tail" "rd_now r2 < b"
    by blast
  show ?thesis by (intro exI conjI) (rule s1(1) r1(1) s2(1) r2)+
qed

section \<open>Callsigns on the wire\<close>

lemma alphanumeric_ink: "is_ascii_alphanumeric b \<Longrightarrow> ascii_ink b \<and> b \<noteq> LF"
  by (auto simp: ascii_ink_def is_ascii_ws_def ascii_class_defs LF_def)

lemma upper_not_star: "is_ascii_alphanumeric b \<Longrightarrow> CHR ''*'' \<noteq> ascii_upper_byte b"
proof
  assume b: "is_ascii_alphanumeric b" and eq: "CHR ''*'' = ascii_upper_byte b"
  have "byte_val (ascii_upper_byte b) \<noteq> 42" using b by (auto simp: ascii_upper_byte_def ascii_class_defs)
  then show False by (simp add: eq [symmetric])
qed

text \<open>A callsign that passes the expression, with or without an SSID behind a dash.\<close>

lemma callsign_text:
  assumes "callsign_regex call" and "list_all is_ascii_alphanumeric ssid"
    and "sfx = [] \<or> sfx = CHR ''-'' # ssid" and "length ssid \<le> 2"
  shows "LF \<notin> set (call @ sfx)" and "utf8_valid (call @ sfx)" and "length (call @ sfx) \<le> MAX_LINE_LENGTH"
    and "trim ((call @ sfx) @ [LF]) = call @ sfx" and "\<forall>b \<in> set (call @ sfx). is_ascii b"
    and "hd (split_char (CHR ''-'') (call @ sfx)) = call"
proof -
  note c = callsign_regex_chars [OF assms(1)]
  have dash: "ascii_ink (CHR ''-'')" by (simp add: ascii_ink_def is_ascii_ws_def ascii_class_defs)
  have chars: "\<forall>b \<in> set (call @ sfx). ascii_ink b \<and> b \<noteq> LF"
    using c(1) assms(2,3) alphanumeric_ink dash by (auto simp: list_all_iff LF_def dest: alphanumeric_ink)
  then show asc: "\<forall>b \<in> set (call @ sfx). is_ascii b" and lf: "LF \<notin> set (call @ sfx)" by (auto simp: ascii_ink_def)
  then show "utf8_valid (call @ sfx)" by (intro utf8_valid_ascii) (auto simp: list_all_iff)
  show "length (call @ sfx) \<le> MAX_LINE_LENGTH" using c(3) assms(3,4) by (auto simp: MAX_LINE_LENGTH_def)
  have ne: "call @ sfx \<noteq> []" using c(2) by auto
  show "trim ((call @ sfx) @ [LF]) = call @ sfx"
    using trim_line [OF ne, of LF] chars ne by (metis hd_in_set is_ascii_ws_LF last_in_set)
  have "CHR ''-'' \<notin> set call" using c(1) by (auto simp: list_all_iff ascii_class_defs)
  then show "hd (split_char (CHR ''-'') (call @ sfx)) = call"
    using assms(3) by (auto simp: split_char_append split_char_none)
qed

lemma callsign_validates:
  assumes "callsign_regex call" and "list_all is_ascii_alphanumeric ssid"
    and "sfx = [] \<or> sfx = CHR ''-'' # ssid" and "length ssid \<le> 2"
  shows "validate_callsign_with_allowlist uc (trim ((call @ sfx) @ [LF])) allow = Ok (to_ascii_uppercase call)"
proof -
  note t = callsign_text [OF assms]
  show ?thesis
    unfolding validate_callsign_with_allowlist_def Let_def t(4) t(6)
    using assms(1) t(5) to_uppercase_ascii [of call uc] by simp
qed

lemma agree_text:
  "LF \<notin> set ''AGREE''" "utf8_valid ''AGREE''" "length ''AGREE'' \<le> MAX_LINE_LENGTH"
  "trim (''AGREE'' @ [LF]) = ''AGREE''" "to_uppercase uc ''AGREE'' = ''AGREE''"
proof -
  show "trim (''AGREE'' @ [LF]) = ''AGREE''"
    by (rule trim_line) (simp_all add: ascii_ink_def is_ascii_ws_def ascii_class_defs LF_def)
  show "to_uppercase uc ''AGREE'' = ''AGREE''"
    by (subst to_uppercase_ascii) (simp_all add: to_ascii_uppercase_def ascii_upper_byte_def ascii_class_defs)
qed (simp_all add: LF_def MAX_LINE_LENGTH_def is_ascii_def)

text \<open>No callsign reads \<open>AGREE\<close>: a callsign has a digit.\<close>

lemma callsign_not_agree: "callsign_regex call \<Longrightarrow> to_ascii_uppercase call \<noteq> ''AGREE''"
proof
  assume c: "callsign_regex call" and eq: "to_ascii_uppercase call = ''AGREE''"
  obtain k where k: "k < length call" "is_ascii_digit (call ! k)" using c by (auto simp: callsign_regex_def callsign_at_def)
  then have "ascii_upper_byte (call ! k) = call ! k" by (auto simp: ascii_upper_byte_def ascii_class_defs)
  then have "call ! k \<in> set (to_ascii_uppercase call)" using k(1) by (auto simp: to_ascii_uppercase_def image_iff intro!: bexI [of _ "call ! k"])
  with k(2) show False unfolding eq by (auto simp: ascii_class_defs)
qed


lemma example_env_clone [simp]: "sv_clone example_env = None"
  by (simp add: example_env_def)

lemma example_callsign: "callsign_regex ''K1ABC''" "list_all is_ascii_alphanumeric ''7''"
  by (simp_all add: callsign_regex_def callsign_at_def ascii_class_defs)

lemma example_upper: "to_ascii_uppercase ''K1ABC'' = ''K1ABC''"
  by (simp add: to_ascii_uppercase_def ascii_upper_byte_def ascii_class_defs)


text \<open>
  A station with an SSID cannot log in through a node that repeats its first line.
  \<open>LinBPQ\<close> delivers the first line twice; the server skips a second copy of the validated callsign, but
  it compares the line with the callsign without its SSID. So the copy of \<open>K1ABC-7\<close> is taken for the
  answer to the disclaimer, and the connection ends before the \<open>AGREE\<close> behind it is read.
\<close>

theorem ssid_duplicate_refused:
  assumes "callsign_regex call" and "list_all is_ascii_alphanumeric ssid" and "length ssid \<le> 2"
    and "sv_clone E = None" and "wr_results (rd_sock (rd s)) = []"
    and "arrives b (rd s) ((call @ CHR ''-'' # ssid) @ LF # (call @ CHR ''-'' # ssid) @ LF # rest) tail"
    and "srv_now s < b" and "b \<le> srv_now s + PRE_AUTH_TIMEOUT_SECS * 1000"
  shows "\<exists>s'. handle_connection E s = Some (Ok (), s') \<and> visits s' = visits s
     \<and> srv_out s' = srv_out s @ login_prompt @ agree_prompt @ ''Acknowledgment required. Goodbye.'' @ [LF]"
proof -
  let ?call = "to_ascii_uppercase call" and ?l = "call @ CHR ''-'' # ssid"
  let ?dl = "srv_now s + PRE_AUTH_TIMEOUT_SECS * 1000"
  note t = callsign_text [OF assms(1,2) disjI2 [OF refl] assms(3)]
  have v: "validate_callsign_with_allowlist (sv_upper E) (trim (?l @ [LF])) (allowed_callsigns (sv_config E)) = Ok ?call"
    by (rule callsign_validates [OF assms(1,2) disjI2 [OF refl] assms(3)])
  have up: "to_uppercase (sv_upper E) (trim (?l @ [LF])) = to_ascii_uppercase ?l"
    unfolding t(4) using t(5) by (rule to_uppercase_ascii)
  have dash: "CHR ''-'' \<in> set (to_ascii_uppercase ?l)"
    by (simp add: to_ascii_uppercase_def ascii_upper_byte_def ascii_class_defs)
  have "length (to_ascii_uppercase ?l) \<noteq> length ?call" by (simp add: to_ascii_uppercase_def)
  then have "to_ascii_uppercase ?l \<noteq> ?call" by metis
  moreover have "\<not> prefix ''***'' (to_ascii_uppercase ?l)"
  proof -
    obtain a w where "call = a # w" "is_ascii_alphanumeric a"
      using callsign_regex_chars(1,2) [OF assms(1)] by (cases call) auto
    then show ?thesis using upper_not_star [of a] by (simp add: to_ascii_uppercase_def)
  qed
  ultimately have cand: "classify_preauth_line (sv_upper E) (?l @ [LF]) ?call = Candidate"
    unfolding classify_preauth_line_def Let_def up by simp
  have a: "arrives b (rd s) (?l @ LF # lines [] @ ?l @ LF # rest) tail" using assms(6) by simp
  obtain s1 r1 s2 r2 where d: "srv_write login_prompt s = (Ok (), s1)"
    "read_bounded_line_until ?dl (rd s1) = (Ok (Some (?l @ [LF])), r1)"
    "srv_write agree_prompt (s1\<lparr>rd := r1, sess := session_begin (rd_now r1) ?call\<rparr>) = (Ok (), s2)"
    "preauth_loop (sv_upper E) ?call ?dl (rd s2) = (Ok (Some (?l @ [LF])), r2)"
    using login_dialogue [OF assms(5) a t(1-3) v _ t(1-3) cand assms(7,8)] by auto
  have w: "wr_results (rd_sock r2) = []"
    using assms(5) d(1,3) line_reads(1) [OF d(2)] preauth_reads [OF d(4)]
    by (auto simp: reads_on_def srv_write_def tcp_write_def)
  obtain s' where s': "srv_write (''Acknowledgment required. Goodbye.'' @ [LF]) (s2\<lparr>rd := r2\<rparr>) = (Ok (), s')"
    "srv_out s' = srv_out (s2\<lparr>rd := r2\<rparr>) @ ''Acknowledgment required. Goodbye.'' @ [LF]"
    using write_ok [of "s2\<lparr>rd := r2\<rparr>"] w by auto
  have "to_ascii_uppercase ?l \<noteq> ''AGREE''" using dash by auto
  then have "handle_connection E s = Some (Ok (), s')"
    using assms(4) d v up s'(1) write_frame(3) [OF d(1)]
    by (simp add: handle_connection_def ask_agreement_def Let_def srv_now_def)
  moreover have "visits s' = visits s" "srv_out s' = srv_out s @ login_prompt @ agree_prompt @ ''Acknowledgment required. Goodbye.'' @ [LF]"
    using s'(2) write_frame(6,7) [OF d(1)] write_frame(6,7) [OF d(3)] write_frame(6) [OF s'(1)]
      line_reads(1) [OF d(2)] preauth_reads [OF d(4)]
    by (simp_all add: srv_out_def reads_on_def)
  ultimately show ?thesis by blast
qed

theorem ssid_duplicate_refused_witness:
  "\<exists>s'. handle_connection example_env (example_srv [(5, ''K1ABC-7'' @ [LF] @ ''K1ABC-7'' @ [LF] @ ''AGREE'' @ [LF])])
       = Some (Ok (), s') \<and> visits s' = []"
proof -
  let ?segs = "[(5 :: nat, ''K1ABC-7'' @ [LF] @ ''K1ABC-7'' @ [LF] @ ''AGREE'' @ [LF])]"
  have "arrives 100000 (rd (example_srv ?segs)) (concat (map snd ?segs)) []"
    by (rule example_arrives) (simp add: timely_def)
  moreover have "concat (map snd ?segs) = (''K1ABC'' @ CHR ''-'' # ''7'') @ LF # (''K1ABC'' @ CHR ''-'' # ''7'') @ LF # ''AGREE'' @ [LF]"
    by simp
  ultimately have a: "arrives 100000 (rd (example_srv ?segs))
      ((''K1ABC'' @ CHR ''-'' # ''7'') @ LF # (''K1ABC'' @ CHR ''-'' # ''7'') @ LF # ''AGREE'' @ [LF]) []"
    by metis
  have v: "visits (example_srv ?segs) = []" by (simp add: example_srv_def)
  show ?thesis
    using ssid_duplicate_refused [OF example_callsign _ example_env_clone _ a] v
    by (auto simp: PRE_AUTH_TIMEOUT_SECS_def)
qed

section \<open>A page, from the browser of the server to the client\<close>

definition page_etag :: "ServerEnv \<Rightarrow> bytes \<Rightarrow> bytes" where
  "page_etag E html = sanitized_html_etag (sv_sha256 E) (sv_url_safe E) html"

text \<open>The response that carries a page.\<close>

definition page_answer :: "ServerEnv \<Rightarrow> nat \<Rightarrow> bytes \<Rightarrow> bytes \<Rightarrow> Response" where
  "page_answer E n html compressed =
     \<lparr>status = StatusOk, etag = page_etag E html, max_age = page_max_age E n, payload = compressed\<rparr>"

lemma handle_request_page:
  assumes "check_url E (srv_now s) url = Ok ()" and "brow s = Some b"
    and "fetch_page (sv_fetch E (loads s)) b = Ok html"
    and "brotli_compress (sv_brotli E) html (brotli_quality (sv_config E)) = Ok compressed"
    and "inm \<noteq> Some (page_etag E html)" and "wr_results (rd_sock (rd s)) = []"
  shows "\<exists>s'. handle_request E url inm s = Some (Ok (), s')
     \<and> srv_out s' = srv_out s @ response_encode (sv_b64 E) (page_answer E (probes s) html compressed)"
proof -
  let ?s = "s\<lparr>probes := probes s + 1\<rparr>" and ?resp = "page_answer E (probes s) html compressed"
  obtain t where t: "load_page E url b ?s = (Ok html, t)" "rd_sock (rd t) = rd_sock (rd s)"
    using assms(3) by (simp add: load_page_def Let_def)
  have f: "fetch_loop E url ?s = Some (Ok html, t)"
    using t(1) assms(2) by (subst fetch_loop.simps) simp
  define u where "u = (log_access E (sess_callsign (sess t)) url LogOk None t)\<lparr>sess := (sess t)\<lparr>current_url := Some url\<rparr>\<rparr>"
  have u: "rd_sock (rd u) = rd_sock (rd s)" using t(2) by (simp add: u_def)
  have inm: "\<not> (case inm of Some e \<Rightarrow> e = page_etag E html | None \<Rightarrow> False)"
    using assms(5) by (auto split: option.splits)
  have "answer_page E (page_max_age E (probes s)) url inm html t = send_response E ?resp u"
    using inm [unfolded page_etag_def] assms(4) by (simp add: answer_page_def Let_def page_answer_def page_etag_def u_def)
  then have h: "handle_request E url inm s = Some (send_response E ?resp u)"
    using assms(1) f by (simp add: handle_request_def Let_def)
  have "\<exists>s'. send_response E ?resp u = (Ok (), s') \<and> srv_out s' = srv_out u @ response_encode (sv_b64 E) ?resp"
    unfolding send_response_def using write_ok [of u] u assms(6) by auto
  with h show ?thesis using u by (auto simp: srv_out_def)
qed

text \<open>
  C5: the page that the server loaded is the page that the client decodes. The client's request
  line reaches the server before the idle deadline, the URL passes the filter, the browser loads
  the page and brotli compresses it; the node puts the response, with banner text in front, into
  AGWPE frames, and they arrive within the client's timeout. Then the server reads exactly this
  request, writes one response, and the client's request returns a buffer whose header says OK, with
  the etag of the page and the origin's maximum age, and whose payload decodes and decompresses to the
  very HTML the browser returned.
\<close>

theorem page_arrives:
  assumes codec: "base64_codec (sv_b64 E) dec" and brotli: "undoes dcm (sv_brotli E)"
    and request: "servable (Get url inm)" "arrives b (rd sv) (request_encode (Get url inm) @ later) gone"
      "srv_now sv < b" "b \<le> idle_deadline E sv"
    and server: "\<forall>t < b. check_url E t url = Ok ()" "brow sv = Some br" "fetch_page (sv_fetch E (loads sv)) br = Ok html"
      "brotli_compress (sv_brotli E) html (brotli_quality (sv_config E)) = Ok compressed"
      "length html \<le> MAX_DECOMPRESSED_SIZE" "inm \<noteq> Some (page_etag E html)" "wr_results (rd_sock (rd sv)) = []"
    and node: "good_stream (sv_b64 E) (page_answer E (probes sv) html compressed) banner"
      "list_all (\<lambda>f. frame_ok f \<and> frame_type f = SendData) fs"
      "concat (map frame_data fs) = banner @ response_encode (sv_b64 E) (page_answer E (probes sv) html compressed)"
    and client: "delivers (clock cl + ss_response_timeout_secs (session_new n) * 1000) (transport cl)
           (concat (map frame_encode fs) @ rest) tail"
      "\<not> abort_flag cl"
      "list_all (\<lambda>p. clock cl + ss_response_timeout_secs (session_new n) * 1000 \<le> p) (presses cl)"
  shows "\<exists>r sv' buf cl' len he body.
       read_request (idle_deadline E sv) (rd sv) = (Ok (Some (Get url inm)), r)
     \<and> handle_request E url inm (srv_touch (sv\<lparr>rd := r\<rparr>)) = Some (Ok (), sv')
     \<and> srv_out sv' = srv_out sv @ response_encode (sv_b64 E) (page_answer E (probes sv) html compressed)
     \<and> handle_send_request U agwpe_transport (session_new n) (request_encode (Get url inm)) cl = Some (Ok buf, cl')
     \<and> decode_header buf = Ok (Some (StatusOk, len, page_etag E html, page_max_age E (probes sv), he))
     \<and> decode_payload dec (take len (drop he buf)) = Ok body
     \<and> brotli_decompress dcm body = Ok html"
proof -
  have now: "rd_now (rd sv) < b" using request(3) by (simp add: srv_now_def)
  obtain r where r: "read_request (idle_deadline E sv) (rd sv) = (Ok (Some (Get url inm)), r)" "rd_now r < b"
    using request_arrives [OF request(1,2) now request(4)] by blast
  let ?sv = "srv_touch (sv\<lparr>rd := r\<rparr>)"
  have same: "brow ?sv = brow sv" "loads ?sv = loads sv" "probes ?sv = probes sv" "srv_out ?sv = srv_out sv"
    "wr_results (rd_sock (rd ?sv)) = []"
    using read_request_reads(1) [OF r(1)] server(7) by (simp_all add: srv_touch_def srv_out_def reads_on_def)
  have ok: "check_url E (srv_now ?sv) url = Ok ()" "brow ?sv = Some br" "fetch_page (sv_fetch E (loads ?sv)) br = Ok html"
    using server(1-3) same r(2) by (simp_all add: srv_now_def)
  obtain sv' where sv': "handle_request E url inm ?sv = Some (Ok (), sv')"
    "srv_out sv' = srv_out sv @ response_encode (sv_b64 E) (page_answer E (probes sv) html compressed)"
    using handle_request_page [OF ok server(4,6) same(5)] unfolding same by blast
  obtain buf cl' len he where c:
    "handle_send_request U agwpe_transport (session_new n) (request_encode (Get url inm)) cl = Some (Ok buf, cl')"
    "decode_header buf = Ok (Some (StatusOk, len, page_etag E html, page_max_age E (probes sv), he))"
    "decode_payload dec (take len (drop he buf)) = Ok compressed"
    using client_decodes [OF codec node client, of U "request_encode (Get url inm)"] by (auto simp: page_answer_def)
  have "brotli_decompress dcm compressed = Ok html"
    using decompress_compress [OF brotli server(4)] server(5) by simp
  then show ?thesis by (intro exI conjI) (rule r(1) sv' c | assumption)+
qed

abbreviation example_url :: bytes where "example_url \<equiv> ''http://example.org/''"

definition example_browser :: BrowserInstance where
  "example_browser =
     \<lparr>webdriver_port = 4444,
      driver_command = geckodriver_command (sv_launch example_env 0) ''/tmp/firefox-K1ABC-'' 4444,
      capabilities = firefox_caps (firefox_path (sv_launch example_env 0)) 8118\<rparr>"

definition example_server :: Srv where
  "example_server =
     (example_srv [(5, request_encode (Get example_url None))])\<lparr>brow := Some example_browser\<rparr>"

definition example_answer :: Response where
  "example_answer = \<lparr>status = StatusOk, etag = ''AAAABBBBCCCCDDDD'', max_age = 3600, payload = ''hello''\<rparr>"

definition example_frames :: "AgwpeFrame list" where
  "example_frames =
     (let bs = ''> '' @ response_encode b64_encode example_answer
      in map (frame_new (CHR 0x00) SendData ''N0CALL'' ''K1ABC-1'') [take 7 bs, drop 7 bs])"

lemma example_page_answer: "page_answer example_env 0 ''hello'' ''hello'' = example_answer"
  by (simp add: page_answer_def page_etag_def sanitized_html_etag_def example_answer_def page_max_age_def
      probe_origin_cc_def current_proxy_port_def example_env_def config_from_env_def parse_env_i32_def env_or_def)

lemma example_answer_bytes:
  "response_encode b64_encode example_answer = ''RESP0 8 AAAABBBBCCCCDDDD 3600'' @ [LF] @ ''aGVsbG8='' @ [LF]"
  by code_simp

lemma example_answer_good: "good_stream b64_encode example_answer ''> ''"
  unfolding good_stream_def example_answer_bytes
  by (simp add: well_formed_def valid_etag_def example_answer_def MAGIC_def sublist_code
      MAX_RESPONSE_SIZE_def is_session_dead_payload_def contains_slice_def LF_def ascii_class_defs)

lemma example_frames_ok:
  "list_all (\<lambda>f. frame_ok f \<and> frame_type f = SendData) example_frames"
  "concat (map frame_data example_frames) = ''> '' @ response_encode b64_encode example_answer"
  "20 < length (concat (map frame_encode example_frames) @ [])"
  by (simp_all add: example_frames_def example_answer_bytes Let_def frame_ok_def frame_new_def
      callsign_fits_def ascii_class_defs MAX_FRAME_DATA_SIZE_def LF_def)

lemma example_check: "check_url example_env t example_url = Ok ()"
proof -
  have "blocked_ranges (sv_config example_env) = default_blocked_ranges"
    by (simp add: example_env_def config_from_env_def parse_env_vec_def)
  moreover have "\<not> ipv4_is_blocked 0x5DB8D822 default_blocked_ranges"
    by (simp add: default_range_list)
  moreover have "to_ascii_lowercase ''example.org'' = ''example.org''" by code_simp
  ultimately show ?thesis
    by (simp add: check_url_def validate_url_def is_domain_blocked_def BLOCKED_HOSTNAMES_def
        example_env_def Let_def)
qed

theorem page_arrives_witness:
  "\<exists>r sv' buf cl' len he body.
       read_request (idle_deadline example_env example_server) (rd example_server) = (Ok (Some (Get example_url None)), r)
     \<and> handle_request example_env example_url None (srv_touch (example_server\<lparr>rd := r\<rparr>)) = Some (Ok (), sv')
     \<and> srv_out sv' = response_encode b64_encode example_answer
     \<and> handle_send_request ascii_unicode agwpe_transport (session_new 60) (request_encode (Get example_url None))
         (sample_system (sample_link (concat (map frame_encode example_frames) @ []))) = Some (Ok buf, cl')
     \<and> decode_header buf = Ok (Some (StatusOk, len, ''AAAABBBBCCCCDDDD'', 3600, he))
     \<and> decode_payload b64_decode (take len (drop he buf)) = Ok body
     \<and> brotli_decompress stored_decompressor body = Ok ''hello''"
proof -
  let ?E = example_env and ?sv = example_server and ?q = "Get example_url None"
  let ?cl = "sample_system (sample_link (concat (map frame_encode example_frames) @ []))"
  have env: "sv_b64 ?E = b64_encode" "sv_brotli ?E = stored_compressor" by (simp_all add: example_env_def)
  have tag: "page_etag ?E ''hello'' = ''AAAABBBBCCCCDDDD''" "page_max_age ?E (probes ?sv) = 3600"
    "page_answer ?E (probes ?sv) ''hello'' ''hello'' = example_answer" "srv_out ?sv = []"
    using example_page_answer by (simp_all add: page_answer_def example_answer_def example_server_def example_srv_def srv_out_def)
  have srv: "servable ?q"
    by (simp add: servable_def sentinel_def MAX_LINE_LENGTH_def ascii_ink_def is_ascii_ws_def in_range_def LF_def is_ascii_def)
  have ne: "request_encode ?q \<noteq> []" by simp
  have arr: "arrives 1000 (rd ?sv) (request_encode ?q @ []) []"
    using example_arrives [of 1000 "[(5, request_encode ?q)]"] ne
    by (simp add: example_server_def timely_def del: request_encode.simps)
  have times: "srv_now ?sv < 1000" "1000 \<le> idle_deadline ?E ?sv"
    by (simp_all add: example_server_def example_srv_def srv_now_def idle_deadline_def session_begin_def
        example_env_def config_from_env_def parse_env_u64_def env_or_def minutes_to_secs_def)
  have page: "\<forall>t < 1000. check_url ?E t example_url = Ok ()" "brow ?sv = Some example_browser"
    "fetch_page (sv_fetch ?E (loads ?sv)) example_browser = Ok ''hello''"
    "brotli_compress (sv_brotli ?E) ''hello'' (brotli_quality (sv_config ?E)) = Ok ''hello''"
    "length ''hello'' \<le> MAX_DECOMPRESSED_SIZE" "None \<noteq> Some (page_etag ?E ''hello'')" "wr_results (rd_sock (rd ?sv)) = []"
    by (simp_all add: example_check) (simp_all add: example_server_def example_srv_def example_env_def fetch_page_def strip_prefix_def
        brotli_compress_def stored_compressor_def MAX_DECOMPRESSED_SIZE_def)
  have d: "delivers (clock ?cl + ss_response_timeout_secs (session_new 60) * 1000) (transport ?cl)
      (concat (map frame_encode example_frames) @ []) []"
    using delivers_later [OF sample_link_delivers [OF example_frames_ok(3)]]
    by (simp add: sample_system_def session_new_def)
  show ?thesis
    using page_arrives [where E = ?E and dec = b64_decode and dcm = stored_decompressor and sv = ?sv and cl = ?cl
        and U = ascii_unicode, OF _ _ srv arr times page _ _ _ d,
        unfolded env tag, OF rfc4648.base64_codec_axioms stored_undoes example_answer_good example_frames_ok(1,2)]
    by (simp add: sample_system_def)
qed

end
