(* ===== verification/Admission.thy ===== *)
theory Admission
  imports Server_Main
begin

text \<open>
  The accept loop of the server (\<open>main\<close> in \<open>server/src/main.rs\<close>): the caps on live connections, per
  peer address and in total. The main thread and the connection threads share two counters, an
  atomic integer and a map behind a mutex; every access to one of them is one atomic step here, and
  \<open>adm_step\<close> interleaves the steps of all threads in any order. A connection thread gives its
  counts back in the drop order of its two guards, also when \<open>handle_connection\<close> panics.
\<close>

section \<open>State and steps\<close>

definition MAX_CONNECTIONS :: nat where "MAX_CONNECTIONS = 50"
definition MAX_CONNECTIONS_PER_IP :: nat where "MAX_CONNECTIONS_PER_IP = 5"

type_synonym PeerCounts = "IpAddr \<rightharpoonup> nat"

text \<open>The per-address cap: \<open>None\<close> when it is reached.\<close>

definition claim_peer :: "IpAddr \<Rightarrow> PeerCounts \<Rightarrow> PeerCounts option" where
  "claim_peer ip m =
     (let n = (case m ip of Some c \<Rightarrow> c | None \<Rightarrow> 0) in
      if n \<ge> MAX_CONNECTIONS_PER_IP then None else Some (m(ip \<mapsto> n + 1)))"

definition release_peer :: "IpAddr \<Rightarrow> PeerCounts \<Rightarrow> PeerCounts" where
  "release_peer ip m =
     (case m ip of
        None \<Rightarrow> m
      | Some c \<Rightarrow> let c = c - 1 in if c = 0 then m(ip := None) else m(ip \<mapsto> c))"

definition claim_opt :: "IpAddr option \<Rightarrow> PeerCounts \<Rightarrow> PeerCounts option" where
  "claim_opt peer m = (case peer of Some ip \<Rightarrow> claim_peer ip m | None \<Rightarrow> Some m)"

definition release_opt :: "IpAddr option \<Rightarrow> PeerCounts \<Rightarrow> PeerCounts" where
  "release_opt peer m = (case peer of Some ip \<Rightarrow> release_peer ip m | None \<Rightarrow> m)"

text \<open>Where the main thread is in the body of its loop, and a connection thread in its life:
  serving, or its address given back and its slot not yet.\<close>

datatype MainPc = Accepting | Claimed "IpAddr option" | Overflow "IpAddr option" | Releasing "IpAddr option"

datatype Worker = Serving "IpAddr option" | PeerFreed

record Adm =
  pc :: MainPc
  conn_count :: "64 word"
  peer_counts :: PeerCounts
  workers :: "Worker list"

definition adm_init :: Adm where
  "adm_init = \<lparr>pc = Accepting, conn_count = 0, peer_counts = Map.empty, workers = []\<rparr>"

datatype Action =
    AcceptFails
  | Accept "IpAddr option"
  | TakeSlot
  | GiveSlotBack
  | GivePeerBack
  | DropPeerGuard "IpAddr option"
  | DropConnGuard

fun adm_step :: "Action \<Rightarrow> Adm \<Rightarrow> Adm option" where
  "adm_step AcceptFails s = (if pc s = Accepting then Some s else None)"
| "adm_step (Accept peer) s =
     (if pc s = Accepting then
        Some (case claim_opt peer (peer_counts s) of
                None \<Rightarrow> s
              | Some m \<Rightarrow> s\<lparr>peer_counts := m, pc := Claimed peer\<rparr>)
      else None)"
| "adm_step TakeSlot s =
     (case pc s of
        Claimed peer \<Rightarrow>
          let prev = conn_count s; s = s\<lparr>conn_count := prev + 1\<rparr> in
          if unat prev \<ge> MAX_CONNECTIONS then Some (s\<lparr>pc := Overflow peer\<rparr>)
          else Some (s\<lparr>pc := Accepting, workers := Serving peer # workers s\<rparr>)
      | _ \<Rightarrow> None)"
| "adm_step GiveSlotBack s =
     (case pc s of
        Overflow peer \<Rightarrow> Some (s\<lparr>conn_count := conn_count s - 1, pc := Releasing peer\<rparr>)
      | _ \<Rightarrow> None)"
| "adm_step GivePeerBack s =
     (case pc s of
        Releasing peer \<Rightarrow> Some (s\<lparr>peer_counts := release_opt peer (peer_counts s), pc := Accepting\<rparr>)
      | _ \<Rightarrow> None)"
| "adm_step (DropPeerGuard peer) s =
     (if Serving peer \<in> set (workers s) then
        Some (s\<lparr>peer_counts := release_opt peer (peer_counts s),
                workers := PeerFreed # remove1 (Serving peer) (workers s)\<rparr>)
      else None)"
| "adm_step DropConnGuard s =
     (if PeerFreed \<in> set (workers s) then
        Some (s\<lparr>conn_count := conn_count s - 1, workers := remove1 PeerFreed (workers s)\<rparr>)
      else None)"

text \<open>The states of the server under every schedule of its threads.\<close>

inductive adm_reach :: "Adm \<Rightarrow> bool" where
  adm_start: "adm_reach adm_init"
| adm_go: "adm_reach s \<Longrightarrow> adm_step a s = Some s' \<Longrightarrow> adm_reach s'"

section \<open>Invariant\<close>

text \<open>Addresses held by the main thread for the connection it is admitting.\<close>

definition main_holds :: "Adm \<Rightarrow> IpAddr \<Rightarrow> nat" where
  "main_holds s ip = (if pc s \<in> {Claimed (Some ip), Overflow (Some ip), Releasing (Some ip)} then 1 else 0)"

definition serving :: "Adm \<Rightarrow> IpAddr \<Rightarrow> nat" where
  "serving s ip = count_list (workers s) (Serving (Some ip))"

definition counted :: "nat \<Rightarrow> nat option" where
  "counted n = (if n = 0 then None else Some n)"

definition held :: "Adm \<Rightarrow> IpAddr \<Rightarrow> nat" where
  "held s ip = serving s ip + main_holds s ip"

text \<open>The map of an address table in which \<open>h ip\<close> holders of \<open>ip\<close> exist.\<close>

definition peers_inv :: "PeerCounts \<Rightarrow> (IpAddr \<Rightarrow> nat) \<Rightarrow> bool" where
  "peers_inv m h \<longleftrightarrow> (\<forall>ip. m ip = counted (h ip) \<and> h ip \<le> MAX_CONNECTIONS_PER_IP)"

lemma claim_counted:
  "m ip = counted n \<Longrightarrow> claim_peer ip m = (if n \<ge> MAX_CONNECTIONS_PER_IP then None else Some (m(ip := counted (Suc n))))"
  by (simp add: claim_peer_def counted_def)

lemma release_counted: "m ip = counted (Suc n) \<Longrightarrow> release_peer ip m = m(ip := counted n)"
  by (simp add: release_peer_def counted_def Let_def)

lemma peers_claim:
  assumes "peers_inv m h" and "claim_opt peer m = Some m'"
  shows "peers_inv m' (\<lambda>ip. h ip + (if peer = Some ip then 1 else 0))"
proof (cases peer)
  case None
  with assms show ?thesis by (simp add: claim_opt_def)
next
  case (Some ip)
  have "m ip = counted (h ip)" using assms(1) by (simp add: peers_inv_def)
  with assms Some show ?thesis
    by (auto simp: claim_opt_def claim_counted peers_inv_def split: if_splits)
qed

lemma peers_release:
  assumes "peers_inv m h" and "\<And>ip. peer = Some ip \<Longrightarrow> 0 < h ip"
  shows "peers_inv (release_opt peer m) (\<lambda>ip. h ip - (if peer = Some ip then 1 else 0))"
proof (cases peer)
  case None
  with assms show ?thesis by (simp add: release_opt_def)
next
  case (Some ip)
  then have "m ip = counted (Suc (h ip - 1))" using assms by (simp add: peers_inv_def)
  then have "release_opt peer m = m(ip := counted (h ip - 1))" using Some by (simp add: release_opt_def release_counted)
  with assms Some show ?thesis
    by (auto simp: peers_inv_def intro: le_trans [OF diff_le_self])
qed

text \<open>The invariant: both counters agree exactly with the threads that hold them, an address that
  nobody holds has no entry, and the caps are kept.\<close>

definition adm_inv :: "Adm \<Rightarrow> bool" where
  "adm_inv s \<longleftrightarrow>
     unat (conn_count s) = length (workers s) + (case pc s of Overflow _ \<Rightarrow> 1 | _ \<Rightarrow> 0)
     \<and> length (workers s) \<le> MAX_CONNECTIONS \<and> peers_inv (peer_counts s) (held s)"

lemmas held_defs = held_def serving_def main_holds_def

lemma count_remove1:
  "x \<in> set xs \<Longrightarrow> count_list (remove1 x xs) y = (if x = y then count_list xs y - 1 else count_list xs y)"
  by (induction xs) (auto simp: count_list_0_iff)

lemma length_remove1_Suc: "x \<in> set xs \<Longrightarrow> length xs = Suc (length (remove1 x xs))"
  by (induction xs) auto

lemma count_pos: "x \<in> set xs \<Longrightarrow> 0 < count_list xs x"
  by (metis count_list_0_iff gr0I)

lemma word_up: "unat (c :: 64 word) \<le> MAX_CONNECTIONS \<Longrightarrow> unat (c + 1) = unat c + 1"
  by (subst unat_add_lem [THEN iffD1]) (simp_all add: MAX_CONNECTIONS_def)

lemma word_down: "unat (c :: 64 word) = Suc n \<Longrightarrow> unat (c - 1) = n"
  by (metis One_nat_def diff_Suc_1 nat.distinct(1) unat_0 unat_minus_one)

lemma adm_inv_step:
  assumes "adm_inv s" and "adm_step a s = Some s'"
  shows "adm_inv s'"
proof -
  have p: "peers_inv (peer_counts s) (held s)" using assms(1) by (simp add: adm_inv_def)
  have keep: "peers_inv (peer_counts s') (held s')" if "peer_counts s' = peer_counts s" "held s' = held s"
    using p that by simp
  show ?thesis
  proof (cases a)
    case AcceptFails
    with assms show ?thesis by (auto split: if_splits)
  next
    case (Accept peer)
    then have acc: "pc s = Accepting" using assms(2) by (auto split: if_splits)
    show ?thesis
    proof (cases "claim_opt peer (peer_counts s)")
      case None
      with Accept acc assms show ?thesis by simp
    next
      case (Some m)
      then have s': "s' = s\<lparr>peer_counts := m, pc := Claimed peer\<rparr>" using Accept acc assms(2) by simp
      have "held s' = (\<lambda>ip. held s ip + (if peer = Some ip then 1 else 0))"
        using acc by (auto simp: s' held_defs)
      then show ?thesis using peers_claim [OF p Some] assms(1) acc by (simp add: s' adm_inv_def)
    qed
  next
    case TakeSlot
    then obtain peer where peer: "pc s = Claimed peer" using assms(2) by (auto split: MainPc.splits)
    have n: "unat (conn_count s) = length (workers s)" "length (workers s) \<le> MAX_CONNECTIONS"
      using assms(1) peer by (simp_all add: adm_inv_def)
    have "peer_counts s' = peer_counts s" "held s' = held s"
      using assms(2) TakeSlot peer by (auto simp: held_defs Let_def split: if_splits)
    with keep show ?thesis
      using assms(2) TakeSlot peer n word_up [of "conn_count s"] by (auto simp: adm_inv_def Let_def split: if_splits)
  next
    case GiveSlotBack
    then obtain peer where peer: "pc s = Overflow peer" using assms(2) by (auto split: MainPc.splits)
    have "peer_counts s' = peer_counts s" "held s' = held s"
      using assms(2) GiveSlotBack peer by (auto simp: held_defs)
    with keep show ?thesis
      using assms GiveSlotBack peer word_down [of "conn_count s" "length (workers s)"] by (auto simp: adm_inv_def)
  next
    case GivePeerBack
    then obtain peer where peer: "pc s = Releasing peer" using assms(2) by (auto split: MainPc.splits)
    have "held s' = (\<lambda>ip. held s ip - (if peer = Some ip then 1 else 0))"
      using assms(2) GivePeerBack peer by (auto simp: held_defs)
    with peers_release [OF p, of peer] peer assms GivePeerBack show ?thesis
      by (auto simp: adm_inv_def held_defs)
  next
    case (DropPeerGuard peer)
    then have w: "Serving peer \<in> set (workers s)" using assms(2) by (auto split: if_splits)
    have "held s' = (\<lambda>ip. held s ip - (if peer = Some ip then 1 else 0))"
      using assms(2) DropPeerGuard w count_pos [OF w] by (intro ext) (auto simp: held_defs count_remove1)
    moreover have "0 < held s ip" if "peer = Some ip" for ip using count_pos [OF w] that by (simp add: held_defs)
    ultimately show ?thesis
      using peers_release [OF p, of peer] assms DropPeerGuard w length_remove1_Suc [OF w]
      by (auto simp: adm_inv_def split: MainPc.splits)
  next
    case DropConnGuard
    then have w: "PeerFreed \<in> set (workers s)" using assms(2) by (auto split: if_splits)
    have "peer_counts s' = peer_counts s" "held s' = held s"
      using assms(2) DropConnGuard w by (auto simp: held_defs count_remove1)
    with keep show ?thesis
      using assms DropConnGuard w length_remove1_Suc [OF w]
      by (auto simp: adm_inv_def word_down split: MainPc.splits)
  qed
qed

lemma adm_reach_inv: "adm_reach s \<Longrightarrow> adm_inv s"
proof (induction rule: adm_reach.induct)
  case adm_start
  show ?case by (simp add: adm_inv_def adm_init_def peers_inv_def held_defs counted_def MAX_CONNECTIONS_def)
next
  case (adm_go s a s')
  then show ?case using adm_inv_step by blast
qed

section \<open>Properties\<close>

text \<open>
  C14: the caps hold under every interleaving, and the counters never drift. In every reachable state
  at most 50 connections are being served, at most 5 of one peer address; the shared
  counter is the number of connection threads (plus the one slot the main thread holds while it
  turns a connection away), and the map has for every address exactly the number of
  its holders, with no entry for an address that has none.
\<close>

theorem admission_caps:
  assumes "adm_reach s"
  shows "length (workers s) \<le> MAX_CONNECTIONS \<and> serving s ip \<le> MAX_CONNECTIONS_PER_IP
     \<and> unat (conn_count s) = length (workers s) + (case pc s of Overflow _ \<Rightarrow> 1 | _ \<Rightarrow> 0)
     \<and> peer_counts s ip = counted (serving s ip + main_holds s ip)"
proof -
  have "adm_inv s" using adm_reach_inv [OF assms] .
  then have "held s ip \<le> MAX_CONNECTIONS_PER_IP" "peer_counts s ip = counted (held s ip)"
    by (simp_all add: adm_inv_def peers_inv_def)
  with \<open>adm_inv s\<close> show ?thesis by (simp add: adm_inv_def held_def)
qed

text \<open>
  A free slot is given out. Whenever the main thread is accepting, fewer than 50 threads live, and
  the peer's address is not at its cap, the next connection from that peer is served: the two
  steps of the main thread are enabled and end in a new serving thread, whatever the other threads
  do in between is not needed.
\<close>

theorem free_slot_admits:
  assumes "adm_reach s" and "pc s = Accepting" and "length (workers s) < MAX_CONNECTIONS"
    and "case peer of Some ip \<Rightarrow> serving s ip < MAX_CONNECTIONS_PER_IP | None \<Rightarrow> True"
  shows "\<exists>s1 s2. adm_step (Accept peer) s = Some s1 \<and> adm_step TakeSlot s1 = Some s2
     \<and> pc s2 = Accepting \<and> workers s2 = Serving peer # workers s"
proof -
  have inv: "adm_inv s" using adm_reach_inv [OF assms(1)] .
  have n: "unat (conn_count s) < MAX_CONNECTIONS" using inv assms(2,3) by (simp add: adm_inv_def)
  have "peer_counts s ip = counted (serving s ip)" for ip
    using inv assms(2) by (simp add: adm_inv_def peers_inv_def held_def main_holds_def)
  then obtain m where "claim_opt peer (peer_counts s) = Some m"
    using assms(4) by (cases peer) (auto simp: claim_opt_def claim_counted)
  with n assms(2) show ?thesis by (simp add: Let_def)
qed

definition example_adm :: Adm where
  "example_adm = \<lparr>pc = Accepting, conn_count = 1, peer_counts = [V4 1 \<mapsto> 1], workers = [Serving (Some (V4 1))]\<rparr>"

lemma example_adm_reach: "adm_reach example_adm"
proof -
  let ?p = "Some (V4 1)"
  have "adm_step (Accept ?p) adm_init = Some (adm_init\<lparr>peer_counts := [V4 1 \<mapsto> 1], pc := Claimed ?p\<rparr>)"
    by (simp add: adm_init_def claim_opt_def claim_peer_def MAX_CONNECTIONS_PER_IP_def)
  from adm_go [OF adm_start this]
  show ?thesis
    by (rule adm_go [where a = TakeSlot]) (simp add: adm_init_def example_adm_def MAX_CONNECTIONS_def)
qed

theorem admission_caps_witness:
  "length (workers example_adm) \<le> 50 \<and> serving example_adm (V4 1) \<le> 5
     \<and> unat (conn_count example_adm) = 1 \<and> peer_counts example_adm (V4 1) = Some 1"
  using admission_caps [OF example_adm_reach, of "V4 1"]
  by (simp add: MAX_CONNECTIONS_def MAX_CONNECTIONS_PER_IP_def example_adm_def)

theorem free_slot_admits_witness:
  "\<exists>s1 s2. adm_step (Accept (Some (V4 1))) example_adm = Some s1 \<and> adm_step TakeSlot s1 = Some s2
     \<and> workers s2 = [Serving (Some (V4 1)), Serving (Some (V4 1))]"
  using free_slot_admits [OF example_adm_reach, of "Some (V4 1)"]
  by (auto simp: example_adm_def MAX_CONNECTIONS_def MAX_CONNECTIONS_PER_IP_def serving_def)

end
