(* ===== verification/Server_Proxy.thy ===== *)
theory Server_Proxy
  imports Url_Filter
begin

text \<open>
  The forward proxy between the headless browser and the network (\<open>server/src/proxy.rs\<close>): it
  resolves the host of every request once, checks the address and connects to that very address.

  The HTTP library (hyper) and the network are arguments. A request is what hyper has parsed; the
  outcome of a dial, of the HTTP handshake and of the forwarded request are functions of the
  address and of how many were made before, and the resolver may answer every lookup
  differently, as a rebinding name server does. The world counts lookups and records every address
  dialled, every request forwarded and the bytes that went through a tunnel.
\<close>

section \<open>Requests\<close>

datatype HttpMethod = ConnectMethod | OtherHttpMethod bytes

record Uri =
  uri_scheme :: "bytes option"
  uri_authority :: "bytes option"
  uri_host :: "bytes option"
  uri_port :: "nat option"
  uri_path_and_query :: "bytes option"

type_synonym header_map = "(bytes \<times> bytes) list"

record ProxyRequest =
  pr_method :: HttpMethod
  pr_uri :: Uri
  pr_headers :: header_map
  pr_body :: bytes

record OutboundRequest =
  out_method :: HttpMethod
  out_path :: bytes
  out_headers :: header_map
  out_body :: bytes

record ProxyResponse =
  resp_status :: nat
  resp_headers :: header_map
  resp_body :: bytes

text \<open>\<open>HeaderMap::remove\<close> and \<open>insert\<close> act on all values of a name.\<close>

definition header_remove :: "bytes \<Rightarrow> header_map \<Rightarrow> header_map" where
  "header_remove n hs = filter (\<lambda>(m, _). m \<noteq> n) hs"

definition header_insert :: "bytes \<Rightarrow> bytes \<Rightarrow> header_map \<Rightarrow> header_map" where
  "header_insert n v hs = header_remove n hs @ [(n, v)]"

definition hop_by_hop :: "bytes list" where
  "hop_by_hop =
     [''connection'', ''proxy-connection'', ''keep-alive'', ''transfer-encoding'', ''te'', ''trailer'',
      ''upgrade'', ''proxy-authenticate'', ''proxy-authorization'']"

definition remove_hop_by_hop :: "header_map \<Rightarrow> header_map" where
  "remove_hop_by_hop hs = fold header_remove hop_by_hop hs"

definition empty_response :: "nat \<Rightarrow> ProxyResponse" where
  "empty_response code = \<lparr>resp_status = code, resp_headers = [], resp_body = []\<rparr>"

definition error_response :: "UrlError \<Rightarrow> ProxyResponse" where
  "error_response err =
     \<lparr>resp_status = 403, resp_headers = [],
      resp_body = ''packet-browser proxy: '' @ url_error_to_string err @ [LF]\<rparr>"

section \<open>The network\<close>

datatype Dial = Dialled | DialTimedOut | DialFailed bytes

record ProxyEnv =
  pe_blocklist :: "bytes set option"
  pe_ranges :: "bytes list"
  pe_dns :: "nat \<Rightarrow> resolver"
  pe_dial :: "nat \<Rightarrow> IpAddr \<Rightarrow> nat \<Rightarrow> Dial"
  pe_handshake :: "nat \<Rightarrow> bytes option"
  pe_uri_build :: "bytes \<Rightarrow> bytes option"
  pe_header_error :: bytes
  pe_exchange :: "OutboundRequest \<Rightarrow> nat \<Rightarrow> (bytes, ProxyResponse) result"

record ProxyWorld =
  lookups :: nat
  dials :: "(IpAddr \<times> nat) list"
  forwarded :: "(IpAddr \<times> nat \<times> OutboundRequest) list"
  upstream_got :: bytes
  client_got :: bytes

definition pin :: "ProxyEnv \<Rightarrow> bytes \<Rightarrow> nat \<Rightarrow> ProxyWorld \<Rightarrow> (UrlError, IpAddr) result \<times> ProxyWorld" where
  "pin E host port w =
     (resolve_and_pin (pe_blocklist E) (pe_dns E (lookups w)) host port (pe_ranges E), w\<lparr>lookups := Suc (lookups w)\<rparr>)"

definition dial_upstream :: "ProxyEnv \<Rightarrow> IpAddr \<Rightarrow> nat \<Rightarrow> ProxyWorld \<Rightarrow> Dial \<times> ProxyWorld" where
  "dial_upstream E ip port w = (pe_dial E (length (dials w)) ip port, w\<lparr>dials := dials w @ [(ip, port)]\<rparr>)"

section \<open>Tunnels\<close>

definition handle_connect ::
  "ProxyEnv \<Rightarrow> ProxyRequest \<Rightarrow> ProxyWorld \<Rightarrow> (UrlError, bytes \<times> nat \<times> IpAddr) result \<times> ProxyWorld" where
  "handle_connect E req w =
     (case uri_authority (pr_uri req) of
        None \<Rightarrow> (Err InvalidUrl, w)
      | Some auth \<Rightarrow>
          (case rsplit_once (CHR '':'') auth of
             None \<Rightarrow> (Err InvalidUrl, w)
           | Some (host, port_str) \<Rightarrow>
               (case parse_u16 port_str of
                  None \<Rightarrow> (Err InvalidUrl, w)
                | Some port \<Rightarrow>
                    if port \<noteq> 443 \<and> port \<noteq> 80 then
                      (Err (BlockedProtocol (''CONNECT :'' @ nat_to_string port)), w)
                    else
                      let host_clean = trim_end_matches (\<lambda>b. b = CHR '']'') (trim_start_matches (\<lambda>b. b = CHR ''['') host) in
                      (case pin E host_clean port w of
                         (Inl e, w) \<Rightarrow> (Err e, w)
                       | (Inr pinned, w) \<Rightarrow> (Ok (host, port, pinned), w)))))"

text \<open>What hyper hands over when the connection is upgraded: the bytes it has read too far, and the two
  streams; a failed write or copy has moved some of the bytes.\<close>

record Upgraded =
  tn_downcast :: bool
  tn_read_buf :: bytes
  tn_client :: bytes
  tn_upstream :: bytes
  tn_write_error :: "(bytes \<times> nat) option"
  tn_copy_error :: "(bytes \<times> nat \<times> nat) option"

definition copy_bidirectional :: "Upgraded \<Rightarrow> ProxyWorld \<Rightarrow> (bytes, unit) result \<times> ProxyWorld" where
  "copy_bidirectional up w =
     (case tn_copy_error up of
        None \<Rightarrow> (Ok (), w\<lparr>upstream_got := upstream_got w @ tn_client up, client_got := client_got w @ tn_upstream up\<rparr>)
      | Some (e, i, j) \<Rightarrow>
          (Err e, w\<lparr>upstream_got := upstream_got w @ take i (tn_client up),
                    client_got := client_got w @ take j (tn_upstream up)\<rparr>))"

definition tunnel :: "ProxyEnv \<Rightarrow> Upgraded \<Rightarrow> IpAddr \<Rightarrow> nat \<Rightarrow> ProxyWorld \<Rightarrow> (bytes, unit) result \<times> ProxyWorld" where
  "tunnel E up ip port w =
     (case dial_upstream E ip port w of
        (DialTimedOut, w) \<Rightarrow> (Err ''connect timeout'', w)
      | (DialFailed e, w) \<Rightarrow> (Err e, w)
      | (Dialled, w) \<Rightarrow>
          if \<not> tn_downcast up then (Err ''upgrade downcast failed'', w)
          else if tn_read_buf up \<noteq> [] then
            (case tn_write_error up of
               Some (e, i) \<Rightarrow> (Err e, w\<lparr>upstream_got := upstream_got w @ take i (tn_read_buf up)\<rparr>)
             | None \<Rightarrow> copy_bidirectional up (w\<lparr>upstream_got := upstream_got w @ tn_read_buf up\<rparr>))
          else copy_bidirectional up w)"

section \<open>Plain requests\<close>

datatype ForwardError = Blocked UrlError | BadRequest | Upstream bytes

definition visible_ascii :: "bytes \<Rightarrow> bool" where
  "visible_ascii v \<longleftrightarrow> list_all (\<lambda>b. in_range b 32 126 \<or> byte_val b = 9) v"

text \<open>The request as it goes to the origin.\<close>

definition outbound :: "ProxyRequest \<Rightarrow> bytes \<Rightarrow> bytes \<Rightarrow> OutboundRequest" where
  "outbound req path host_header =
     \<lparr>out_method = pr_method req, out_path = path,
      out_headers = remove_hop_by_hop (header_insert ''host'' host_header (pr_headers req)), out_body = pr_body req\<rparr>"

definition host_header_for :: "bytes \<Rightarrow> nat \<Rightarrow> bytes" where
  "host_header_for host port = (if port = 80 then host else host @ '':'' @ nat_to_string port)"

definition forward_http :: "ProxyEnv \<Rightarrow> ProxyRequest \<Rightarrow> ProxyWorld \<Rightarrow> (ForwardError, ProxyResponse) result \<times> ProxyWorld" where
  "forward_http E req w =
     (let uri = pr_uri req in
      case uri_scheme uri of
        None \<Rightarrow> (Err BadRequest, w)
      | Some scheme_str \<Rightarrow>
          if scheme_str \<noteq> ''http'' then (Err (Blocked (BlockedProtocol scheme_str)), w)
          else (case uri_host uri of
                  None \<Rightarrow> (Err BadRequest, w)
                | Some host \<Rightarrow>
                    let port = (case uri_port uri of Some p \<Rightarrow> p | None \<Rightarrow> 80) in
                    (case pin E host port w of
                       (Inl e, w) \<Rightarrow> (Err (Blocked e), w)
                     | (Inr pinned, w) \<Rightarrow>
                         (case dial_upstream E pinned port w of
                            (DialTimedOut, w) \<Rightarrow> (Err (Upstream ''connect timeout''), w)
                          | (DialFailed e, w) \<Rightarrow> (Err (Upstream e), w)
                          | (Dialled, w) \<Rightarrow>
                              (case pe_handshake E (length (forwarded w)) of
                                 Some e \<Rightarrow> (Err (Upstream e), w)
                               | None \<Rightarrow>
                                   let path = (case uri_path_and_query uri of Some p \<Rightarrow> p | None \<Rightarrow> ''/'') in
                                   (case pe_uri_build E path of
                                      Some e \<Rightarrow> (Err (Upstream e), w)
                                    | None \<Rightarrow>
                                        let host_header = host_header_for host port in
                                        if \<not> visible_ascii host_header then (Err (Upstream (pe_header_error E)), w)
                                        else
                                          let out = outbound req path host_header;
                                              res = pe_exchange E out (length (forwarded w));
                                              w = w\<lparr>forwarded := forwarded w @ [(pinned, port, out)]\<rparr>
                                          in case res of
                                               Inl e \<Rightarrow> (Err (Upstream e), w)
                                             | Inr resp \<Rightarrow> (Ok resp, w)))))))"

section \<open>The service\<close>

text \<open>A request is answered at once; a granted CONNECT leaves a tunnel to run when the upgrade lands.\<close>

definition handle :: "ProxyEnv \<Rightarrow> ProxyRequest \<Rightarrow> ProxyWorld \<Rightarrow> (ProxyResponse \<times> (IpAddr \<times> nat) option) \<times> ProxyWorld" where
  "handle E req w =
     (if pr_method req = ConnectMethod then
        (case handle_connect E req w of
           (Inr (host, port, pinned_ip), w) \<Rightarrow> ((empty_response 200, Some (pinned_ip, port)), w)
         | (Inl url_err, w) \<Rightarrow> ((error_response url_err, None), w))
      else
        (case forward_http E req w of
           (Inr resp, w) \<Rightarrow> ((resp, None), w)
         | (Inl (Blocked e), w) \<Rightarrow> ((error_response e, None), w)
         | (Inl BadRequest, w) \<Rightarrow> ((empty_response 400, None), w)
         | (Inl (Upstream msg), w) \<Rightarrow> ((empty_response 502, None), w)))"

definition serve_request :: "ProxyEnv \<Rightarrow> ProxyRequest \<Rightarrow> (bytes, Upgraded) result \<Rightarrow> ProxyWorld \<Rightarrow> ProxyResponse \<times> ProxyWorld" where
  "serve_request E req upgrade w =
     (case handle E req w of
        ((resp, None), w) \<Rightarrow> (resp, w)
      | ((resp, Some (ip, port)), w) \<Rightarrow>
          (case upgrade of
             Inl _ \<Rightarrow> (resp, w)
           | Inr up \<Rightarrow> (resp, snd (tunnel E up ip port w))))"

section \<open>Properties\<close>

text \<open>The host a request asks for, as it is given to the check.\<close>

definition request_target :: "ProxyRequest \<Rightarrow> (bytes \<times> nat) option" where
  "request_target req =
     (if pr_method req = ConnectMethod then
        (case Option.bind (uri_authority (pr_uri req)) (rsplit_once (CHR '':'')) of
           None \<Rightarrow> None
         | Some (host, port_str) \<Rightarrow>
             map_option (Pair (trim_end_matches (\<lambda>b. b = CHR '']'') (trim_start_matches (\<lambda>b. b = CHR ''['') host)))
               (parse_u16 port_str))
      else map_option (\<lambda>host. (host, case uri_port (pr_uri req) of Some p \<Rightarrow> p | None \<Rightarrow> 80)) (uri_host (pr_uri req)))"

definition pinned_for :: "ProxyEnv \<Rightarrow> nat \<Rightarrow> bytes \<Rightarrow> nat \<Rightarrow> IpAddr \<Rightarrow> bool" where
  "pinned_for E n host port ip \<longleftrightarrow> resolve_and_pin (pe_blocklist E) (pe_dns E n) host port (pe_ranges E) = Ok ip"

lemma pinned_clean:
  assumes "pinned_for E n host port ip"
  shows "\<not> ip_is_blocked ip (pe_ranges E)" "to_ascii_lowercase host \<notin> set BLOCKED_HOSTNAMES"
    "\<not> is_domain_blocked (pe_blocklist E) host"
  using assms by (auto simp: pinned_for_def resolve_and_pin_def Let_def is_domain_blocked_def
      split: sum.splits option.splits list.splits if_splits)

lemma handle_connect_cases:
  "handle_connect E req w = (r, w') \<Longrightarrow> pr_method req = ConnectMethod \<Longrightarrow>
     (w' = w \<or> w' = w\<lparr>lookups := Suc (lookups w)\<rparr>)
     \<and> (\<forall>host port ip. r = Ok (host, port, ip) \<longrightarrow> port \<in> {80, 443} \<and>
          (\<exists>target. request_target req = Some (target, port) \<and> pinned_for E (lookups w) target port ip))"
  by (auto simp: handle_connect_def request_target_def pinned_for_def pin_def Let_def
      split: option.splits if_splits sum.splits prod.splits)

lemma filter_header_remove:
  "filter P (header_remove n hs) = filter (\<lambda>h. P h \<and> fst h \<noteq> n) hs"
  by (auto simp: header_remove_def filter_filter split_def intro: filter_cong)

lemma remove_hop_by_hop_filter: "remove_hop_by_hop hs = filter (\<lambda>(n, _). n \<notin> set hop_by_hop) hs"
proof -
  have "fold header_remove ns hs = filter (\<lambda>(n, _). n \<notin> set ns) hs" for ns
    by (induction ns arbitrary: hs) (auto simp: header_remove_def filter_filter split_def intro!: filter_cong)
  then show ?thesis by (simp add: remove_hop_by_hop_def)
qed

definition proper_outbound :: "bytes \<Rightarrow> nat \<Rightarrow> OutboundRequest \<Rightarrow> bool" where
  "proper_outbound host port out \<longleftrightarrow>
     list_all (\<lambda>(n, _). n \<notin> set hop_by_hop) (out_headers out)
     \<and> filter (\<lambda>(n, _). n = ''host'') (out_headers out) = [(''host'', host_header_for host port)]"

lemma outbound_proper: "proper_outbound host port (outbound req path (host_header_for host port))"
  by (auto simp: proper_outbound_def outbound_def remove_hop_by_hop_filter header_insert_def header_remove_def
      filter_filter list_all_iff hop_by_hop_def filter_empty_conv)

text \<open>What one request may have done to the world.\<close>

definition untouched :: "ProxyWorld \<Rightarrow> ProxyWorld \<Rightarrow> bool" where
  "untouched w w' \<longleftrightarrow> dials w' = dials w \<and> forwarded w' = forwarded w \<and> upstream_got w' = upstream_got w \<and> client_got w' = client_got w"

definition reached :: "ProxyEnv \<Rightarrow> ProxyRequest \<Rightarrow> ProxyWorld \<Rightarrow> bytes \<Rightarrow> nat \<Rightarrow> IpAddr \<Rightarrow> ProxyWorld \<Rightarrow> bool" where
  "reached E req w host port ip w' \<longleftrightarrow>
     request_target req = Some (host, port) \<and> pinned_for E (lookups w) host port ip \<and> dials w' = dials w @ [(ip, port)]
     \<and> (forwarded w' = forwarded w \<or> (\<exists>out. forwarded w' = forwarded w @ [(ip, port, out)] \<and> proper_outbound host port out))"

lemma forward_http_cases:
  assumes "forward_http E req w = (r, w')" and "pr_method req \<noteq> ConnectMethod"
  shows "lookups w' \<le> Suc (lookups w) \<and> upstream_got w' = upstream_got w \<and> client_got w' = client_got w
     \<and> (untouched w w' \<or> (\<exists>host port ip. reached E req w host port ip w'))"
proof (cases "uri_scheme (pr_uri req) = Some ''http''")
  case False
  then show ?thesis using assms by (auto simp: forward_http_def untouched_def Let_def split: option.splits if_splits)
next
  case http: True
  show ?thesis
  proof (cases "uri_host (pr_uri req)")
    case None
    then show ?thesis using assms http by (auto simp: forward_http_def untouched_def Let_def)
  next
    case (Some host)
    define port where "port = (case uri_port (pr_uri req) of Some p \<Rightarrow> p | None \<Rightarrow> 80)"
    have target: "request_target req = Some (host, port)" using assms(2) Some by (simp add: request_target_def port_def)
    show ?thesis
    proof (cases "resolve_and_pin (pe_blocklist E) (pe_dns E (lookups w)) host port (pe_ranges E)")
      case (Inl e)
      then show ?thesis
        using assms http Some by (auto simp: forward_http_def untouched_def Let_def pin_def port_def [symmetric])
    next
      case (Inr ip)
      then have "reached E req w host port ip w' \<and> lookups w' = Suc (lookups w)
          \<and> upstream_got w' = upstream_got w \<and> client_got w' = client_got w"
        using assms(1) http Some target
        by (auto simp: forward_http_def reached_def Let_def pin_def dial_upstream_def port_def [symmetric] pinned_for_def
            outbound_proper split: Dial.splits option.splits if_splits sum.splits)
      then show ?thesis by auto
    qed
  qed
qed

lemma tunnel_dials:
  "dials (snd (tunnel E up ip port w)) = dials w @ [(ip, port)]
   \<and> forwarded (snd (tunnel E up ip port w)) = forwarded w \<and> lookups (snd (tunnel E up ip port w)) = lookups w"
  by (auto simp: tunnel_def dial_upstream_def copy_bidirectional_def split: Dial.splits option.splits)

lemma tunnel_transparent:
  assumes "tunnel E up ip port w = (Ok (), w')"
  shows "upstream_got w' = upstream_got w @ tn_read_buf up @ tn_client up \<and> client_got w' = client_got w @ tn_upstream up"
  using assms by (auto simp: tunnel_def dial_upstream_def copy_bidirectional_def split: Dial.splits option.splits if_splits)

lemma serve_request_cases:
  assumes run: "serve_request E req upgrade w = (resp, w')"
  shows "lookups w' \<le> Suc (lookups w)
     \<and> (untouched w w' \<or> (\<exists>host port ip. reached E req w host port ip w'
          \<and> (pr_method req = ConnectMethod \<longrightarrow> port \<in> {80, 443} \<and> forwarded w' = forwarded w)))"
proof (cases "pr_method req = ConnectMethod")
  case True
  obtain r w1 where c: "handle_connect E req w = (r, w1)" by fastforce
  note cases = handle_connect_cases [OF c True]
  show ?thesis
  proof (cases r)
    case (Inl e)
    with run True c cases show ?thesis by (auto simp: serve_request_def handle_def untouched_def)
  next
    case (Inr t)
    obtain host port ip where t: "t = (host, port, ip)" by (cases t) auto
    obtain target where tg: "port \<in> {80, 443}" "request_target req = Some (target, port)" "pinned_for E (lookups w) target port ip"
      using cases Inr t by blast
    show ?thesis
    proof (cases upgrade)
      case (Inl e)
      with run True c cases Inr t show ?thesis by (auto simp: serve_request_def handle_def untouched_def)
    next
      case up: (Inr up)
      have "w' = snd (tunnel E up ip port w1)" using run True c Inr t up by (simp add: serve_request_def handle_def)
      moreover have "dials w1 = dials w" "forwarded w1 = forwarded w" "lookups w1 \<le> Suc (lookups w)" using cases by auto
      ultimately have "reached E req w target port ip w'" "lookups w' \<le> Suc (lookups w)" "forwarded w' = forwarded w"
        using tunnel_dials [of E up ip port w1] tg by (simp_all add: reached_def)
      with tg(1) show ?thesis by blast
    qed
  qed
next
  case False
  obtain r w1 where f: "forward_http E req w = (r, w1)" by fastforce
  then have "w' = w1" using run False by (auto simp: serve_request_def handle_def split: sum.splits ForwardError.splits)
  with forward_http_cases [OF f False] False show ?thesis by auto
qed

text \<open>
  C11: the browser reaches checked addresses only. Whatever a page makes the browser request, the
  proxy looks the host up at most once and dials at most one address. That address passed the
  filter: it is outside every blocked range, the name is not blocked, and it is the literal of the
  request or the first answer of that one lookup, however the resolver answers later. A tunnel goes
  to port 80 or 443. A request that is forwarded goes to the address that was checked, with one Host header
  for the name that was checked and no hop-by-hop header.
\<close>

theorem proxy_reaches_checked_addresses_only:
  "case serve_request E req upgrade w of (resp, w') \<Rightarrow>
     lookups w' \<le> Suc (lookups w)
     \<and> (untouched w w'
        \<or> (\<exists>host port ip. request_target req = Some (host, port)
             \<and> dials w' = dials w @ [(ip, port)]
             \<and> \<not> ip_is_blocked ip (pe_ranges E)
             \<and> to_ascii_lowercase host \<notin> set BLOCKED_HOSTNAMES \<and> \<not> is_domain_blocked (pe_blocklist E) host
             \<and> resolve_and_pin (pe_blocklist E) (pe_dns E (lookups w)) host port (pe_ranges E) = Ok ip
             \<and> (pr_method req = ConnectMethod \<longrightarrow> port \<in> {80, 443} \<and> forwarded w' = forwarded w)
             \<and> (forwarded w' = forwarded w
                \<or> (\<exists>out. forwarded w' = forwarded w @ [(ip, port, out)] \<and> proper_outbound host port out))))"
proof -
  obtain resp w' where run: "serve_request E req upgrade w = (resp, w')" by fastforce
  show ?thesis
    unfolding run prod.case using serve_request_cases [OF run] pinned_clean unfolding reached_def pinned_for_def by blast
qed

text \<open>A name that resolves to a public address first and to a private one later.\<close>

definition rebinding_net :: ProxyEnv where
  "rebinding_net =
     \<lparr>pe_blocklist = None, pe_ranges = [''10.0.0.0/8''],
      pe_dns = (\<lambda>n _ _. if n = 0 then Some [V4 0x5DB8D822] else Some [V4 0x0A000001]),
      pe_dial = (\<lambda>_ _ _. Dialled), pe_handshake = (\<lambda>_. None), pe_uri_build = (\<lambda>_. None), pe_header_error = [],
      pe_exchange = (\<lambda>_ _. Ok (empty_response 200))\<rparr>"

definition rebinding_request :: ProxyRequest where
  "rebinding_request =
     \<lparr>pr_method = OtherHttpMethod ''GET'',
      pr_uri = \<lparr>uri_scheme = Some ''http'', uri_authority = Some ''example.org'', uri_host = Some ''example.org'',
                uri_port = None, uri_path_and_query = Some ''/''\<rparr>,
      pr_headers = [(''connection'', ''keep-alive'')], pr_body = []\<rparr>"

definition quiet_world :: ProxyWorld where
  "quiet_world = \<lparr>lookups = 0, dials = [], forwarded = [], upstream_got = [], client_got = []\<rparr>"

theorem proxy_reaches_checked_addresses_only_witness:
  "dials (snd (serve_request rebinding_net rebinding_request (Err []) quiet_world)) = [(V4 0x5DB8D822, 80)]
   \<and> \<not> ip_is_blocked (V4 0x5DB8D822) (pe_ranges rebinding_net)"
proof -
  let ?run = "serve_request rebinding_net rebinding_request (Err []) quiet_world"
  have d: "dials (snd ?run) = [(V4 0x5DB8D822, 80)]" by code_simp
  have "dials quiet_world = []" by (simp add: quiet_world_def)
  with d show ?thesis
    using proxy_reaches_checked_addresses_only [where E = rebinding_net and req = rebinding_request and upgrade = "Err []" and w = quiet_world]
    by (cases ?run) (auto simp: untouched_def)
qed

text \<open>
  A refused host is answered with 403 and nothing is dialled.
\<close>

lemma blocked_host_refused:
  assumes "request_target req = Some (host, port)" and "pr_method req \<noteq> ConnectMethod"
    and "uri_scheme (pr_uri req) = Some ''http''"
    and "resolve_and_pin (pe_blocklist E) (pe_dns E (lookups w)) host port (pe_ranges E) = Err e"
  shows "fst (serve_request E req upgrade w) = error_response e \<and> untouched w (snd (serve_request E req upgrade w))"
  using assms by (auto simp: serve_request_def handle_def forward_http_def request_target_def pin_def untouched_def Let_def)

end
