(* ===== verification/Page_Scrub.thy ===== *)
theory Page_Scrub
  imports Browser
begin

text \<open>
  The script that the server runs inside a loaded page (\<open>JS_SCRUB_HTML\<close> in \<open>server/src/browser.rs\<close>): it takes in the
  style sheets, removes active and heavy elements, replaces images by their descriptions, drops event
  handlers, and serialises what is left, with a plainer version when the text is too long.

  The document is its tree below \<open>document.documentElement\<close>. Tag and attribute names are in lower case, as
  the HTML parser of a browser makes them, and the content of a \<open>template\<close> is not part of the tree.
  The browser is an argument: the fetch of a style sheet, the resolution of a URL, the
  serialisation \<open>outerHTML\<close>, the length of a string in UTF-16 units, and the text of a TypeError.
\<close>

section \<open>The document\<close>

type_synonym attributes = "(bytes \<times> bytes) list"

datatype Dom = TextNode bytes | CommentNode bytes | ElemNode bytes attributes "Dom list"

text \<open>\<open>querySelectorAll(..).forEach(el => el.remove())\<close>: an element goes with everything in it.\<close>

fun prune :: "(bytes \<Rightarrow> bool) \<Rightarrow> Dom \<Rightarrow> Dom list" where
  "prune P (TextNode s) = [TextNode s]"
| "prune P (CommentNode s) = [CommentNode s]"
| "prune P (ElemNode t as ds) = (if P t then [] else [ElemNode t as (concat (map (prune P) ds))])"

text \<open>A change of the attributes of every element.\<close>

fun map_attributes :: "(attributes \<Rightarrow> attributes) \<Rightarrow> Dom \<Rightarrow> Dom" where
  "map_attributes f (TextNode s) = TextNode s"
| "map_attributes f (CommentNode s) = CommentNode s"
| "map_attributes f (ElemNode t as ds) = ElemNode t (f as) (map (map_attributes f) ds)"

definition attribute :: "bytes \<Rightarrow> attributes \<Rightarrow> bytes" where
  "attribute n as = (case map_of as n of Some v \<Rightarrow> v | None \<Rightarrow> [])"

record ScrubEnv =
  js_fetch :: "nat \<Rightarrow> bytes \<Rightarrow> bytes option"
  js_resolve :: "bytes \<Rightarrow> bytes"
  js_outer_html :: "Dom \<Rightarrow> bytes"
  js_length :: "bytes \<Rightarrow> nat"
  js_type_error :: bytes

section \<open>Style sheets\<close>

text \<open>\<open>css.replace(/url\([^)]*\)/g, '')\<close>.\<close>

function strip_urls :: "bytes \<Rightarrow> bytes" where
  "strip_urls [] = []"
| "strip_urls (c # s) =
     (if prefix ''url('' (c # s) \<and> CHR '')'' \<in> set (drop 3 s) then
        strip_urls (tl (dropWhile (\<lambda>b. b \<noteq> CHR '')'') (drop 3 s)))
      else c # strip_urls s)"
  by pat_completeness auto
termination
proof (relation "measure length", goal_cases)
  case (2 c s)
  have "length (dropWhile (\<lambda>b. b \<noteq> CHR '')'') (drop 3 s)) \<le> length (drop 3 s)" by (rule length_dropWhile_le)
  then show ?case by simp
qed simp_all

declare strip_urls.simps [simp del]

definition is_stylesheet :: "bytes \<Rightarrow> attributes \<Rightarrow> bool" where
  "is_stylesheet t as \<longleftrightarrow> t = ''link'' \<and> eq_ignore_ascii_case (attribute ''rel'' as) ''stylesheet''"

text \<open>The loop over the style sheets, in document order: the number of the next fetch is passed along, a sheet that
  was read is removed, one that was not stays.\<close>

fun take_styles :: "ScrubEnv \<Rightarrow> nat \<Rightarrow> Dom \<Rightarrow> Dom list \<times> nat \<times> bytes list"
  and take_styles_list :: "ScrubEnv \<Rightarrow> nat \<Rightarrow> Dom list \<Rightarrow> Dom list \<times> nat \<times> bytes list" where
  "take_styles J n (TextNode s) = ([TextNode s], n, [])"
| "take_styles J n (CommentNode s) = ([CommentNode s], n, [])"
| "take_styles J n (ElemNode t as ds) =
     (if is_stylesheet t as then
        (case js_fetch J n (js_resolve J (attribute ''href'' as)) of
           Some css \<Rightarrow> (case take_styles_list J (Suc n) ds of (ds, n, texts) \<Rightarrow> ([], n, strip_urls css # texts))
         | None \<Rightarrow> (case take_styles_list J (Suc n) ds of (ds, n, texts) \<Rightarrow> ([ElemNode t as ds], n, texts)))
      else (case take_styles_list J n ds of (ds, n, texts) \<Rightarrow> ([ElemNode t as ds], n, texts)))"
| "take_styles_list J n [] = ([], n, [])"
| "take_styles_list J n (d # ds) =
     (case take_styles J n d of (d', n, texts) \<Rightarrow>
        (case take_styles_list J n ds of (ds', n, texts') \<Rightarrow> (d' @ ds', n, texts @ texts')))"

text \<open>\<open>document.head.appendChild(style)\<close>: the first \<open>head\<close> below the root; without one a TypeError.\<close>

fun append_to_head :: "Dom \<Rightarrow> Dom list \<Rightarrow> Dom list option" where
  "append_to_head style [] = None"
| "append_to_head style (ElemNode t as ds # rest) =
     (if t = ''head'' then Some (ElemNode t as (ds @ [style]) # rest)
      else map_option ((#) (ElemNode t as ds)) (append_to_head style rest))"
| "append_to_head style (d # rest) = map_option ((#) d) (append_to_head style rest)"

definition style_element :: "bytes \<Rightarrow> Dom" where
  "style_element css = ElemNode ''style'' [] [TextNode css]"

fun add_style :: "bytes \<Rightarrow> Dom \<Rightarrow> Dom option" where
  "add_style css (ElemNode t as ds) = (if t = ''html'' then map_option (ElemNode t as) (append_to_head (style_element css) ds) else None)"
| "add_style css _ = None"

fun join_lines :: "bytes list \<Rightarrow> bytes" where
  "join_lines [] = []"
| "join_lines [s] = s"
| "join_lines (s # ss) = s @ LF # join_lines ss"

section \<open>Images and handlers\<close>

text \<open>\<open>img.alt || img.src.split('/').pop() || 'image'\<close>; without a \<open>src\<close> the property is empty.\<close>

definition image_text :: "ScrubEnv \<Rightarrow> attributes \<Rightarrow> bytes" where
  "image_text J as =
     (let alt = attribute ''alt'' as;
          src = (case map_of as ''src'' of Some v \<Rightarrow> js_resolve J v | None \<Rightarrow> []);
          name = last (split_char (CHR ''/'') src)
      in ''[image: '' @ (if alt \<noteq> [] then alt else if name \<noteq> [] then name else ''image'') @ '']'')"

fun replace_images :: "ScrubEnv \<Rightarrow> Dom \<Rightarrow> Dom" where
  "replace_images J (TextNode s) = TextNode s"
| "replace_images J (CommentNode s) = CommentNode s"
| "replace_images J (ElemNode t as ds) =
     (if t = ''img'' then TextNode (image_text J as) else ElemNode t as (map (replace_images J) ds))"

definition drop_handlers :: "attributes \<Rightarrow> attributes" where
  "drop_handlers as = filter (\<lambda>(n, _). \<not> prefix ''on'' n) as"

definition drop_styling :: "attributes \<Rightarrow> attributes" where
  "drop_styling as = filter (\<lambda>(n, _). n \<notin> {''class'', ''id'', ''style''}) as"

section \<open>The script\<close>

definition MAX_SIZE :: nat where "MAX_SIZE = 32768"

definition FALLBACK_CSS :: bytes where
  "FALLBACK_CSS =
     ''body{font-family:sans-serif;max-width:40em;margin:0 auto;padding:1em;line-height:1.5}a{color:#06c}h1,h2,h3{margin:1em 0 .5em}table{border-collapse:collapse}td,th{border:1px solid #ccc;padding:.3em}img{display:none}''"

definition heavy_selectors :: "bytes list" where
  "heavy_selectors =
     [''script'', ''iframe'', ''video'', ''audio'', ''canvas'', ''svg'', ''object'', ''embed'', ''noscript'', ''template'']"

definition prune_root :: "(bytes \<Rightarrow> bool) \<Rightarrow> Dom option \<Rightarrow> Dom option" where
  "prune_root P root =
     (case root of None \<Rightarrow> None | Some d \<Rightarrow> (case prune P d of [] \<Rightarrow> None | d # _ \<Rightarrow> Some d))"

definition or_error :: "ScrubEnv \<Rightarrow> 'a option \<Rightarrow> (bytes, 'a) result" where
  "or_error J x = (case x of Some v \<Rightarrow> Ok v | None \<Rightarrow> Err (js_type_error J))"

text \<open>The style sheets are taken in; a root that is itself a sheet may be gone after it.\<close>

definition inline_styles :: "ScrubEnv \<Rightarrow> Dom \<Rightarrow> (bytes, Dom option) result" where
  "inline_styles J root =
     (case take_styles J 0 root of (ds, _, texts) \<Rightarrow>
        if texts = [] then Ok (case ds of [] \<Rightarrow> None | d # _ \<Rightarrow> Some d)
        else (case ds of
                [] \<Rightarrow> Err (js_type_error J)
              | d # _ \<Rightarrow> res_bind (or_error J (add_style (join_lines texts) d)) (\<lambda>d. Ok (Some d))))"

text \<open>A text cannot stand in the place of the root.\<close>

definition images_replaced :: "ScrubEnv \<Rightarrow> Dom option \<Rightarrow> (bytes, Dom option) result" where
  "images_replaced J root =
     (case root of
        None \<Rightarrow> Ok None
      | Some (ElemNode t as ds) \<Rightarrow> if t = ''img'' then Err (js_type_error J) else Ok (Some (replace_images J (ElemNode t as ds)))
      | Some d \<Rightarrow> Ok (Some (replace_images J d)))"

definition cleaned :: "ScrubEnv \<Rightarrow> Dom \<Rightarrow> (bytes, Dom option) result" where
  "cleaned J root =
     res_bind (inline_styles J root) (\<lambda>doc.
     res_bind (images_replaced J (fold (\<lambda>sel. prune_root ((=) sel)) heavy_selectors doc)) (\<lambda>doc.
       Ok (map_option (map_attributes drop_handlers) doc)))"

definition plainer :: "ScrubEnv \<Rightarrow> Dom \<Rightarrow> (bytes, Dom) result" where
  "plainer J d =
     res_bind (or_error J (prune_root ((=) ''style'') (Some d))) (\<lambda>d.
       or_error J (add_style FALLBACK_CSS (map_attributes drop_styling d)))"

definition scrub :: "ScrubEnv \<Rightarrow> Dom \<Rightarrow> (bytes, bytes \<times> Dom) result" where
  "scrub J root =
     res_bind (cleaned J root) (\<lambda>doc.
     res_bind (or_error J doc) (\<lambda>d.
       let html = js_outer_html J d in
       if MAX_SIZE < js_length J html then
         res_bind (plainer J d) (\<lambda>d. Ok (js_outer_html J d, d))
       else Ok (html, d)))"

text \<open>What the wrapper around the script hands to the callback: the text, or the marked message of what was
  thrown.\<close>

definition script_value :: "ScrubEnv \<Rightarrow> Dom \<Rightarrow> bytes" where
  "script_value J root = (case scrub J root of Inr (html, d) \<Rightarrow> html | Inl msg \<Rightarrow> ''__SCRUB_ERROR__'' @ msg)"

section \<open>The elements of a document\<close>

fun elements :: "Dom \<Rightarrow> (bytes \<times> attributes) list" where
  "elements (TextNode s) = []"
| "elements (CommentNode s) = []"
| "elements (ElemNode t as ds) = (t, as) # concat (map elements ds)"

abbreviation all_elements :: "Dom list \<Rightarrow> (bytes \<times> attributes) list" where
  "all_elements ds \<equiv> concat (map elements ds)"

lemma elements_map_attributes: "elements (map_attributes f d) = map (\<lambda>(t, as). (t, f as)) (elements d)"
  by (induction d) (simp_all add: map_concat o_def cong: map_cong)

lemma elements_prune: "set (all_elements (prune P d)) \<subseteq> {(t, as) \<in> set (elements d). \<not> P t}"
  by (induction d) auto

lemma elements_replace_images: "set (elements (replace_images J d)) \<subseteq> {(t, as) \<in> set (elements d). t \<noteq> ''img''}"
  by (induction d) auto

lemma elements_append_to_head:
  "append_to_head style ds = Some ds' \<Longrightarrow> set (all_elements ds') = set (all_elements ds) \<union> set (elements style)"
  by (induction style ds arbitrary: ds' rule: append_to_head.induct) (auto simp del: set_concat split: if_splits)

lemma elements_add_style:
  "add_style css d = Some d' \<Longrightarrow> set (elements d') = set (elements d) \<union> {(''style'', [])}"
  by (cases d) (auto simp: style_element_def split: if_splits dest!: elements_append_to_head)

lemma prune_root_Some:
  "prune_root P (Some d) = Some d' \<Longrightarrow> set (elements d') \<subseteq> {(t, as) \<in> set (elements d). \<not> P t}"
  using elements_prune [of P d] by (auto simp: prune_root_def split: list.splits)

lemma prune_root_None [simp]: "prune_root P None = None"
  by (simp add: prune_root_def)

lemma prune_all:
  "fold (\<lambda>sel. prune_root ((=) sel)) sels doc = Some d' \<Longrightarrow>
     \<exists>d. doc = Some d \<and> set (elements d') \<subseteq> {(t, as) \<in> set (elements d). t \<notin> set sels}"
proof (induction sels arbitrary: doc)
  case Nil
  then show ?case by auto
next
  case (Cons sel sels)
  then obtain d1 where d1: "prune_root ((=) sel) doc = Some d1"
    "set (elements d') \<subseteq> {(t, as) \<in> set (elements d1). t \<notin> set sels}" by fastforce
  then obtain d where d: "doc = Some d" by (cases doc) auto
  with d1 prune_root_Some [of "(=) sel" d d1] show ?case by fastforce
qed

text \<open>Taking in the style sheets adds no element and leaves the order of the rest.\<close>

lemma take_styles_elements:
  "take_styles J n d = (ds', n', texts) \<Longrightarrow> set (all_elements ds') \<subseteq> set (elements d)"
  "take_styles_list J n ds = (ds', n', texts) \<Longrightarrow> set (all_elements ds') \<subseteq> set (all_elements ds)"
proof (induction J n d and J n ds arbitrary: ds' n' texts and ds' n' texts rule: take_styles_take_styles_list.induct)
  case (3 J n t as ds)
  show ?case
  proof (cases "is_stylesheet t as")
    case True
    obtain e m xs where l: "take_styles_list J (Suc n) ds = (e, m, xs)" by (metis prod_cases3)
    then have "set (all_elements e) \<subseteq> set (all_elements ds)" using 3 True by (cases "js_fetch J n (js_resolve J (attribute ''href'' as))") auto
    then show ?thesis using 3 True l by (auto simp del: set_concat split: option.splits)
  next
    case False
    obtain e m xs where l: "take_styles_list J n ds = (e, m, xs)" by (metis prod_cases3)
    then have "set (all_elements e) \<subseteq> set (all_elements ds)" using 3 False by auto
    then show ?thesis using 3 False l by (auto simp del: set_concat)
  qed
next
  case (5 J n d ds)
  obtain e m xs where d: "take_styles J n d = (e, m, xs)" by (metis prod_cases3)
  obtain f k ys where ds: "take_styles_list J m ds = (f, k, ys)" by (metis prod_cases3)
  have "set (all_elements e) \<subseteq> set (elements d)" using "5.IH"(1) [OF d] .
  moreover have "set (all_elements f) \<subseteq> set (all_elements ds)" using "5.IH"(2) [OF d [symmetric] refl ds] .
  ultimately have "set (all_elements (e @ f)) \<subseteq> set (all_elements (d # ds))"
    by (simp del: set_concat) blast
  moreover have "ds' = e @ f" using "5.prems" d ds by simp
  ultimately show ?case by (simp only: list.map concat.simps)
qed auto

lemma inline_styles_elements:
  assumes "inline_styles J root = Ok (Some d)"
  shows "set (elements d) \<subseteq> insert (''style'', []) (set (elements root))"
proof -
  obtain ds n texts where t: "take_styles J 0 root = (ds, n, texts)" by (metis prod_cases3)
  from assms t obtain e rest where ds: "ds = e # rest" "d = e \<or> (\<exists>css. add_style css e = Some d)"
    by (auto simp: inline_styles_def or_error_def res_bind_Ok_iff split: list.splits if_splits option.splits)
  then show ?thesis using take_styles_elements(1) [OF t] elements_add_style by fastforce
qed

definition bad_tags :: "bytes set" where
  "bad_tags = insert ''img'' (set heavy_selectors)"

definition no_handlers :: "attributes \<Rightarrow> bool" where
  "no_handlers as \<longleftrightarrow> list_all (\<lambda>(n, _). \<not> prefix ''on'' n) as"

lemma no_handlers_drop [simp]: "no_handlers (drop_handlers as)" "no_handlers as \<Longrightarrow> no_handlers (drop_styling as)"
  by (auto simp: no_handlers_def drop_handlers_def drop_styling_def list_all_iff)

lemma images_replaced_Some:
  assumes "images_replaced J doc = Ok (Some d')"
  shows "\<exists>d. doc = Some d \<and> set (elements d') \<subseteq> {(t, as) \<in> set (elements d). t \<noteq> ''img''}"
proof -
  obtain d where "doc = Some d" "d' = replace_images J d"
    using assms by (auto simp: images_replaced_def split: option.splits Dom.splits if_splits)
  then show ?thesis using elements_replace_images by blast
qed

lemma cleaned_elements:
  assumes "cleaned J root = Ok (Some d)" and "(t, as) \<in> set (elements d)"
  shows "t \<notin> bad_tags \<and> no_handlers as"
proof -
  obtain doc d1 where s: "inline_styles J root = Ok doc"
    "images_replaced J (fold (\<lambda>sel. prune_root ((=) sel)) heavy_selectors doc) = Ok (Some d1)" "d = map_attributes drop_handlers d1"
    using assms(1) by (auto simp: cleaned_def res_bind_Ok_iff)
  obtain d2 where d2: "fold (\<lambda>sel. prune_root ((=) sel)) heavy_selectors doc = Some d2"
    "set (elements d1) \<subseteq> {(t, as) \<in> set (elements d2). t \<noteq> ''img''}"
    using images_replaced_Some [OF s(2)] by blast
  obtain d3 where "set (elements d2) \<subseteq> {(t, as) \<in> set (elements d3). t \<notin> set heavy_selectors}"
    using prune_all [OF d2(1)] by blast
  with d2 s(3) assms(2) show ?thesis by (auto simp: elements_map_attributes bad_tags_def)
qed

text \<open>Of the second version: plain, with one style sheet of its own.\<close>

definition no_styling :: "attributes \<Rightarrow> bool" where
  "no_styling as \<longleftrightarrow> list_all (\<lambda>(n, _). n \<notin> {''class'', ''id'', ''style''}) as"

lemma plainer_elements:
  assumes "plainer J d = Ok d'" and "(t, as) \<in> set (elements d')"
  shows "t = ''style'' \<and> as = [] \<or> t \<noteq> ''style'' \<and> (\<exists>as0. (t, as0) \<in> set (elements d) \<and> as = drop_styling as0)"
proof -
  obtain d1 where "prune_root ((=) ''style'') (Some d) = Some d1" "add_style FALLBACK_CSS (map_attributes drop_styling d1) = Some d'"
    using assms(1) by (auto simp: plainer_def or_error_def res_bind_Ok_iff split: option.splits)
  with assms(2) prune_root_Some elements_add_style show ?thesis by (fastforce simp: elements_map_attributes)
qed

section \<open>What a reader sees\<close>

text \<open>The text of a document outside the elements that show none here, an image as its description.\<close>

fun shown_text :: "ScrubEnv \<Rightarrow> Dom \<Rightarrow> bytes" where
  "shown_text J (TextNode s) = s"
| "shown_text J (CommentNode s) = []"
| "shown_text J (ElemNode t as ds) =
     (if t \<in> {''style'', ''link''} \<union> set heavy_selectors then []
      else if t = ''img'' then image_text J as else concat (map (shown_text J) ds))"

abbreviation shown_texts :: "ScrubEnv \<Rightarrow> Dom list \<Rightarrow> bytes" where
  "shown_texts J ds \<equiv> concat (map (shown_text J) ds)"

lemma visibles_concat: "shown_texts J (concat dss) = concat (map (shown_texts J) dss)"
  by (induction dss) simp_all

lemma visible_prune:
  "t \<in> {''style''} \<union> set heavy_selectors \<Longrightarrow> shown_texts J (prune ((=) t) d) = shown_text J d"
  by (induction d) (auto simp: visibles_concat o_def cong: map_cong)

lemma visible_prune_root:
  assumes "prune_root ((=) t) (Some d) = Some d'" and "t \<in> {''style''} \<union> set heavy_selectors"
  shows "shown_text J d' = shown_text J d"
proof -
  have "prune ((=) t) d = [d']"
    using assms(1) by (cases d) (auto simp: prune_root_def split: if_splits)
  then show ?thesis using visible_prune [OF assms(2), of J d] by simp
qed

lemma visible_prune_all:
  assumes "fold (\<lambda>sel. prune_root ((=) sel)) sels (Some d) = Some d'" and "set sels \<subseteq> set heavy_selectors"
  shows "shown_text J d' = shown_text J d"
  using assms
proof (induction sels arbitrary: d)
  case (Cons sel sels)
  show ?case
  proof (cases "prune_root ((=) sel) (Some d)")
    case None
    have "fold (\<lambda>sel. prune_root ((=) sel)) ss None = None" for ss by (induction ss) auto
    with None Cons.prems show ?thesis by simp
  next
    case (Some d1)
    with Cons visible_prune_root [OF Some] show ?thesis by auto
  qed
qed simp

lemma visible_replace_images: "shown_text J (replace_images J d) = shown_text J d"
  by (induction d) (auto simp: o_def heavy_selectors_def cong: map_cong)

lemma visible_map_attributes:
  assumes "\<And>as n. n \<in> {''alt'', ''src''} \<Longrightarrow> map_of (f as) n = map_of as n"
  shows "shown_text J (map_attributes f d) = shown_text J d"
  by (induction d) (auto simp: o_def image_text_def attribute_def assms cong: map_cong)

lemma map_of_filter_fst: "P n \<Longrightarrow> map_of (filter (\<lambda>(k, _). P k) as) n = map_of as n"
  by (induction as) auto

lemma kept_attributes:
  "n \<in> {''alt'', ''src''} \<Longrightarrow> map_of (drop_handlers as) n = map_of as n"
  "n \<in> {''alt'', ''src''} \<Longrightarrow> map_of (drop_styling as) n = map_of as n"
  unfolding drop_handlers_def drop_styling_def by (rule map_of_filter_fst; auto)+

lemma visible_kept:
  "shown_text J (map_attributes drop_handlers d) = shown_text J d" "shown_text J (map_attributes drop_styling d) = shown_text J d"
  by (rule visible_map_attributes, erule kept_attributes)+

lemma visible_append_to_head:
  "append_to_head style ds = Some ds' \<Longrightarrow> shown_text J style = [] \<Longrightarrow> shown_texts J ds' = shown_texts J ds"
  by (induction style ds arbitrary: ds' rule: append_to_head.induct) (auto split: if_splits)

lemma visible_add_style: "add_style css d = Some d' \<Longrightarrow> shown_text J d' = shown_text J d"
  by (cases d) (auto simp: style_element_def split: if_splits dest!: visible_append_to_head)

lemma visible_take_styles:
  "take_styles J n d = (ds', n', texts) \<Longrightarrow> shown_texts J ds' = shown_text J d"
  "take_styles_list J n ds = (ds', n', texts) \<Longrightarrow> shown_texts J ds' = shown_texts J ds"
proof (induction J n d and J n ds arbitrary: ds' n' texts and ds' n' texts rule: take_styles_take_styles_list.induct)
  case (3 J n t as ds)
  show ?case
  proof (cases "is_stylesheet t as")
    case True
    obtain e m xs where l: "take_styles_list J (Suc n) ds = (e, m, xs)" by (metis prod_cases3)
    with 3 True show ?thesis by (auto simp: is_stylesheet_def split: option.splits)
  next
    case False
    obtain e m xs where l: "take_styles_list J n ds = (e, m, xs)" by (metis prod_cases3)
    with 3 False show ?thesis by auto
  qed
next
  case (5 J n d ds)
  obtain e m xs where d: "take_styles J n d = (e, m, xs)" by (metis prod_cases3)
  obtain f k ys where ds: "take_styles_list J m ds = (f, k, ys)" by (metis prod_cases3)
  show ?case using "5.IH"(1) [OF d] "5.IH"(2) [OF d [symmetric] refl ds] "5.prems" d ds by auto
qed auto

lemma visible_cleaned:
  assumes "cleaned J root = Ok (Some d)"
  shows "shown_text J d = shown_text J root"
proof -
  obtain doc d1 where s: "inline_styles J root = Ok doc"
    "images_replaced J (fold (\<lambda>sel. prune_root ((=) sel)) heavy_selectors doc) = Ok (Some d1)" "d = map_attributes drop_handlers d1"
    using assms by (auto simp: cleaned_def res_bind_Ok_iff)
  obtain d2 where d2: "fold (\<lambda>sel. prune_root ((=) sel)) heavy_selectors doc = Some d2" "d1 = replace_images J d2"
    using s(2) by (auto simp: images_replaced_def split: option.splits Dom.splits if_splits)
  obtain d3 where d3: "doc = Some d3" using prune_all [OF d2(1)] by blast
  obtain ds n texts where t: "take_styles J 0 root = (ds, n, texts)" by (metis prod_cases3)
  have "length (fst (take_styles J 0 root)) \<le> 1"
    by (cases root) (auto split: option.split prod.split)
  then obtain e where "ds = [e]" "d3 = e \<or> (\<exists>css. add_style css e = Some d3)"
    using s(1) t d3 by (auto simp: inline_styles_def or_error_def res_bind_Ok_iff split: list.splits if_splits option.splits)
  then have "shown_text J d3 = shown_text J root" using visible_take_styles(1) [OF t] visible_add_style by fastforce
  moreover have "shown_text J d2 = shown_text J d3" using visible_prune_all [of heavy_selectors d3 d2] d2(1) d3 by simp
  ultimately show ?thesis
    using s(3) d2(2) by (simp add: visible_kept visible_replace_images)
qed

lemma visible_plainer:
  assumes "plainer J d = Ok d'"
  shows "shown_text J d' = shown_text J d"
proof -
  obtain d1 where "prune_root ((=) ''style'') (Some d) = Some d1" "add_style FALLBACK_CSS (map_attributes drop_styling d1) = Some d'"
    using assms by (auto simp: plainer_def or_error_def res_bind_Ok_iff split: option.splits)
  then show ?thesis
    using visible_prune_root [of "''style''" d d1 J] visible_add_style [of FALLBACK_CSS _ d' J] by (simp add: visible_kept)
qed

section \<open>The scrubbed page\<close>

lemma scrub_cases:
  assumes "scrub J root = Ok (html, d)"
  shows "\<exists>d0. cleaned J root = Ok (Some d0) \<and> html = js_outer_html J d
    \<and> (if MAX_SIZE < js_length J (js_outer_html J d0) then plainer J d0 = Ok d else d = d0)"
  using assms by (auto simp: scrub_def or_error_def res_bind_Ok_iff Let_def split: option.splits if_splits)


text \<open>A page with a sheet that cannot be read, a script, an image without description and a handler.\<close>

definition sample_scrub :: ScrubEnv where
  "sample_scrub =
     \<lparr>js_fetch = (\<lambda>_ _. None), js_resolve = (\<lambda>u. ''http://h/'' @ u), js_outer_html = (\<lambda>_. ''<html>''), js_length = length,
      js_type_error = ''null''\<rparr>"

definition sample_page :: Dom where
  "sample_page =
     ElemNode ''html'' []
       [ElemNode ''head'' [] [ElemNode ''link'' [(''rel'', ''stylesheet''), (''href'', ''s.css'')] []],
        ElemNode ''body'' [(''onload'', ''f()'')]
          [TextNode ''Hi'', ElemNode ''script'' [] [TextNode ''f()''], ElemNode ''img'' [(''src'', ''a/b.png'')] []]]"


section \<open>Where the script falls short\<close>

text \<open>The second version may be as long as the first: nothing bounds its text.\<close>

lemma plainer_is_not_bounded:
  "plainer J (ElemNode ''html'' [] [ElemNode ''head'' [] [], TextNode s])
     = Ok (ElemNode ''html'' [] [ElemNode ''head'' [] [style_element FALLBACK_CSS], TextNode s])"
  by (simp add: plainer_def prune_root_def or_error_def drop_styling_def)

text \<open>URLs are taken out of a style sheet in one pass: what is left may be a URL again.\<close>

lemma url_survives: "strip_urls ''ururl()l(x)'' = ''url(x)''"
  by code_simp

end
