(* ===== verification/Server_Boot.thy ===== *)
theory Server_Boot
  imports Server_Safety Admission Server_Proxy Page_Scrub
begin

text \<open>
  The server as a whole (\<open>server/src/main.rs\<close>, \<open>server/src/proxy.rs\<close>): its start, up to the accept loop of
  \<open>Admission\<close>, and what then holds of every connection and of every request that a browser of
  the server makes. The network and the operating system at start-up are the record \<open>ServerBoot\<close>.
\<close>

section \<open>Start-up\<close>

text \<open>\<open>start_proxy\<close>: the runtime, the bound port and the thread that accepts for ever.\<close>

record ProxyStart =
  ps_runtime :: "bytes option"
  ps_bind :: "bytes option"
  ps_local_addr :: "(bytes, nat) result"
  ps_thread :: "bytes option"

definition start_proxy :: "ProxyStart \<Rightarrow> (bytes, nat) result" where
  "start_proxy ps =
     (case ps_runtime ps of Some e \<Rightarrow> Err e | None \<Rightarrow>
     (case ps_bind ps of Some e \<Rightarrow> Err e | None \<Rightarrow>
     (case ps_local_addr ps of Inl e \<Rightarrow> Err e | Inr port \<Rightarrow>
     (case ps_thread ps of Some e \<Rightarrow> Err e | None \<Rightarrow> Ok port))))"

text \<open>\<open>sb_updates t\<close> are the refreshes of the blocklist that have ended by the time \<open>t\<close>, after the first one.\<close>

record ServerBoot =
  sb_args :: "bytes list"
  sb_env :: env
  sb_upper :: "bytes \<Rightarrow> bytes"
  sb_lower :: "bytes \<Rightarrow> nat \<Rightarrow> bytes"
  sb_probe :: "nat \<Rightarrow> bool"
  sb_proxy :: ProxyStart
  sb_first_update :: "http_body option list"
  sb_updates :: "nat \<Rightarrow> http_body option list list"
  sb_bind :: "bytes option"

datatype ServerStart = ExitWith nat | BindPanics bytes | ServerUp ServerEnv "nat \<Rightarrow> ProxyEnv" Adm

definition health_check :: "ServerBoot \<Rightarrow> nat" where
  "health_check b = (if sb_probe b (env_or (sb_env b) ''LISTEN_PORT'' parse_u16 63004) then 0 else 1)"

definition blocklist_at :: "ServerBoot \<Rightarrow> Config \<Rightarrow> nat \<Rightarrow> bytes set option" where
  "blocklist_at b cfg t =
     (let bl = init_domain_blocklist None in
      if blocklist_enabled cfg \<and> blocklist_urls cfg \<noteq> [] then
        start_blocklist_manager (length (blocklist_urls cfg)) (sb_first_update b # sb_updates b t) bl
      else bl)"

definition server_main :: "ServerEnv \<Rightarrow> ProxyEnv \<Rightarrow> ServerBoot \<Rightarrow> ServerStart" where
  "server_main E P b =
     (if ''--healthcheck'' \<in> set (sb_args b) then ExitWith (health_check b)
      else
        let cfg = config_from_env (sb_upper b) (sb_lower b) (sb_env b) in
        case start_proxy (sb_proxy b) of
          Inl e \<Rightarrow> ExitWith 1
        | Inr proxy_port \<Rightarrow>
            (case sb_bind b of
               Some e \<Rightarrow> BindPanics e
             | None \<Rightarrow>
                 ServerUp (E\<lparr>sv_config := cfg, sv_proxy_port := set_proxy_port proxy_port None, sv_blocklist := blocklist_at b cfg\<rparr>)
                   (\<lambda>t. P\<lparr>pe_ranges := blocked_ranges cfg, pe_blocklist := blocklist_at b cfg t\<rparr>)
                   adm_init))"

section \<open>Every request of the browser\<close>

text \<open>The proxy serves the requests of all its connections in any order and at any time; each has its tunnel
  run to its end. A run records who was dialled.\<close>

inductive proxy_run :: "(nat \<Rightarrow> ProxyEnv) \<Rightarrow> ProxyWorld \<Rightarrow> ProxyWorld \<Rightarrow> bool" for PE where
  proxy_idle: "proxy_run PE w w"
| proxy_serves: "proxy_run PE w w1 \<Longrightarrow> serve_request (PE t) req upgrade w1 = (resp, w2) \<Longrightarrow> proxy_run PE w w2"

lemma proxy_run_clean:
  assumes "proxy_run PE w w'" and "\<And>t. pe_ranges (PE t) = ranges" and "\<forall>(ip, port)\<in>set (dials w). \<not> ip_is_blocked ip ranges"
  shows "\<forall>(ip, port)\<in>set (dials w'). \<not> ip_is_blocked ip ranges"
  using assms
proof (induction rule: proxy_run.induct)
  case (proxy_serves w w1 t req upgrade resp w2)
  from serve_request_cases [OF proxy_serves.hyps(2)]
  have "dials w2 = dials w1 \<or> (\<exists>ip port. dials w2 = dials w1 @ [(ip, port)] \<and> \<not> ip_is_blocked ip ranges)"
    using pinned_clean(1) proxy_serves.prems(1) unfolding untouched_def reached_def by metis
  with proxy_serves show ?case by auto
qed auto

section \<open>Every browser of a connection\<close>

text \<open>The browser a connection holds, and all it has loaded pages with, are told to use the proxy at \<open>p\<close>.\<close>

definition confined :: "nat \<Rightarrow> Srv \<Rightarrow> bool" where
  "confined p s \<longleftrightarrow> (\<forall>b. brow s = Some b \<longrightarrow> proxied p b) \<and> list_all (proxied p) (used s)"

lemma confined_frame [simp]:
  "confined p (srv_touch s) = confined p s" "confined p (s\<lparr>rd := r\<rparr>) = confined p s" "confined p (s\<lparr>sess := x\<rparr>) = confined p s"
  "confined p (log_access E c u st w s) = confined p s" "confined p (s\<lparr>probes := n\<rparr>) = confined p s"
  by (simp_all add: confined_def srv_touch_def log_access_def)

lemma confined_write: "srv_write bs s = (r, s') \<Longrightarrow> confined p s \<Longrightarrow> confined p s'"
  by (auto simp: srv_write_def confined_def split: prod.splits)

lemma confined_drop: "confined p s \<Longrightarrow> confined p (srv_drop s)"
  by (auto simp: srv_drop_def confined_def split: option.split)

lemma confined_launch:
  assumes "srv_launch E s = (r, s')" and "sv_proxy_port E = Some p" and "confined p s"
  shows "confined p s' \<and> (\<forall>b. r = Ok b \<longrightarrow> proxied p b)"
  using assms by (auto simp: srv_launch_def confined_def split: prod.splits dest!: launched_proxied)

lemma confined_restart:
  assumes "sv_proxy_port E = Some p" and "confined p s"
  shows "confined p (restart E s)"
proof -
  obtain r t where l: "srv_launch E s = (r, t)" by fastforce
  have t: "confined p (srv_drop t)" "\<forall>b. r = Ok b \<longrightarrow> proxied p b"
    using confined_launch [OF l assms] confined_drop by blast+
  have "restart E s = (srv_drop t)\<lparr>brow := (case r of Inr b \<Rightarrow> Some b | Inl e \<Rightarrow> None)\<rparr>" by (simp add: restart_def l)
  with t show ?thesis by (cases r) (simp_all add: confined_def)
qed

lemma confined_load: "load_page E url b s = (r, s') \<Longrightarrow> proxied p b \<Longrightarrow> confined p s \<Longrightarrow> confined p s'"
  by (auto simp: load_page_def confined_def Let_def)

lemma confined_fetch:
  assumes "fetch_loop E url s = Some y" and "sv_proxy_port E = Some p" and "confined p s"
  shows "confined p (snd y)"
proof (rule fetch_loop.raw_induct [where P = "\<lambda>E url s y. sv_proxy_port E = Some p \<longrightarrow> confined p s \<longrightarrow> confined p (snd y)",
      OF _ assms(1), THEN mp, THEN mp, OF _ assms(2,3)], intro impI)
  fix loop E url s and y :: "(FetchFailure, bytes) result \<times> Srv"
  assume IH: "\<And>E url s y. loop E url s = Some y \<Longrightarrow> sv_proxy_port E = Some p \<longrightarrow> confined p s \<longrightarrow> confined p (snd y)"
    and eq: "(case brow s of
        None \<Rightarrow>
          let s = restart E s in
          if brow s = None then Some (Err Unavailable, s) else loop E url s
      | Some b \<Rightarrow>
          (case load_page E url b s of
             (Inr html, s) \<Rightarrow> Some (Ok html, s)
           | (Inl e, s) \<Rightarrow>
               if e = BrowserCrashed then
                 let s = restart E s in
                 if brow s = None then Some (Err Unavailable, s) else loop E url s
               else Some (Err (LoadError e), s))) = Some y"
    and port: "sv_proxy_port E = Some p" and s: "confined p s"
  have again: "confined p (snd y)" if "y = (Err Unavailable, restart E t) \<or> loop E url (restart E t) = Some y" "confined p t" for t
    using that confined_restart [OF port that(2)] IH [of E url "restart E t" y] port by auto
  show "confined p (snd y)"
  proof (cases "brow s")
    case None
    with eq show ?thesis by (intro again [OF _ s]) (auto simp: Let_def split: if_splits)
  next
    case (Some b)
    obtain r t where l: "load_page E url b s = (r, t)" by fastforce
    have t: "confined p t" using confined_load [OF l _ s] s Some by (auto simp: confined_def)
    from eq Some l have "snd y = t \<or> (y = (Err Unavailable, restart E t) \<or> loop E url (restart E t) = Some y)"
      by (auto simp: Let_def split: sum.splits if_splits)
    then show ?thesis using again [of t] t by auto
  qed
qed

lemma confined_response:
  "send_response E resp s = (r, s') \<Longrightarrow> confined p s \<Longrightarrow> confined p s'"
  "send_error_response E msg s = (r, s') \<Longrightarrow> confined p s \<Longrightarrow> confined p s'"
  "send_status_response E st msg s = (r, s') \<Longrightarrow> confined p s \<Longrightarrow> confined p s'"
  by (auto simp: send_error_response_def send_status_response_def send_response_def dest: confined_write)

lemma confined_answer: "answer_page E age url inm html s = (r, s') \<Longrightarrow> confined p s \<Longrightarrow> confined p s'"
  by (auto simp: answer_page_def Let_def split: if_splits sum.splits dest!: confined_response)

lemma confined_request:
  assumes "handle_request E url inm s = Some (r, s')" and "sv_proxy_port E = Some p" and "confined p s"
  shows "confined p s'"
proof (cases "check_url E (srv_now s) url")
  case (Inl e)
  with assms show ?thesis by (auto simp: handle_request_def Let_def split: prod.splits dest!: confined_response)
next
  case (Inr u)
  then obtain f t where f: "fetch_loop E url (s\<lparr>probes := probes s + 1\<rparr>) = Some (f, t)"
    using assms(1) by (auto simp: handle_request_def Let_def split: option.splits)
  have t: "confined p t" using confined_fetch [OF f assms(2)] assms(3) by simp
  show ?thesis
  proof (cases f)
    case (Inr html)
    with assms(1) \<open>check_url E (srv_now s) url = Inr u\<close> f t show ?thesis
      by (auto simp: handle_request_def Let_def intro: confined_answer)
  next
    case (Inl e)
    with assms(1) \<open>check_url E (srv_now s) url = Inr u\<close> f t show ?thesis
      by (cases e) (auto simp: handle_request_def Let_def dest!: confined_response)
  qed
qed

lemma confined_session:
  "session_loop E s = Some s' \<Longrightarrow> sv_proxy_port E = Some p \<Longrightarrow> confined p s \<Longrightarrow> confined p s'"
proof (induction E s rule: session_loop.induct)
  case (1 E s)
  obtain x r where x: "read_request (idle_deadline E s) (rd s) = (x, r)" by fastforce
  consider (eof) "x = Ok None" | (err) e where "x = Err e" | (post) url body where "x = Ok (Some (Post url body))"
    | (get) url inm where "x = Ok (Some (Get url inm))"
    by (metis Request.exhaust not_None_eq sum.exhaust)
  then show ?case
  proof cases
    case eof
    with "1.prems" x show ?thesis by (auto simp: session_loop.simps [of E s])
  next
    case err
    obtain w t where w: "srv_write idle_notice (s\<lparr>rd := r\<rparr>) = (w, t)" by fastforce
    have "confined p t" using confined_write [OF w] "1.prems"(3) by simp
    with "1.prems" x err w show ?thesis by (auto simp: session_loop.simps [of E s] Let_def split: if_splits)
  next
    case post
    obtain w t where w: "send_error_response E ''POST requests are not supported'' (srv_touch (s\<lparr>rd := r\<rparr>)) = (w, t)" by fastforce
    have t: "confined p t" using confined_response(2) [OF w] "1.prems"(3) by simp
    show ?thesis
    proof (cases w)
      case (Inl e)
      with "1.prems" x post w t show ?thesis by (simp add: session_loop.simps [of E s])
    next
      case (Inr u)
      have "session_loop E (srv_touch t) = Some s'" using "1.prems"(1) x post w Inr by (simp add: session_loop.simps [of E s])
      then show ?thesis using "1.IH"(2) [OF x [symmetric] post refl refl w [symmetric] Inr] "1.prems"(2) t by simp
    qed
  next
    case get
    obtain w t where h: "handle_request E url inm (srv_touch (s\<lparr>rd := r\<rparr>)) = Some (w, t)"
      using "1.prems"(1) x get by (auto simp: session_loop.simps [of E s] split: option.splits)
    have t: "confined p t" using confined_request [OF h "1.prems"(2)] "1.prems"(3) by simp
    have "session_loop E (srv_touch t) = Some s'" using "1.prems"(1) x get h by (simp add: session_loop.simps [of E s])
    then show ?thesis using "1.IH"(1) [OF x [symmetric] get refl refl h refl] "1.prems"(2) t by simp
  qed
qed

lemma confined_serve_session:
  assumes "serve_session E call s = Some (r, s')" and "sv_proxy_port E = Some p" and "confined p s"
  shows "confined p s'"
proof -
  let ?s = "log_access E call ''AGREED'' LogAgreed None (s\<lparr>sess := acknowledge (srv_now s) (sess s)\<rparr>)"
  obtain x t where l: "srv_launch E ?s = (x, t)" by fastforce
  have t: "confined p t \<and> (\<forall>b. x = Ok b \<longrightarrow> proxied p b)" using confined_launch [OF l assms(2)] assms(3) by simp
  show ?thesis
  proof (cases x)
    case (Inl e)
    with assms(1) l t show ?thesis by (auto simp: serve_session_def Let_def dest!: confined_response)
  next
    case (Inr b)
    then obtain s2 where s2: "session_loop E (t\<lparr>brow := Some b\<rparr>) = Some s2" "s' = srv_drop s2"
      using assms(1) l by (auto simp: serve_session_def Let_def)
    have "confined p (t\<lparr>brow := Some b\<rparr>)" using t Inr by (simp add: confined_def)
    then show ?thesis using confined_session [OF s2(1) assms(2)] s2(2) confined_drop by simp
  qed
qed

lemma confined_ask_agreement:
  assumes "ask_agreement E dl call s = Some (r, s')" and "sv_proxy_port E = Some p" and "confined p s"
  shows "confined p s'"
proof -
  obtain w t where w: "srv_write agree_prompt (s\<lparr>sess := session_begin (srv_now s) call\<rparr>) = (w, t)" by fastforce
  have t: "confined p t" using confined_write [OF w] assms(3) by simp
  obtain x r2 where x: "preauth_loop (sv_upper E) call dl (rd t) = (x, r2)" by fastforce
  consider "s' = t" | "s' = t\<lparr>rd := r2\<rparr>" | "srv_write (''Acknowledgment required. Goodbye.'' @ [LF]) (t\<lparr>rd := r2\<rparr>) = (r, s')"
    | "serve_session E call (t\<lparr>rd := r2\<rparr>) = Some (r, s')"
    using assms(1) w x by (auto simp: ask_agreement_def Let_def split: sum.splits option.splits if_splits)
  then show ?thesis
    using t by cases (auto dest: confined_write confined_serve_session [OF _ assms(2)])
qed

lemma confined_connection:
  assumes "handle_connection E s = Some (r, s')" and "sv_proxy_port E = Some p" and "confined p s"
  shows "confined p s'"
proof (cases "sv_clone E")
  case (Some e)
  with assms show ?thesis by (simp add: handle_connection_def)
next
  case None
  obtain w t where w: "srv_write login_prompt s = (w, t)" by fastforce
  have t: "confined p t" using confined_write [OF w] assms(3) by simp
  let ?dl = "srv_now t + PRE_AUTH_TIMEOUT_SECS * 1000"
  obtain x r1 where x: "read_bounded_line_until ?dl (rd t) = (x, r1)" by fastforce
  consider "s' = t" | "s' = t\<lparr>rd := r1\<rparr>"
    | "s' = snd (srv_write (''Invalid callsign format. Disconnecting.'' @ [LF]) (t\<lparr>rd := r1\<rparr>))"
    | call where "ask_agreement E ?dl call (t\<lparr>rd := r1\<rparr>) = Some (r, s')"
    using assms(1) None w x by (auto simp: handle_connection_def Let_def split: sum.splits option.splits)
  then show ?thesis
  proof cases
    case 3
    then obtain y where "srv_write (''Invalid callsign format. Disconnecting.'' @ [LF]) (t\<lparr>rd := r1\<rparr>) = (y, s')" by (metis eq_snd_iff)
    then show ?thesis using confined_write t by fastforce
  qed (use t in \<open>auto dest: confined_ask_agreement [OF _ assms(2)]\<close>)
qed

section \<open>The server and its network\<close>

lemma server_main_up:
  assumes "server_main E0 P0 b = ServerUp E PE adm"
  shows "\<exists>p. start_proxy (sb_proxy b) = Ok p \<and> sv_proxy_port E = Some p
    \<and> sv_config E = config_from_env (sb_upper b) (sb_lower b) (sb_env b) \<and> sv_blocklist E = blocklist_at b (sv_config E)
    \<and> (\<forall>t. pe_ranges (PE t) = blocked_ranges (sv_config E) \<and> pe_blocklist (PE t) = sv_blocklist E t) \<and> adm = adm_init"
  using assms by (auto simp: server_main_def set_proxy_port_def Let_def split: if_splits sum.splits option.splits)

text \<open>
  C12: the pages of the server are fetched behind the filter. A server that comes up has a filtering proxy. From then on,
  on every connection, whatever the peer, the browser and the network do and however often the browser crashes
  and is started again: each browser that loads a page is told to send all its plain and TLS requests
  to that proxy, without exceptions; and whatever the browsers ask of the proxy, in any order and at any
  time, it dials no address in a blocked range of the configuration. The URL filter and the
  proxy apply the same blocklist.
\<close>

theorem pages_load_behind_the_filter:
  assumes "server_main E0 P0 b = ServerUp E PE adm"
  shows "\<exists>p. start_proxy (sb_proxy b) = Ok p
     \<and> (\<forall>s r s'. handle_connection E s = Some (r, s') \<and> brow s = None \<and> used s = [] \<longrightarrow> list_all (proxied p) (used s'))
     \<and> (\<forall>w w'. proxy_run PE w w' \<and> dials w = [] \<longrightarrow> (\<forall>(ip, port)\<in>set (dials w'). \<not> ip_is_blocked ip (blocked_ranges (sv_config E))))
     \<and> (\<forall>t. pe_blocklist (PE t) = sv_blocklist E t)"
proof -
  obtain p where p: "start_proxy (sb_proxy b) = Ok p" "sv_proxy_port E = Some p"
    "\<And>t. pe_ranges (PE t) = blocked_ranges (sv_config E)" "\<And>t. pe_blocklist (PE t) = sv_blocklist E t"
    using server_main_up [OF assms] by blast
  have "list_all (proxied p) (used s')" if "handle_connection E s = Some (r, s')" "brow s = None" "used s = []" for s r s'
    using confined_connection [OF that(1) p(2)] that(2,3) by (simp add: confined_def)
  moreover have "\<forall>(ip, port)\<in>set (dials w'). \<not> ip_is_blocked ip (blocked_ranges (sv_config E))"
    if "proxy_run PE w w'" "dials w = []" for w w'
    using proxy_run_clean [OF that(1) p(3)] that(2) by simp
  ultimately show ?thesis using p by blast
qed

text \<open>A start with the default configuration.\<close>

definition example_boot :: ServerBoot where
  "example_boot =
     \<lparr>sb_args = [''packet-browser-server''], sb_env = Map.empty, sb_upper = (\<lambda>c. c), sb_lower = (\<lambda>s _. s), sb_probe = (\<lambda>_. False),
      sb_proxy = \<lparr>ps_runtime = None, ps_bind = None, ps_local_addr = Ok 8118, ps_thread = None\<rparr>,
      sb_first_update = [], sb_updates = (\<lambda>_. []), sb_bind = None\<rparr>"

theorem pages_load_behind_the_filter_witness:
  "\<exists>E PE. server_main example_env rebinding_net example_boot = ServerUp E PE adm_init
     \<and> (\<forall>s r s'. handle_connection E s = Some (r, s') \<and> brow s = None \<and> used s = [] \<longrightarrow> list_all (proxied 8118) (used s'))"
proof -
  have start: "start_proxy (sb_proxy example_boot) = Ok 8118" by (simp add: start_proxy_def example_boot_def)
  obtain E PE where up: "server_main example_env rebinding_net example_boot = ServerUp E PE adm_init"
    using start by (auto simp: server_main_def example_boot_def Let_def)
  then show ?thesis using pages_load_behind_the_filter [OF up] start by auto
qed

section \<open>The blocklist from the first connection on\<close>

text \<open>The first lists are loaded before the server listens: until a refresh has ended, exactly the domains
  of the lists are blocked, when all of them could be fetched.\<close>

lemma first_blocklist_in_force:
  assumes "server_main E0 P0 b = ServerUp E PE adm" and "blocklist_enabled (sv_config E)" "blocklist_urls (sv_config E) \<noteq> []"
    and "collect_domains {} (sb_first_update b) = Ok ds" and "sb_updates b t = []"
  shows "is_domain_blocked (sv_blocklist E t) host \<longleftrightarrow> to_ascii_lowercase host \<in> ds"
  using server_main_up [OF assms(1)] assms(2-5)
  by (auto simp: blocklist_at_def start_blocklist_manager_def init_domain_blocklist_def update_blocklist_def is_domain_blocked_def)

end
