(* ===== verification/Vara.thy ===== *)
theory Vara
  imports Manager
begin

text \<open>
  The VARA modem (\<open>client/src/transport/vara/codec.rs\<close> and \<open>transport.rs\<close>): the command-port
  vocabulary and the second implementation of the transport trait. A VARA modem has two TCP
  ports, one for commands and their answers in lines, one for the bytes of the link.

  \<open>tokio::select!\<close> takes a random branch when several are ready; \<open>coins\<close> is the script of those
  choices, and every theorem quantifies over it. A command port counts as readable when something
  has arrived; the spurious wake-ups that the readiness of a socket may give only cost time.

  The theory ends with the table \<open>vara_transport\<close> and the interpretation of the transport contract on
  it, so everything proved about the session driver and the manager over a draining transport holds for
  VARA as well.
\<close>

section \<open>The command vocabulary\<close>

datatype VaraResponse =
    VrOk
  | VrPending
  | VrConnected (vr_local: bytes) (vr_remote: bytes)
  | VrDisconnected
  | VrBusyDetected
  | VrLinkRegistered
  | VrBuffer nat
  | VrMissing bytes
  | VrUnknown bytes

definition is_eol :: "byte \<Rightarrow> bool" where
  "is_eol c \<longleftrightarrow> c = CR \<or> c = LF"

definition parse_connected :: "bytes \<Rightarrow> VaraResponse option" where
  "parse_connected s =
     (case strip_prefix ''CONNECTED '' s of
        None \<Rightarrow> None
      | Some rest \<Rightarrow>
          (case split_whitespace rest of
             lcl # rmt # _ \<Rightarrow> Some (VrConnected lcl rmt)
           | _ \<Rightarrow> None))"

definition parse_buffer :: "bytes \<Rightarrow> VaraResponse option" where
  "parse_buffer s =
     (case strip_prefix ''BUFFER '' s of
        None \<Rightarrow> None
      | Some rest \<Rightarrow> map_option VrBuffer (parse_u32 (trim rest)))"

definition parse_line :: "bytes \<Rightarrow> VaraResponse" where
  "parse_line raw =
     (let s = trim_end_matches is_eol raw in
      if s = ''OK'' then VrOk
      else if s = ''PENDING'' then VrPending
      else if s = ''DISCONNECTED'' then VrDisconnected
      else if s = ''BUSY DETECTED'' then VrBusyDetected
      else if s = ''LINK REGISTERED'' then VrLinkRegistered
      else (case parse_connected s of
              Some r \<Rightarrow> r
            | None \<Rightarrow>
                (case parse_buffer s of
                   Some r \<Rightarrow> r
                 | None \<Rightarrow>
                     (case strip_prefix ''MISSING '' s of
                        Some rest \<Rightarrow> VrMissing (trim rest)
                      | None \<Rightarrow> VrUnknown s))))"

fun bandwidth_wire_command :: "VaraBandwidth \<Rightarrow> bytes" where
  "bandwidth_wire_command VNarrow = ''VNARROW''"
| "bandwidth_wire_command VWide = ''VWIDE''"
| "bandwidth_wire_command Bw250 = ''BW250''"
| "bandwidth_wire_command Bw500 = ''BW500''"
| "bandwidth_wire_command Bw2300 = ''BW2300''"
| "bandwidth_wire_command Bw2750 = ''BW2750''"

definition setup_commands :: "bytes \<Rightarrow> VaraMode \<Rightarrow> VaraBandwidth \<Rightarrow> bytes list" where
  "setup_commands call md bw =
     [''MYCALL '' @ call, ''LISTEN OFF'', ''COMPRESSION OFF'', bandwidth_wire_command bw]"

text \<open>The derived \<open>Debug\<close> text of a response.\<close>

fun vara_response_debug :: "Unicode \<Rightarrow> VaraResponse \<Rightarrow> bytes" where
  "vara_response_debug U VrOk = ''Ok''"
| "vara_response_debug U VrPending = ''Pending''"
| "vara_response_debug U (VrConnected l r) =
     ''Connected { local: '' @ str_debug U l @ '', remote: '' @ str_debug U r @ '' }''"
| "vara_response_debug U VrDisconnected = ''Disconnected''"
| "vara_response_debug U VrBusyDetected = ''BusyDetected''"
| "vara_response_debug U VrLinkRegistered = ''LinkRegistered''"
| "vara_response_debug U (VrBuffer n) = ''Buffer('' @ nat_to_string n @ '')''"
| "vara_response_debug U (VrMissing m) = ''Missing('' @ str_debug U m @ '')''"
| "vara_response_debug U (VrUnknown m) = ''Unknown('' @ str_debug U m @ '')''"

section \<open>State\<close>

definition OK_TIMEOUT_SECS :: nat where "OK_TIMEOUT_SECS = 5"

record VaraTransport =
  cmd_stream :: "Tcp option"
  data_stream :: "Tcp option"
  cmd_line_buf :: bytes
  coins :: "bool list"
  vara_dials :: "(nat \<times> (bytes, Tcp) result) list"

type_synonym vsys = "VaraTransport Sys"

definition vara_new :: "bool list \<Rightarrow> (nat \<times> (bytes, Tcp) result) list \<Rightarrow> VaraTransport" where
  "vara_new cs ds =
     \<lparr>cmd_stream = None, data_stream = None, cmd_line_buf = [], coins = cs, vara_dials = ds\<rparr>"

definition vara_dial :: "VaraTransport \<Rightarrow> nat \<Rightarrow> (bytes, Tcp) result \<times> VaraTransport \<times> nat" where
  "vara_dial t now =
     (case vara_dials t of
        [] \<Rightarrow> (Err ''Connection refused'', t, now)
      | (d, r) # ds \<Rightarrow> (r, t\<lparr>vara_dials := ds\<rparr>, now + d))"

section \<open>The command port\<close>

text \<open>Two writes, the line and its carriage return; either may fail.\<close>

definition send_cmd :: "bytes \<Rightarrow> VaraTransport \<Rightarrow> (TransportError, unit) result \<times> VaraTransport" where
  "send_cmd line t =
     (case cmd_stream t of
        None \<Rightarrow> (Err TeNotConnected, t)
      | Some st \<Rightarrow>
          (case tcp_write line st of
             (Inl e, st) \<Rightarrow> (Err (TeIo e), t\<lparr>cmd_stream := Some st\<rparr>)
           | (Inr _, st) \<Rightarrow>
               (case tcp_write [CR] st of
                  (Inl e, st) \<Rightarrow> (Err (TeIo e), t\<lparr>cmd_stream := Some st\<rparr>)
                | (Inr _, st) \<Rightarrow> (Ok (), t\<lparr>cmd_stream := Some st\<rparr>))))"

text \<open>A complete line in the buffer, and what is left behind it.\<close>

definition take_line :: "bytes \<Rightarrow> (bytes \<times> bytes) option" where
  "take_line buf =
     (case position is_eol buf of
        None \<Rightarrow> None
      | Some pos \<Rightarrow>
          let rest = drop (pos + 1) buf in
          Some (trim_end_matches is_eol (take (pos + 1) buf),
                if rest \<noteq> [] \<and> hd rest = LF then tl rest else rest))"

function read_cmd_line ::
  "nat \<Rightarrow> VaraTransport \<Rightarrow> nat \<Rightarrow> (TransportError, bytes) result \<times> VaraTransport \<times> nat" where
  "read_cmd_line deadline t now =
     (case take_line (cmd_line_buf t) of
        Some (line, rest) \<Rightarrow> (Ok line, t\<lparr>cmd_line_buf := rest\<rparr>, now)
      | None \<Rightarrow>
          if deadline \<le> now then (Err TeTimeout, t, now)
          else
            (case cmd_stream t of
               None \<Rightarrow> (Err TeNotConnected, t, now)
             | Some st \<Rightarrow>
                 (case tcp_read 512 (now + 500) st now of
                    (ReadTimeout, st, now) \<Rightarrow> (Err TeTimeout, t\<lparr>cmd_stream := Some st\<rparr>, now)
                  | (ReadFailed e, st, now) \<Rightarrow> (Err (TeIo e), t\<lparr>cmd_stream := Some st\<rparr>, now)
                  | (ReadClosed, st, now) \<Rightarrow> (Err TeNotConnected, t\<lparr>cmd_stream := Some st\<rparr>, now)
                  | (ReadData bs, st, now) \<Rightarrow>
                      read_cmd_line deadline
                        (t\<lparr>cmd_stream := Some st, cmd_line_buf := cmd_line_buf t @ from_utf8_lossy bs\<rparr>) now)))"
  by pat_completeness auto
termination
  by (relation "measure (\<lambda>(deadline, t, now). case cmd_stream t of Some st \<Rightarrow> tcp_size st | None \<Rightarrow> 0)")
    (auto dest!: sym [of _ "tcp_read _ _ _ _"] tcp_read_less)

declare read_cmd_line.simps [simp del]

definition await_ok :: "Unicode \<Rightarrow> VaraTransport \<Rightarrow> nat \<Rightarrow> (TransportError, unit) result \<times> VaraTransport \<times> nat" where
  "await_ok U t now =
     (case read_cmd_line (now + OK_TIMEOUT_SECS * 1000) t now of
        (Inl e, t, now) \<Rightarrow> (Err e, t, now)
      | (Inr line, t, now) \<Rightarrow>
          ((case parse_line line of
              VrOk \<Rightarrow> Ok ()
            | VrMissing field \<Rightarrow> Err (TeModemError (''MISSING '' @ field))
            | other \<Rightarrow> Err (TeModemError (''expected OK, got '' @ vara_response_debug U other))), t, now))"

text \<open>What the command port can still deliver, and what a read of a line leaves alone.\<close>

definition cmd_size :: "VaraTransport \<Rightarrow> nat" where
  "cmd_size t = (case cmd_stream t of Some st \<Rightarrow> tcp_size st | None \<Rightarrow> 0)"

lemma take_line_shorter: "take_line buf = Some (line, rest) \<Longrightarrow> length rest < length buf"
  by (auto simp: take_line_def Let_def dest: position_SomeD split: option.splits if_splits)

lemma read_cmd_line_frame:
  "read_cmd_line dl t now = (r, t', now') \<Longrightarrow>
     now \<le> now' \<and> data_stream t' = data_stream t \<and> coins t' = coins t \<and> vara_dials t' = vara_dials t
     \<and> (cmd_stream t' = None \<longleftrightarrow> cmd_stream t = None) \<and> cmd_size t' \<le> cmd_size t"
proof (induction dl t now rule: read_cmd_line.induct)
  case (1 dl t now)
  show ?case
  proof (cases "take_line (cmd_line_buf t) = None \<and> \<not> dl \<le> now \<and> cmd_stream t \<noteq> None")
    case False
    with "1.prems" show ?thesis
      by (auto simp: read_cmd_line.simps [of dl t now] cmd_size_def split: option.splits if_splits)
  next
    case True
    then obtain st where st: "cmd_stream t = Some st" and c: "take_line (cmd_line_buf t) = None" "\<not> dl \<le> now" by blast
    obtain x st1 now1 where rd: "tcp_read 512 (now + 500) st now = (x, st1, now1)" by (metis surj_pair)
    note eff = tcp_read_clock [OF rd] tcp_read_size [OF rd]
    note unf = "1.prems" [unfolded read_cmd_line.simps [of dl t now] c(1) st option.case if_not_P [OF c(2)] rd prod.case]
    show ?thesis
    proof (cases x)
      case (ReadData bs)
      from "1.IH" [OF c st rd [symmetric] ReadData refl] unf ReadData eff st show ?thesis
        by (auto simp: cmd_size_def)
    qed (use unf eff st in \<open>auto simp: cmd_size_def\<close>)
  qed
qed

text \<open>The instant at which a stream has something to read, if that is now or within the 100 ms
  that \<open>select!\<close> sleeps.\<close>

definition ready_at :: "nat \<Rightarrow> Tcp \<Rightarrow> nat option" where
  "ready_at now st =
     (case rx st of
        [] \<Rightarrow> None
      | (at, _) # _ \<Rightarrow> if now < at \<and> now + 100 \<le> at then None else Some (max now at))"

definition shrinks :: "VaraTransport \<Rightarrow> VaraTransport \<Rightarrow> bool" where
  "shrinks t t' \<longleftrightarrow>
     cmd_size t' < cmd_size t \<or> cmd_size t' = cmd_size t \<and> length (cmd_line_buf t') < length (cmd_line_buf t)"

text \<open>A line costs something: bytes of the port or of the buffer. So does a time-out when something
  was there to be read.\<close>

lemma read_cmd_line_shrinks:
  assumes "read_cmd_line dl t now = (r, t', now')"
    and "(\<exists>line. r = Ok line)
      \<or> r = Err TeTimeout \<and> now < dl \<and> (\<exists>st k. cmd_stream t = Some st \<and> ready_at k st = Some now)"
  shows "shrinks t t'"
proof (cases "take_line (cmd_line_buf t)")
  case (Some lr)
  with assms(1) show ?thesis
    by (cases lr) (auto simp: read_cmd_line.simps [of dl t now] shrinks_def cmd_size_def dest: take_line_shorter)
next
  case None
  with assms obtain st where st: "cmd_stream t = Some st" "\<not> dl \<le> now"
    by (auto simp: read_cmd_line.simps [of dl t now] split: if_splits option.splits)
  obtain x st1 now1 where rd: "tcp_read 512 (now + 500) st now = (x, st1, now1)" by (metis surj_pair)
  have "ready_at k st = Some now \<Longrightarrow> x \<noteq> ReadTimeout" for k
    using rd by (auto simp: tcp_read.simps ready_at_def split: list.splits if_splits rx_event.splits)
  with assms None rd st obtain bs where x: "x = ReadData bs"
    by (cases x) (auto simp: read_cmd_line.simps [of dl t now])
  let ?t = "t\<lparr>cmd_stream := Some st1, cmd_line_buf := cmd_line_buf t @ from_utf8_lossy bs\<rparr>"
  have "read_cmd_line dl ?t now1 = (r, t', now')"
    using assms None rd x st by (simp add: read_cmd_line.simps [of dl t now])
  from read_cmd_line_frame [OF this] tcp_read_less [OF rd [unfolded x]] st(1) show ?thesis
    by (simp add: cmd_size_def shrinks_def)
qed

section \<open>The operations\<close>

definition vara_on ::
  "(VaraTransport \<Rightarrow> nat \<Rightarrow> 'r \<times> VaraTransport \<times> nat) \<Rightarrow> vsys \<Rightarrow> 'r \<times> vsys" where
  "vara_on f s = (let (r, t, now) = f (transport s) (clock s) in (r, s\<lparr>transport := t, clock := now\<rparr>))"

fun run_setup ::
  "Unicode \<Rightarrow> bytes list \<Rightarrow> VaraTransport \<Rightarrow> nat \<Rightarrow> (TransportError, unit) result \<times> VaraTransport \<times> nat" where
  "run_setup U [] t now = (Ok (), t, now)"
| "run_setup U (line # lines) t now =
     (case send_cmd line t of
        (Inl e, t) \<Rightarrow> (Err e, t, now)
      | (Inr _, t) \<Rightarrow>
          (case await_ok U t now of
             (Inl e, t, now) \<Rightarrow> (Err e, t, now)
           | (Inr _, t, now) \<Rightarrow> run_setup U lines t now))"

definition vara_connect ::
  "Unicode \<Rightarrow> TransportConfig \<Rightarrow> VaraTransport \<Rightarrow> nat \<Rightarrow> (TransportError, unit) result \<times> VaraTransport \<times> nat" where
  "vara_connect U cfg t now =
     (if kind cfg \<notin> {VaraFm, VaraHf} then
        (Err (TeModemError ''VaraTransport called with non-VARA TransportKind''), t, now)
      else (case vara_dial t now of
              (Inl e, t, now) \<Rightarrow> (Err (TeIo e), t, now)
            | (Inr c, t, now) \<Rightarrow>
                (case vara_dial t now of
                   (Inl e, t, now) \<Rightarrow> (Err (TeIo e), t, now)
                 | (Inr d, t, now) \<Rightarrow>
                     run_setup U
                       (setup_commands (tc_local_callsign cfg) (mode (vara_params cfg)) (bandwidth (vara_params cfg)))
                       (t\<lparr>cmd_stream := Some c, data_stream := Some d\<rparr>) now)))"

definition vara_disconnect :: "VaraTransport \<Rightarrow> nat \<Rightarrow> (TransportError, unit) result \<times> VaraTransport \<times> nat" where
  "vara_disconnect t now = (Ok (), t\<lparr>cmd_stream := None, data_stream := None, cmd_line_buf := []\<rparr>, now)"

text \<open>The loop that waits for the answer to \<open>CONNECT\<close>.\<close>

function await_connected ::
  "Unicode \<Rightarrow> nat \<Rightarrow> VaraTransport \<Rightarrow> nat \<Rightarrow> (TransportError, unit) result \<times> VaraTransport \<times> nat" where
  "await_connected U deadline t now =
     (case read_cmd_line deadline t now of
        (Inl e, t, now) \<Rightarrow> (Err e, t, now)
      | (Inr line, t, now) \<Rightarrow>
          (case parse_line line of
             VrPending \<Rightarrow> await_connected U deadline t now
           | VrConnected _ _ \<Rightarrow> (Ok (), t, now)
           | VrDisconnected \<Rightarrow> (Err (TeSessionRejected ''vara: link dropped during CONNECT''), t, now)
           | VrBusyDetected \<Rightarrow> (Err (TeSessionRejected ''channel busy''), t, now)
           | VrUnknown _ \<Rightarrow> await_connected U deadline t now
           | other \<Rightarrow>
               (Err (TeModemError (''unexpected during CONNECT: '' @ vara_response_debug U other)), t, now)))"
  by pat_completeness auto
termination
  by (relation "measures [\<lambda>(U, deadline, t, now). cmd_size t, \<lambda>(U, deadline, t, now). length (cmd_line_buf t)]")
    (auto dest!: sym [of _ "read_cmd_line _ _ _"] read_cmd_line_shrinks simp: shrinks_def)

declare await_connected.simps [simp del]

definition vara_open ::
  "Unicode \<Rightarrow> SessionConfig \<Rightarrow> VaraTransport \<Rightarrow> nat \<Rightarrow> (TransportError, unit) result \<times> VaraTransport \<times> nat" where
  "vara_open U cfg t now =
     (case send_cmd (''MYCALL '' @ sc_local_callsign cfg) t of
        (Inl e, t) \<Rightarrow> (Err e, t, now)
      | (Inr _, t) \<Rightarrow>
          (case await_ok U t now of
             (Inl e, t, now) \<Rightarrow> (Err e, t, now)
           | (Inr _, t, now) \<Rightarrow>
               (case send_cmd (''CONNECT '' @ sc_local_callsign cfg @ '' '' @ sc_remote_callsign cfg) t of
                  (Inl e, t) \<Rightarrow> (Err e, t, now)
                | (Inr _, t) \<Rightarrow> await_connected U (now + 60 * 1000) t now)))"

fun close_loop ::
  "nat \<Rightarrow> nat \<Rightarrow> VaraTransport \<Rightarrow> nat \<Rightarrow> (TransportError, unit) result \<times> VaraTransport \<times> nat" where
  "close_loop 0 deadline t now = (Ok (), t, now)"
| "close_loop (Suc remaining) deadline t now =
     (case read_cmd_line deadline t now of
        (Inr line, t, now) \<Rightarrow>
          if parse_line line = VrDisconnected then (Ok (), t, now) else close_loop remaining deadline t now
      | (Inl e, t, now) \<Rightarrow> ((if e = TeTimeout then Ok () else Err e), t, now))"

definition vara_close :: "VaraTransport \<Rightarrow> nat \<Rightarrow> (TransportError, unit) result \<times> VaraTransport \<times> nat" where
  "vara_close t now =
     (case send_cmd ''DISCONNECT'' t of
        (Inl e, t) \<Rightarrow> (Err e, t, now)
      | (Inr _, t) \<Rightarrow> close_loop 64 (now + 3 * 1000) t now)"

definition vara_send :: "bytes \<Rightarrow> VaraTransport \<Rightarrow> (TransportError, unit) result \<times> VaraTransport" where
  "vara_send d t =
     (case data_stream t of
        None \<Rightarrow> (Err TeNotConnected, t)
      | Some st \<Rightarrow> (let (r, st) = tcp_write d st in (map_err TeIo r, t\<lparr>data_stream := Some st\<rparr>)))"

text \<open>Which branch of \<open>select!\<close> runs, and when.\<close>

datatype Branch = ReadDataPort nat "bool list" | ReadCmdPort nat "bool list" | Slept

definition select_branch :: "nat \<Rightarrow> Tcp \<Rightarrow> Tcp \<Rightarrow> bool list \<Rightarrow> Branch" where
  "select_branch now d c cs =
     (case (ready_at now d, ready_at now c) of
        (None, None) \<Rightarrow> Slept
      | (Some a, None) \<Rightarrow> ReadDataPort a cs
      | (None, Some b) \<Rightarrow> ReadCmdPort b cs
      | (Some a, Some b) \<Rightarrow>
          if a < b then ReadDataPort a cs
          else if b < a then ReadCmdPort b cs
          else (case cs of
                  [] \<Rightarrow> ReadDataPort a []
                | coin # cs \<Rightarrow> if coin then ReadDataPort a cs else ReadCmdPort b cs))"

text \<open>A data port that \<open>select!\<close> found readable does not time out; the last case of the read is not
  reached.\<close>

definition read_data_port ::
  "Tcp \<Rightarrow> VaraTransport \<Rightarrow> nat \<Rightarrow> (TransportError, TransportEvent) result \<times> VaraTransport \<times> nat" where
  "read_data_port d t now =
     (case tcp_read 4096 (now + 1) d now of
        (ReadData bs, d, now) \<Rightarrow> (Ok (Data bs), t\<lparr>data_stream := Some d\<rparr>, now)
      | (ReadClosed, d, now) \<Rightarrow> (Ok (Disconnected ''data port closed''), t\<lparr>data_stream := Some d\<rparr>, now)
      | (ReadFailed e, d, now) \<Rightarrow> (Err (TeIo e), t\<lparr>data_stream := Some d\<rparr>, now)
      | (ReadTimeout, d, now) \<Rightarrow> (Err TeTimeout, t, now))"

lemma select_cmd_ready: "select_branch now d c cs = ReadCmdPort b cs' \<Longrightarrow> ready_at now c = Some b"
  by (auto simp: select_branch_def split: option.splits if_splits list.splits)

function vara_recv ::
  "nat \<Rightarrow> VaraTransport \<Rightarrow> nat \<Rightarrow> (TransportError, TransportEvent) result \<times> VaraTransport \<times> nat" where
  "vara_recv deadline t now =
     (if deadline \<le> now then (Err TeTimeout, t, now)
      else
        (case data_stream t of
           None \<Rightarrow> (Err TeNotConnected, t, now)
         | Some d \<Rightarrow>
             (case cmd_stream t of
                None \<Rightarrow> (Err TeNotConnected, t, now)
              | Some c \<Rightarrow>
                  (case select_branch now d c (coins t) of
                     ReadDataPort at cs \<Rightarrow> read_data_port d (t\<lparr>coins := cs\<rparr>) at
                   | ReadCmdPort at cs \<Rightarrow>
                       (case read_cmd_line (at + 100) (t\<lparr>coins := cs\<rparr>) at of
                          (Inr line, t, now) \<Rightarrow>
                            if parse_line line = VrDisconnected then
                              (Ok (Disconnected ''vara modem reports disconnect''), t, now)
                            else vara_recv deadline t now
                        | (Inl e, t, now) \<Rightarrow>
                            if e = TeTimeout then vara_recv deadline t now else (Err e, t, now))
                   | Slept \<Rightarrow> vara_recv deadline t (now + 100)))))"
  by pat_completeness auto
termination
proof (relation "measures [\<lambda>(deadline, t, now). cmd_size t, \<lambda>(deadline, t, now). length (cmd_line_buf t),
    \<lambda>(deadline, t, now). deadline - now]", goal_cases)
  case 1
  show ?case by simp
next
  case (2 deadline t now d c at cs x y e t1 now1)
  then have "read_cmd_line (at + 100) (t\<lparr>coins := cs\<rparr>) at = (Err TeTimeout, t1, now1)" by simp
  from read_cmd_line_shrinks [OF this] 2 select_cmd_ready show ?case by (fastforce simp: shrinks_def cmd_size_def)
next
  case (3 deadline t now d c at cs x y line t1 now1)
  then have "read_cmd_line (at + 100) (t\<lparr>coins := cs\<rparr>) at = (Ok line, t1, now1)" by simp
  from read_cmd_line_shrinks [OF this] show ?case by (auto simp: shrinks_def cmd_size_def)
next
  case (4 deadline t now d c)
  then show ?case by (auto simp: cmd_size_def)
qed

declare vara_recv.simps [simp del]

definition vara_transport :: "Unicode \<Rightarrow> VaraTransport Transport" where
  "vara_transport U =
     \<lparr>t_recv = vara_recv, t_send = vara_send, t_connect_modem = (\<lambda>cfg. vara_on (vara_connect U cfg)),
      t_disconnect_modem = vara_on vara_disconnect, t_open_session = (\<lambda>cfg. vara_on (vara_open U cfg)),
      t_close_session = vara_on vara_close, t_port_query_supported = False,
      t_open_ax25_link = default_op, t_reopen_modem_connection = default_op, t_query_ports = default_op\<rparr>"

section \<open>The contract\<close>

text \<open>The bytes that a port still has, up to the end of file.\<close>

fun rx_bytes :: "(nat \<times> rx_event) list \<Rightarrow> bytes" where
  "rx_bytes ((_, RxBytes bs) # r) = (if bs = [] then [] else bs @ rx_bytes r)"
| "rx_bytes ((_, RxErr e) # r) = rx_bytes r"
| "rx_bytes _ = []"

lemma tcp_read_rx_bytes:
  "tcp_read cap dl st now = (ReadData bs, st', now') \<Longrightarrow> rx_bytes (rx st) = bs @ rx_bytes (rx st')"
  by (auto simp: tcp_read.simps split: list.splits if_splits rx_event.splits)

definition data_bytes :: "VaraTransport \<Rightarrow> bytes" where
  "data_bytes t = (case data_stream t of Some d \<Rightarrow> rx_bytes (rx d) | None \<Rightarrow> [])"

definition vara_rank :: "VaraTransport \<Rightarrow> nat" where
  "vara_rank t = (case data_stream t of Some d \<Rightarrow> tcp_size d | None \<Rightarrow> 0)"

text \<open>One receive: time passes, and the data port gives exactly the bytes of the event.\<close>

lemma vara_recv_effect:
  "vara_recv dl t now = (r, t', now') \<Longrightarrow>
     now \<le> now' \<and> (case r of
        Inr (Data bs) \<Rightarrow> data_bytes t = bs @ data_bytes t' \<and> bs \<noteq> [] \<and> vara_rank t' < vara_rank t
      | _ \<Rightarrow> data_bytes t' = data_bytes t)"
proof (induction dl t now rule: vara_recv.induct)
  case (1 dl t now)
  show ?case
  proof (cases "dl \<le> now \<or> data_stream t = None \<or> cmd_stream t = None")
    case True
    with "1.prems" show ?thesis by (auto simp: vara_recv.simps [of dl t now] split: option.splits if_splits)
  next
    case False
    then obtain d c where c: "\<not> dl \<le> now" "data_stream t = Some d" "cmd_stream t = Some c" by auto
    note unf = "1.prems" [unfolded vara_recv.simps [of dl t now] if_not_P [OF c(1)] c(2,3) option.case]
    show ?thesis
    proof (cases "select_branch now d c (coins t)")
      case Slept
      with "1.IH"(3) [OF c] unf show ?thesis by auto
    next
      case (ReadDataPort at cs)
      have at: "now \<le> at" "x = ReadTimeout \<Longrightarrow> tcp_read 4096 (at + 1) d at \<noteq> (x, y)" for x y
        using ReadDataPort
        by (auto simp: select_branch_def ready_at_def tcp_read.simps split: option.splits if_splits list.splits rx_event.splits)
      obtain x d1 now1 where rd: "tcp_read 4096 (at + 1) d at = (x, d1, now1)" by (metis surj_pair)
      note eff = tcp_read_clock [OF rd]
      show ?thesis
      proof (cases x)
        case (ReadData bs)
        with unf ReadDataPort rd have "r = Ok (Data bs)" "t' = t\<lparr>coins := cs, data_stream := Some d1\<rparr>" "now' = now1"
          by (auto simp: read_data_port_def)
        with tcp_read_rx_bytes [OF rd [unfolded ReadData]] tcp_read_data(2) [OF rd [unfolded ReadData]]
          tcp_read_less [OF rd [unfolded ReadData]] eff at c(2)
        show ?thesis by (simp add: data_bytes_def vara_rank_def)
      next
        case ReadClosed
        then have "rx d1 = rx d" using rd by (auto simp: tcp_read.simps split: list.splits if_splits rx_event.splits)
        with unf ReadDataPort rd ReadClosed eff at c(2) show ?thesis by (auto simp: read_data_port_def data_bytes_def)
      next
        case (ReadFailed e)
        then have "rx_bytes (rx d1) = rx_bytes (rx d)"
          using rd by (auto simp: tcp_read.simps split: list.splits if_splits rx_event.splits)
        with ReadFailed unf ReadDataPort rd eff at c(2) show ?thesis by (auto simp: read_data_port_def data_bytes_def)
      next
        case ReadTimeout
        with at(2) rd show ?thesis by blast
      qed
    next
      case (ReadCmdPort at cs)
      have at: "now \<le> at"
        using select_cmd_ready [OF ReadCmdPort] by (auto simp: ready_at_def split: list.splits if_splits)
      obtain x t1 now1 where rd: "read_cmd_line (at + 100) (t\<lparr>coins := cs\<rparr>) at = (x, t1, now1)" by (metis surj_pair)
      have same: "data_bytes t1 = data_bytes t" "vara_rank t1 = vara_rank t" "at \<le> now1"
        using read_cmd_line_frame [OF rd] by (auto simp: data_bytes_def vara_rank_def)
      show ?thesis
      proof (cases "(\<exists>line. x = Ok line \<and> parse_line line \<noteq> VrDisconnected) \<or> x = Err TeTimeout")
        case True
        then have "vara_recv dl t1 now1 = (r, t', now')" using unf ReadCmdPort rd by auto
        then have "now1 \<le> now' \<and> (case r of
            Inr (Data bs) \<Rightarrow> data_bytes t1 = bs @ data_bytes t' \<and> bs \<noteq> [] \<and> vara_rank t' < vara_rank t1
          | _ \<Rightarrow> data_bytes t' = data_bytes t1)"
          using True "1.IH"(1,2) [OF c ReadCmdPort rd [symmetric]] by blast
        with same at show ?thesis by (metis order_trans)
      next
        case False
        with unf ReadCmdPort rd same at show ?thesis
          by (auto split: sum.splits if_splits TransportError.splits)
      qed
    qed
  qed
qed

lemma vara_on_quiet:
  "(\<And>t now r t' now'. f t now = (r, t', now') \<Longrightarrow> now \<le> now') \<Longrightarrow> vara_on f s = (r, s') \<Longrightarrow> quiet s s'"
  by (auto simp: vara_on_def quiet_def split: prod.splits)

lemma vara_dial_clock: "vara_dial t now = (r, t', now') \<Longrightarrow> now \<le> now'"
  by (auto simp: vara_dial_def split: list.splits)

lemma await_ok_clock: "await_ok U t now = (r, t', now') \<Longrightarrow> now \<le> now'"
  by (auto simp: await_ok_def split: prod.splits sum.splits dest: read_cmd_line_frame)

lemma run_setup_clock: "run_setup U ls t now = (r, t', now') \<Longrightarrow> now \<le> now'"
  by (induction ls arbitrary: t now)
    (fastforce split: prod.splits sum.splits dest!: await_ok_clock)+

lemma await_connected_clock: "await_connected U dl t now = (r, t', now') \<Longrightarrow> now \<le> now'"
proof (induction U dl t now rule: await_connected.induct)
  case (1 U dl t now)
  obtain x t1 now1 where rd: "read_cmd_line dl t now = (x, t1, now1)" by (metis surj_pair)
  have le: "now \<le> now1" using read_cmd_line_frame [OF rd] by blast
  show ?case
  proof (cases "\<exists>line. x = Ok line \<and> (parse_line line = VrPending \<or> (\<exists>u. parse_line line = VrUnknown u))")
    case True
    then obtain line where l: "x = Ok line" "parse_line line = VrPending \<or> (\<exists>u. parse_line line = VrUnknown u)" by blast
    then have "await_connected U dl t1 now1 = (r, t', now')"
      using "1.prems" rd by (auto simp: await_connected.simps [of U dl t now])
    then have "now1 \<le> now'" using "1.IH"(1,2) [OF rd [symmetric] l(1) refl] l(2) by blast
    with le show ?thesis by simp
  next
    case False
    with "1.prems" rd le show ?thesis
      by (auto simp: await_connected.simps [of U dl t now] split: sum.splits VaraResponse.splits)
  qed
qed

lemma close_loop_clock: "close_loop n dl t now = (r, t', now') \<Longrightarrow> now \<le> now'"
proof (induction n arbitrary: t now)
  case (Suc n)
  obtain x t1 now1 where rd: "read_cmd_line dl t now = (x, t1, now1)" by (metis surj_pair)
  have "now \<le> now1" using read_cmd_line_frame [OF rd] by blast
  with Suc rd show ?case by (fastforce split: sum.splits if_splits)
qed simp

lemmas vara_clocks = vara_dial_clock await_ok_clock run_setup_clock await_connected_clock close_loop_clock

lemma vara_ops_clock:
  "vara_connect U cfg t now = (r, t', now') \<Longrightarrow> now \<le> now'"
  "vara_disconnect t now = (r, t', now') \<Longrightarrow> now \<le> now'"
  "vara_open U sc t now = (r, t', now') \<Longrightarrow> now \<le> now'"
  "vara_close t now = (r, t', now') \<Longrightarrow> now \<le> now'"
  by (fastforce simp: vara_connect_def vara_disconnect_def vara_open_def vara_close_def
      split: prod.splits sum.splits if_splits dest!: vara_clocks)+

interpretation vara: draining_transport "vara_transport U" vara_rank
proof
  fix dl t now r t' now'
  assume "t_recv (vara_transport U) dl t now = (r, t', now')"
  then show "now \<le> now'" by (auto simp: vara_transport_def dest: vara_recv_effect)
next
  fix dl t now bs t' now'
  assume "t_recv (vara_transport U) dl t now = (Ok (Data bs), t', now')"
  then show "vara_rank t' < vara_rank t" by (auto simp: vara_transport_def dest: vara_recv_effect)
qed (auto simp: vara_transport_def default_op_def intro: vara_on_quiet vara_ops_clock)

lemma vara_on_closed: "vara_on f s = (r, s') \<Longrightarrow> stays_closed s s'"
  by (auto simp: vara_on_def stays_closed_def split: prod.splits)

interpretation vara_modem: modem_contract "vara_transport U"
  by unfold_locales (auto simp: vara_transport_def default_op_def stays_closed_refl intro: vara_on_closed)

section \<open>The link as a byte stream\<close>

text \<open>Repeated receives with a deadline each: the bytes handed over and the transport after them.\<close>

fun vara_collect :: "nat list \<Rightarrow> VaraTransport \<Rightarrow> nat \<Rightarrow> bytes \<times> VaraTransport \<times> nat" where
  "vara_collect [] t now = ([], t, now)"
| "vara_collect (dl # dls) t now =
     (case vara_recv dl t now of
        (r, t, now) \<Rightarrow>
          apfst ((@) (case r of Inr (Data bs) \<Rightarrow> bs | _ \<Rightarrow> [])) (vara_collect dls t now))"

text \<open>
  C25: over VARA nothing is lost, repeated or reordered. Whatever arrives on the command port, however
  TCP cuts the data port into segments, whichever ready branch \<open>select!\<close> takes, whatever fails and
  whatever deadlines the caller sets: the bytes that any number of receives hand over are, in
  order, the first bytes of the data port, and the rest is still there for the next receive.
\<close>

theorem vara_stream_exact:
  "case vara_collect dls t now of (bs, t', now') \<Rightarrow> now \<le> now' \<and> data_bytes t = bs @ data_bytes t'"
proof (induction dls arbitrary: t now)
  case Nil
  show ?case by simp
next
  case (Cons dl dls)
  obtain r t1 now1 where rc: "vara_recv dl t now = (r, t1, now1)" by (metis surj_pair)
  have "now \<le> now1" "data_bytes t = (case r of Inr (Data bs) \<Rightarrow> bs | _ \<Rightarrow> []) @ data_bytes t1"
    using vara_recv_effect [OF rc] by (auto split: sum.splits TransportEvent.splits)
  with Cons.IH [where t = t1 and now = now1] rc show ?case by (auto split: prod.splits)
qed

text \<open>
  C26: the client works over VARA as over AGWPE. The background task on a VARA modem gets through every
  sequence of commands with one reply each, whatever the modem, the network and the operator do; and
  a handshake ends, either in an error before \<open>AGREE\<close> was sent, or having sent the login lines
  and \<open>AGREE\<close> after the operator's acceptance of the text the server had shown.
\<close>

theorem vara_client_conforms:
  "(\<exists>replies a. background_task U (vara_transport U) secs calls s = Some (replies, a)
      \<and> length replies = length calls)
   \<and> (\<exists>r s'. perform_bpq_handshake U (vara_transport U) c s = Some (r, s')
      \<and> ((\<exists>pre e. prefix pre (login_lines c s) \<and> sent s' = sent s @ pre \<and> r = Err e)
         \<or> sent s' = sent s @ login_lines c s @ [agree_line]
            \<and> (\<exists>d rest text s1. consents s = (d, Some True) # rest \<and> d < 300 * 1000 \<and> consents s' = rest
                 \<and> handshake_reads U (vara_transport U) c s = Some (Ok text, s1)
                 \<and> last_agreed_disclaimer (app s') = Some text)))"
proof
  show "\<exists>replies a. background_task U (vara_transport U) secs calls s = Some (replies, a)
      \<and> length replies = length calls"
    unfolding background_task_def by (rule vara.serve_all_total)
next
  obtain r s' where h: "perform_bpq_handshake U (vara_transport U) c s = Some (r, s')"
    using vara.handshake_total [of U U c s] by auto
  from vara.handshake_on_air [OF h] h show "\<exists>r s'. perform_bpq_handshake U (vara_transport U) c s = Some (r, s')
      \<and> ((\<exists>pre e. prefix pre (login_lines c s) \<and> sent s' = sent s @ pre \<and> r = Err e)
         \<or> sent s' = sent s @ login_lines c s @ [agree_line]
            \<and> (\<exists>d rest text s1. consents s = (d, Some True) # rest \<and> d < 300 * 1000 \<and> consents s' = rest
                 \<and> handshake_reads U (vara_transport U) c s = Some (Ok text, s1)
                 \<and> last_agreed_disclaimer (app s') = Some text))"
    by blast
qed

section \<open>Two ways in which the modem is misunderstood\<close>

text \<open>A line without a line end inside, as it travels.\<close>

definition plain_line :: "bytes \<Rightarrow> bool" where
  "plain_line l \<longleftrightarrow> list_all (\<lambda>b. is_ascii b \<and> \<not> is_eol b) l"

lemma take_line_plain:
  assumes "plain_line l"
  shows "take_line (l @ CR # rest) = Some (l, if rest \<noteq> [] \<and> hd rest = LF then tl rest else rest)"
    and "take_line l = None"
proof -
  have n: "position is_eol l = None" using assms by (auto simp: plain_line_def position_None_iff list_all_iff)
  then have p: "position is_eol (l @ CR # rest) = Some (length l)"
    by (simp add: position_append is_eol_def)
  have "trim_end_matches is_eol (l @ [CR]) = l"
  proof (cases l rule: rev_cases)
    case (snoc w c)
    with assms show ?thesis by (simp add: trim_end_matches_def plain_line_def is_eol_def)
  qed (simp add: trim_end_matches_def is_eol_def)
  with p show "take_line (l @ CR # rest) = Some (l, if rest \<noteq> [] \<and> hd rest = LF then tl rest else rest)"
    by (simp add: take_line_def Let_def)
  show "take_line l = None" using n by (simp add: take_line_def)
qed

lemma plain_line_lossy: "plain_line l \<Longrightarrow> from_utf8_lossy (l @ [CR]) = l @ [CR]"
  by (rule from_utf8_lossy_ascii) (auto simp: plain_line_def list_all_iff is_ascii_def CR_def)

text \<open>Reading one line that comes alone in a segment, within half a second.\<close>

lemma read_one_line:
  assumes "cmd_line_buf t = []" and "cmd_stream t = Some st" and "rx st = (at, RxBytes (l @ [CR])) # rest"
    and "plain_line l" and "length l < 512" and "now < dl" and "at < now + 500"
  shows "read_cmd_line dl t now = (Ok l, t\<lparr>cmd_stream := Some (st\<lparr>rx := rest\<rparr>)\<rparr>, max now at)"
proof -
  let ?t = "t\<lparr>cmd_stream := Some (st\<lparr>rx := rest\<rparr>), cmd_line_buf := l @ [CR]\<rparr>"
  have "tcp_read 512 (now + 500) st now = (ReadData (l @ [CR]), st\<lparr>rx := rest\<rparr>, max now at)"
    using assms(3,5,7) by (simp add: tcp_read.simps)
  then have "read_cmd_line dl t now = read_cmd_line dl ?t (max now at)"
    using assms(1,2,4,6) by (simp add: read_cmd_line.simps [of dl t now] take_line_def plain_line_lossy)
  also have "\<dots> = (Ok l, ?t\<lparr>cmd_line_buf := []\<rparr>, max now at)"
    using take_line_plain(1) [OF assms(4), of "[]"] by (simp add: read_cmd_line.simps [of dl ?t])
  finally show ?thesis using assms(1) by simp
qed

lemma parse_words:
  "parse_line ''OK'' = VrOk" "parse_line ''PENDING'' = VrPending" "parse_line ''DISCONNECTED'' = VrDisconnected"
  "parse_line ''BUFFER 0'' \<noteq> VrDisconnected"
  by (auto simp: parse_line_def Let_def trim_end_matches_def is_eol_def CR_def LF_def parse_connected_def
      parse_buffer_def split: option.split list.split)

lemma plain_words: "plain_line ''OK''" "plain_line ''PENDING''" "plain_line ''DISCONNECTED''" "plain_line ''BUFFER 0''"
  by (simp_all add: plain_line_def is_ascii_def is_eol_def CR_def LF_def)

lemma send_cmd_ok:
  assumes "cmd_stream t = Some st" and "wr_results st = []"
  shows "send_cmd line t = (Ok (), t\<lparr>cmd_stream := Some (st\<lparr>written := written st @ line @ [CR]\<rparr>)\<rparr>)"
  using assms by (simp add: send_cmd_def tcp_write_def)

text \<open>
  A \<open>CONNECT\<close> over the air is given up after half a second. \<open>open_session\<close> means to wait up to 60
  seconds for \<open>CONNECTED\<close>, but \<open>read_cmd_line\<close> ends in a time-out as soon as one read of 500 ms brings
  nothing. So whenever the modem says \<open>PENDING\<close> and then is silent for half a second, as it is while the
  radios negotiate, the session is reported as timed out, even if \<open>CONNECTED\<close> follows.
\<close>

theorem vara_connect_gives_up:
  assumes "cmd_line_buf t = []" and "cmd_stream t = Some st" and "wr_results st = []"
    and "rx st = (a1, RxBytes (''OK'' @ [CR])) # (a2, RxBytes (''PENDING'' @ [CR])) # later"
    and "a1 < now + 500" and "a2 < max now a1 + 500"
    and "list_all (\<lambda>(a, _). max (max now a1) a2 + 500 \<le> a) later"
  shows "\<exists>t'. vara_open U cfg t now = (Err TeTimeout, t', max (max now a1) a2 + 500)"
proof -
  let ?n1 = "max now a1" and ?n2 = "max (max now a1) a2"
  let ?mycall = "''MYCALL '' @ sc_local_callsign cfg"
  let ?conn = "''CONNECT '' @ sc_local_callsign cfg @ '' '' @ sc_remote_callsign cfg"
  let ?st1 = "st\<lparr>written := written st @ ?mycall @ [CR]\<rparr>"
  define t1 where "t1 = t\<lparr>cmd_stream := Some (?st1\<lparr>rx := (a2, RxBytes (''PENDING'' @ [CR])) # later\<rparr>)\<rparr>"
  define st2 where "st2 = ?st1\<lparr>rx := (a2, RxBytes (''PENDING'' @ [CR])) # later, written := written ?st1 @ ?conn @ [CR]\<rparr>"
  define t2 where "t2 = t\<lparr>cmd_stream := Some st2\<rparr>"
  define t3 where "t3 = t\<lparr>cmd_stream := Some (st2\<lparr>rx := later\<rparr>)\<rparr>"
  have sent1: "send_cmd ?mycall t = (Ok (), t\<lparr>cmd_stream := Some ?st1\<rparr>)" by (rule send_cmd_ok [OF assms(2,3)])
  have "read_cmd_line (now + OK_TIMEOUT_SECS * 1000) (t\<lparr>cmd_stream := Some ?st1\<rparr>) now = (Ok ''OK'', t1, ?n1)"
    using read_one_line [OF _ _ _ plain_words(1), of "t\<lparr>cmd_stream := Some ?st1\<rparr>" ?st1 a1 _ now] assms(1,4,5)
    by (simp add: t1_def OK_TIMEOUT_SECS_def)
  then have ok: "await_ok U (t\<lparr>cmd_stream := Some ?st1\<rparr>) now = (Ok (), t1, ?n1)"
    by (simp add: await_ok_def parse_words)
  have sent2: "send_cmd ?conn t1 = (Ok (), t2)"
    using send_cmd_ok [of t1 "?st1\<lparr>rx := (a2, RxBytes (''PENDING'' @ [CR])) # later\<rparr>" ?conn] assms(3)
    by (simp add: t1_def t2_def st2_def)
  have t2: "cmd_line_buf t2 = []" "cmd_stream t2 = Some st2" "rx st2 = (a2, RxBytes (''PENDING'' @ [CR])) # later"
    "t2\<lparr>cmd_stream := Some (st2\<lparr>rx := later\<rparr>)\<rparr> = t3"
    using assms(1) by (simp_all add: t2_def t3_def st2_def)
  have pending: "read_cmd_line (?n1 + 60 * 1000) t2 ?n1 = (Ok ''PENDING'', t3, ?n2)"
    using read_one_line [OF t2(1-3) plain_words(2), of ?n1 "?n1 + 60 * 1000"] assms(6) unfolding t2(4) by simp
  have "tcp_read 512 (?n2 + 500) (st2\<lparr>rx := later\<rparr>) ?n2 = (ReadTimeout, st2\<lparr>rx := later\<rparr>, ?n2 + 500)"
    using assms(7) by (cases later) (auto simp: tcp_read.simps)
  moreover have "\<not> ?n1 + 60 * 1000 \<le> ?n2" using assms(6) by auto
  ultimately have silent: "read_cmd_line (?n1 + 60 * 1000) t3 ?n2 = (Err TeTimeout, t3, ?n2 + 500)"
    using assms(1) by (subst read_cmd_line.simps) (simp add: t3_def take_line_def)
  have "await_connected U (?n1 + 60 * 1000) t2 ?n1 = (Err TeTimeout, t3, ?n2 + 500)"
    by (simp only: await_connected.simps [of U _ t2] pending parse_words prod.case sum.case VaraResponse.case
        await_connected.simps [of U _ t3] silent)
  with sent1 ok sent2 show ?thesis by (simp add: vara_open_def)
qed

definition sample_vara :: "(nat \<times> rx_event) list \<Rightarrow> VaraTransport" where
  "sample_vara evs =
     (vara_new [] [])\<lparr>cmd_stream := Some \<lparr>rx = evs, written = [], wr_results = []\<rparr>,
        data_stream := Some \<lparr>rx = [], written = [], wr_results = []\<rparr>\<rparr>"

theorem vara_connect_gives_up_witness:
  "\<exists>t'. vara_open ascii_unicode
      \<lparr>sc_local_callsign = ''K1ABC'', sc_remote_callsign = ''N0CALL'', sc_bpq_command = ''WEB'',
       sc_skip_bpq_app = False, sc_agwpe_port = 0\<rparr>
      (sample_vara [(10, RxBytes (''OK'' @ [CR])), (20, RxBytes (''PENDING'' @ [CR])),
        (2000, RxBytes (''CONNECTED K1ABC N0CALL'' @ [CR]))]) 0
    = (Err TeTimeout, t', 520)"
  using vara_connect_gives_up [of "sample_vara [(10, RxBytes (''OK'' @ [CR])), (20, RxBytes (''PENDING'' @ [CR])),
        (2000, RxBytes (''CONNECTED K1ABC N0CALL'' @ [CR]))]" _ 10 20 "[(2000, RxBytes (''CONNECTED K1ABC N0CALL'' @ [CR]))]" 0]
  by (simp add: sample_vara_def vara_new_def)

text \<open>
  A link loss can go unnoticed. When the modem sends some other line and \<open>DISCONNECTED\<close> in one TCP segment,
  \<open>recv\<close> reads the first line and leaves the second in its buffer; it looks at the buffer again
  only when more bytes arrive on the command port. Until then every receive times out, although the
  notice has been read.
\<close>

theorem vara_disconnect_unnoticed:
  assumes "cmd_line_buf t = []" and "cmd_stream t = Some st" and "data_stream t = Some dst"
    and "rx dst = []" and "rx st = [(0, RxBytes (l @ CR # ''DISCONNECTED'' @ [CR]))]"
    and "plain_line l" and "length l \<le> 400" and "parse_line l \<noteq> VrDisconnected"
    and "0 < deadline"
  shows "\<exists>t' now'. vara_recv deadline t 0 = (Err TeTimeout, t', now') \<and> deadline \<le> now'
     \<and> cmd_line_buf t' = ''DISCONNECTED'' @ [CR]"
proof -
  let ?buf = "l @ CR # ''DISCONNECTED'' @ [CR]"
  have silent: "\<exists>now'. vara_recv deadline u now = (Err TeTimeout, u, now') \<and> deadline \<le> now'"
    if "rx c = []" "cmd_stream u = Some c" "data_stream u = Some dst" for u c now
    using that
  proof (induction "deadline - now" arbitrary: now rule: less_induct)
    case less
    have sel: "select_branch now dst c (coins u) = Slept"
      using less.prems assms(4) by (simp add: select_branch_def ready_at_def)
    show ?case
    proof (cases "deadline \<le> now")
      case True
      then show ?thesis by (simp add: vara_recv.simps [of deadline u now])
    next
      case False
      then have "\<exists>now'. vara_recv deadline u (now + 100) = (Err TeTimeout, u, now') \<and> deadline \<le> now'"
        using less.hyps [of "now + 100"] less.prems by simp
      with False less.prems sel show ?thesis by (simp add: vara_recv.simps [of deadline u now])
    qed
  qed
  let ?c = "st\<lparr>rx := []\<rparr>"
  let ?t1 = "t\<lparr>cmd_stream := Some ?c, cmd_line_buf := ?buf\<rparr>"
  let ?t2 = "t\<lparr>cmd_stream := Some ?c, cmd_line_buf := ''DISCONNECTED'' @ [CR]\<rparr>"
  have sel: "select_branch 0 dst st (coins t) = ReadCmdPort 0 (coins t)"
    using assms(4,5) by (simp add: select_branch_def ready_at_def)
  have lossy: "from_utf8_lossy ?buf = ?buf"
    using assms(6) by (intro from_utf8_lossy_ascii) (auto simp: plain_line_def list_all_iff is_ascii_def CR_def)
  have "tcp_read 512 500 st 0 = (ReadData ?buf, ?c, 0)"
    using assms(5,7) by (simp add: tcp_read.simps)
  then have "read_cmd_line 100 t 0 = read_cmd_line 100 ?t1 0"
    using assms(1,2) lossy by (simp add: read_cmd_line.simps [of 100 t] take_line_def)
  also have "\<dots> = (Ok l, ?t2, 0)"
    using take_line_plain(1) [OF assms(6), of "''DISCONNECTED'' @ [CR]"]
    by (subst read_cmd_line.simps) (simp add: LF_def)
  finally have "vara_recv deadline t 0 = vara_recv deadline ?t2 0"
    using assms(9) assms(2,3,8) sel by (simp add: vara_recv.simps [of deadline t 0])
  moreover obtain now' where "vara_recv deadline ?t2 0 = (Err TeTimeout, ?t2, now')" "deadline \<le> now'"
    using silent [of ?c ?t2 0] assms(3) by auto
  ultimately show ?thesis by simp
qed

theorem vara_disconnect_unnoticed_witness:
  "\<exists>t' now'. vara_recv 30000 (sample_vara [(0, RxBytes (''BUFFER 0'' @ CR # ''DISCONNECTED'' @ [CR]))]) 0
     = (Err TeTimeout, t', now') \<and> 30000 \<le> now' \<and> cmd_line_buf t' = ''DISCONNECTED'' @ [CR]"
  using vara_disconnect_unnoticed [of "sample_vara [(0, RxBytes (''BUFFER 0'' @ CR # ''DISCONNECTED'' @ [CR]))]"
      _ _ "''BUFFER 0''" 30000] plain_words(4) parse_words(4)
  by (simp add: sample_vara_def vara_new_def)

end
