(* ===== verification/Cache.thy ===== *)
theory Cache
  imports Compress "HOL-Library.DAList"
begin

text \<open>
  The page cache of the client (\<open>client/src/cache.rs\<close>): compressed pages by URL, with a lifetime
  and a size cap enforced by evicting the least recently used pages. The database engine is third-party
  code: \<open>Sql\<close> is the record of the statements the program executes, each of which may fail, and the
  locale \<open>sqlite\<close> says what a statement that succeeds has done to the table \<open>tab db\<close> (from URLs to
  rows); \<open>healthy_sqlite\<close> adds that none fails. What is proved of the program is proved in these
  locales, over any engine; a table kept as a list interprets them.

  Times are seconds since 1970, except that freshness is decided in milliseconds. The mutex
  around the connection is the atomicity of each operation.
\<close>

section \<open>Rows and statements\<close>

record Row =
  row_etag :: bytes
  row_body :: bytes
  row_fetched_at :: int
  row_last_used :: int
  row_size :: int
  row_max_age :: int

record 'db Sql =
  sql_get :: "bytes \<Rightarrow> 'db \<Rightarrow> Row option"
  sql_begin :: "'db \<Rightarrow> bool"
  sql_upsert :: "bytes \<Rightarrow> Row \<Rightarrow> 'db \<Rightarrow> 'db option"
  sql_total :: "'db \<Rightarrow> int option"
  sql_by_last_used :: "'db \<Rightarrow> (bytes \<times> int) list option"
  sql_delete :: "bytes \<Rightarrow> 'db \<Rightarrow> 'db option"
  sql_commit :: "'db \<Rightarrow> bool"
  sql_touch_fresh :: "int \<Rightarrow> bytes \<Rightarrow> 'db \<Rightarrow> 'db option"
  sql_touch_last_used :: "int \<Rightarrow> bytes \<Rightarrow> 'db \<Rightarrow> 'db option"
  sql_delete_all :: "'db \<Rightarrow> 'db option"
  sql_newest :: "nat \<Rightarrow> 'db \<Rightarrow> (bytes \<times> Row) list option"

record 'db Cache =
  conn :: 'db
  cap_bytes :: nat
  max_ttl :: nat

record Hit =
  hit_etag :: bytes
  hit_body :: bytes
  hit_fetched_at :: nat
  hit_max_age :: nat

definition is_fresh :: "Hit \<Rightarrow> nat \<Rightarrow> bool" where
  "is_fresh h now_ms \<longleftrightarrow>
     hit_fetched_at h * 1000 \<le> now_ms \<and> now_ms - hit_fetched_at h * 1000 < hit_max_age h * 1000"

record CacheEntry =
  ce_url :: bytes
  ce_etag :: bytes
  ce_fetched_at :: nat
  ce_last_used :: nat
  ce_size :: nat
  ce_max_age :: nat

section \<open>Operations\<close>

text \<open>\<open>Cache::open\<close>: the directory and the connection may fail, the schema is created when missing.\<close>

datatype CacheError = CacheIo bytes | CacheSql bytes

definition cache_open ::
  "bytes option \<Rightarrow> (bytes, 'db) result \<Rightarrow> ('db \<Rightarrow> (bytes, 'db) result) \<Rightarrow> nat \<Rightarrow> nat \<Rightarrow> (CacheError, 'db Cache) result" where
  "cache_open mkdir open_db create_schema cap ttl =
     (case mkdir of
        Some e \<Rightarrow> Err (CacheIo e)
      | None \<Rightarrow>
          (case open_db of
             Inl e \<Rightarrow> Err (CacheSql e)
           | Inr db \<Rightarrow>
               (case create_schema db of
                  Inl e \<Rightarrow> Err (CacheSql e)
                | Inr db \<Rightarrow> Ok \<lparr>conn = db, cap_bytes = cap, max_ttl = ttl\<rparr>)))"

definition lookup :: "'db Sql \<Rightarrow> bytes \<Rightarrow> 'db Cache \<Rightarrow> Hit option" where
  "lookup S url c =
     map_option
       (\<lambda>r. \<lparr>hit_etag = row_etag r, hit_body = row_body r, hit_fetched_at = nat (max (row_fetched_at r) 0),
             hit_max_age = nat (max (row_max_age r) 0)\<rparr>)
       (sql_get S url (conn c))"

text \<open>\<open>as i64\<close> of an unsigned 64-bit number.\<close>

definition as_i64 :: "nat \<Rightarrow> int" where
  "as_i64 n = (if n < 2 ^ 63 then int n else int n - 2 ^ 64)"

fun evict :: "'db Sql \<Rightarrow> bytes \<Rightarrow> int \<Rightarrow> (bytes \<times> int) list \<Rightarrow> 'db \<Rightarrow> 'db" where
  "evict S url over [] db = db"
| "evict S url over ((v_url, v_size) # victims) db =
     (if over \<le> 0 then db
      else if v_url = url then evict S url over victims db
      else (case sql_delete S v_url db of
              None \<Rightarrow> evict S url over victims db
            | Some db \<Rightarrow> evict S url (over - v_size) victims db))"

definition enforce_cap :: "'db Sql \<Rightarrow> bytes \<Rightarrow> int \<Rightarrow> 'db \<Rightarrow> 'db" where
  "enforce_cap S url cap db =
     (let total = (case sql_total S db of Some n \<Rightarrow> n | None \<Rightarrow> 0) in
      if total > cap then
        evict S url (total - cap) (case sql_by_last_used S db of Some vs \<Rightarrow> vs | None \<Rightarrow> []) db
      else db)"

definition new_row :: "nat \<Rightarrow> nat \<Rightarrow> bytes \<Rightarrow> bytes \<Rightarrow> int \<Rightarrow> Row" where
  "new_row ttl now tag body server_max_age =
     \<lparr>row_etag = tag, row_body = body, row_fetched_at = as_i64 now, row_last_used = as_i64 now,
      row_size = as_i64 (length body), row_max_age = as_i64 (min (nat server_max_age) ttl)\<rparr>"

text \<open>A transaction that is not committed leaves the database as it was.\<close>

definition cache_insert :: "'db Sql \<Rightarrow> nat \<Rightarrow> bytes \<Rightarrow> bytes \<Rightarrow> bytes \<Rightarrow> int \<Rightarrow> 'db Cache \<Rightarrow> 'db Cache" where
  "cache_insert S now url tag body server_max_age_secs c =
     (if server_max_age_secs < 0 then c
      else if \<not> sql_begin S (conn c) then c
      else (case sql_upsert S url (new_row (max_ttl c) now tag body server_max_age_secs) (conn c) of
              None \<Rightarrow> c
            | Some db \<Rightarrow>
                let db = enforce_cap S url (as_i64 (cap_bytes c)) db in
                if sql_commit S db then c\<lparr>conn := db\<rparr> else c))"

definition executed :: "'db option \<Rightarrow> 'db Cache \<Rightarrow> 'db Cache" where
  "executed r c = (case r of Some db \<Rightarrow> c\<lparr>conn := db\<rparr> | None \<Rightarrow> c)"

definition touch_fresh :: "'db Sql \<Rightarrow> nat \<Rightarrow> bytes \<Rightarrow> 'db Cache \<Rightarrow> 'db Cache" where
  "touch_fresh S now url c = executed (sql_touch_fresh S (as_i64 now) url (conn c)) c"

definition touch_last_used :: "'db Sql \<Rightarrow> nat \<Rightarrow> bytes \<Rightarrow> 'db Cache \<Rightarrow> 'db Cache" where
  "touch_last_used S now url c = executed (sql_touch_last_used S (as_i64 now) url (conn c)) c"

definition cache_delete :: "'db Sql \<Rightarrow> bytes \<Rightarrow> 'db Cache \<Rightarrow> 'db Cache" where
  "cache_delete S url c = executed (sql_delete S url (conn c)) c"

definition cache_clear :: "'db Sql \<Rightarrow> 'db Cache \<Rightarrow> 'db Cache" where
  "cache_clear S c = executed (sql_delete_all S (conn c)) c"

definition cache_list :: "'db Sql \<Rightarrow> 'db Cache \<Rightarrow> CacheEntry list" where
  "cache_list S c =
     (case sql_newest S 200 (conn c) of
        None \<Rightarrow> []
      | Some rows \<Rightarrow>
          map (\<lambda>(u, r). \<lparr>ce_url = u, ce_etag = row_etag r, ce_fetched_at = nat (max (row_fetched_at r) 0),
                        ce_last_used = nat (max (row_last_used r) 0), ce_size = nat (max (row_size r) 0),
                        ce_max_age = nat (max (row_max_age r) 0)\<rparr>) rows)"

section \<open>What the engine promises\<close>

type_synonym Table = "bytes \<rightharpoonup> Row"

definition table_size :: "Table \<Rightarrow> int" where
  "table_size m = (\<Sum>u \<in> dom m. row_size (the (m u)))"

locale sqlite =
  fixes S :: "'db Sql" and tab :: "'db \<Rightarrow> Table"
  assumes finite_tab: "finite (dom (tab db))"
    and get_tab: "sql_get S u db = Some r \<Longrightarrow> tab db u = Some r"
    and upsert_tab: "sql_upsert S u r db = Some db' \<Longrightarrow> tab db' = (tab db)(u \<mapsto> r)"
    and total_tab: "sql_total S db = Some n \<Longrightarrow> n = table_size (tab db)"
    and order_tab: "sql_by_last_used S db = Some vs \<Longrightarrow>
       distinct (map fst vs) \<and> set vs = {(u, row_size r) |u r. tab db u = Some r}
       \<and> sorted (map (\<lambda>(u, _). row_last_used (the (tab db u))) vs)"
    and delete_tab: "sql_delete S u db = Some db' \<Longrightarrow> tab db' = (tab db)(u := None)"
    and touch_fresh_tab: "sql_touch_fresh S now u db = Some db' \<Longrightarrow>
       tab db' = (tab db)(u := map_option (\<lambda>r. r\<lparr>row_fetched_at := now, row_last_used := now\<rparr>) (tab db u))"
    and touch_last_used_tab: "sql_touch_last_used S now u db = Some db' \<Longrightarrow>
       tab db' = (tab db)(u := map_option (\<lambda>r. r\<lparr>row_last_used := now\<rparr>) (tab db u))"
    and delete_all_tab: "sql_delete_all S db = Some db' \<Longrightarrow> tab db' = Map.empty"
    and newest_tab: "sql_newest S lim db = Some rows \<Longrightarrow>
       distinct (map fst rows) \<and> set rows \<subseteq> {(u, r). tab db u = Some r}
       \<and> length rows = min lim (card (dom (tab db)))
       \<and> sorted (map (\<lambda>(u, r). - row_last_used r) rows)"
begin

text \<open>Evicting changes no row, and never the new one.\<close>

lemma evict_keeps:
  "tab (evict S url over vs db) \<subseteq>\<^sub>m tab db \<and> tab (evict S url over vs db) url = tab db url"
proof (induction vs arbitrary: over db)
  case Nil
  show ?case by simp
next
  case (Cons v vs)
  obtain u n where v: "v = (u, n)" by fastforce
  show ?case
  proof (cases "sql_delete S u db")
    case None
    with Cons.IH v show ?thesis by simp
  next
    case (Some db1)
    have "tab db1 \<subseteq>\<^sub>m tab db" "u \<noteq> url \<Longrightarrow> tab db1 url = tab db url"
      using delete_tab [OF Some] by (auto simp: map_le_def)
    with Cons.IH v Some show ?thesis by (auto intro: map_le_trans)
  qed
qed

lemma enforce_cap_keeps:
  "tab (enforce_cap S url cap db) \<subseteq>\<^sub>m tab db \<and> tab (enforce_cap S url cap db) url = tab db url"
  using evict_keeps by (auto simp: enforce_cap_def Let_def)

text \<open>Inserting either changes nothing, or stores the new row and removes some others.\<close>

lemma insert_cases:
  "cache_insert S now url tag body age c = c
   \<or> (\<exists>db. cache_insert S now url tag body age c = c\<lparr>conn := db\<rparr> \<and> 0 \<le> age
        \<and> tab db \<subseteq>\<^sub>m (tab (conn c))(url \<mapsto> new_row (max_ttl c) now tag body age)
        \<and> tab db url = Some (new_row (max_ttl c) now tag body age))"
proof (cases "age < 0 \<or> \<not> sql_begin S (conn c)")
  case True
  then show ?thesis by (auto simp: cache_insert_def)
next
  case False
  let ?r = "new_row (max_ttl c) now tag body age"
  show ?thesis
  proof (cases "sql_upsert S url ?r (conn c)")
    case None
    with False show ?thesis by (simp add: cache_insert_def)
  next
    case (Some db)
    let ?db = "enforce_cap S url (as_i64 (cap_bytes c)) db"
    have "tab ?db \<subseteq>\<^sub>m (tab (conn c))(url \<mapsto> ?r)" "tab ?db url = Some ?r"
      using enforce_cap_keeps [of url "as_i64 (cap_bytes c)" db] upsert_tab [OF Some] by auto
    moreover have "cache_insert S now url tag body age c = (if sql_commit S ?db then c\<lparr>conn := ?db\<rparr> else c)"
      using False Some by (simp add: cache_insert_def Let_def)
    ultimately show ?thesis using False by auto
  qed
qed

end

text \<open>An engine in which no statement fails.\<close>

locale healthy_sqlite = sqlite S tab for S :: "'db Sql" and tab :: "'db \<Rightarrow> Table" +
  assumes get_all: "sql_get S u db = tab db u"
    and begins: "sql_begin S db" and commits: "sql_commit S db"
    and succeeds: "sql_upsert S u r db \<noteq> None" "sql_total S db \<noteq> None" "sql_by_last_used S db \<noteq> None"
      "sql_delete S u db \<noteq> None" "sql_touch_fresh S t u db \<noteq> None" "sql_touch_last_used S t u db \<noteq> None"
      "sql_delete_all S db \<noteq> None" "sql_newest S k db \<noteq> None"
begin

text \<open>The victims are a prefix of the list, without the new page: no longer than needed.\<close>

lemma evict_prefix:
  "\<exists>k \<le> length (filter (\<lambda>v. fst v \<noteq> url) vs). let ws = filter (\<lambda>v. fst v \<noteq> url) vs in
     tab (evict S url over vs db) = tab db |` (- fst ` set (take k ws))
     \<and> (over \<le> sum_list (map snd (take k ws)) \<or> k = length ws)
     \<and> (0 < k \<longrightarrow> sum_list (map snd (take (k - 1) ws)) < over)"
proof (induction vs arbitrary: over db)
  case Nil
  show ?case by (simp add: restrict_map_def)
next
  case (Cons v vs)
  obtain u n where v: "v = (u, n)" by fastforce
  let ?ws = "filter (\<lambda>v. fst v \<noteq> url) vs"
  show ?case
  proof (cases "over \<le> 0 \<or> u = url")
    case True
    show ?thesis
    proof (cases "over \<le> 0")
      case True
      with v show ?thesis by (intro exI [of _ 0]) (simp add: restrict_map_def)
    next
      case False
      with True Cons.IH [of over db] v show ?thesis by simp
    qed
  next
    case False
    obtain db1 where d: "sql_delete S u db = Some db1" using succeeds(4) by blast
    obtain k where k: "k \<le> length ?ws" "tab (evict S url (over - n) vs db1) = tab db1 |` (- fst ` set (take k ?ws))"
      "over - n \<le> sum_list (map snd (take k ?ws)) \<or> k = length ?ws"
      "0 < k \<longrightarrow> sum_list (map snd (take (k - 1) ?ws)) < over - n"
      using Cons.IH [of "over - n" db1] by (auto simp: Let_def)
    have "tab db1 |` (- fst ` set (take k ?ws)) = tab db |` (- fst ` set (take (Suc k) (v # ?ws)))"
      using delete_tab [OF d] v by (auto simp: restrict_map_def)
    with False v d k show ?thesis
      by (intro exI [of _ "Suc k"]) (auto simp: Let_def take_Cons' split: if_splits)
  qed
qed

end

section \<open>The replacement policy\<close>

text \<open>What a cap is to do to a table: rows are only removed, never the new one; a removed row was used
  no later than any kept one; the cap is met unless nothing else is left; and no row is removed
  that did not have to be: with one of them back, the cap would be broken.\<close>

definition lru_evicted :: "bytes \<Rightarrow> int \<Rightarrow> Table \<Rightarrow> Table \<Rightarrow> bool" where
  "lru_evicted url cap m m' \<longleftrightarrow>
     m' \<subseteq>\<^sub>m m \<and> m' url = m url
     \<and> (\<forall>v \<in> dom m - dom m'. \<forall>k \<in> dom m' - {url}. row_last_used (the (m v)) \<le> row_last_used (the (m k)))
     \<and> (table_size m' \<le> cap \<or> dom m' = {url})
     \<and> (m' = m \<or> (\<exists>v \<in> dom m - dom m'. cap < table_size (m'(v := m v))))"

lemma table_size_restrict:
  assumes "finite (dom m)" and "D \<subseteq> dom m"
  shows "table_size (m |` (- D)) = table_size m - (\<Sum>u \<in> D. row_size (the (m u)))"
proof -
  have "table_size (m |` (- D)) = (\<Sum>u \<in> dom m - D. row_size (the (m u)))"
    unfolding table_size_def by (rule sum.cong) auto
  then show ?thesis using sum_diff [OF assms, of "\<lambda>u. row_size (the (m u))"] by (simp add: table_size_def)
qed

text \<open>Removing a prefix of the rows in order of last use is that policy.\<close>

lemma prefix_is_lru:
  fixes ws :: "(bytes \<times> int) list"
  assumes fin: "finite (dom m)" and url: "m url \<noteq> None"
    and vs: "distinct (map fst vs)" "set vs = {(u, row_size r) |u r. m u = Some r}"
      "sorted (map (\<lambda>(u, _). row_last_used (the (m u))) vs)"
    and ws: "ws = filter (\<lambda>v. fst v \<noteq> url) vs" and k: "k \<le> length ws"
    and m': "m' = m |` (- fst ` set (take k ws))"
    and enough: "table_size m - cap \<le> sum_list (map snd (take k ws)) \<or> k = length ws"
    and needed: "0 < k \<longrightarrow> sum_list (map snd (take (k - 1) ws)) < table_size m - cap"
  shows "lru_evicted url cap m m'"
proof -
  let ?D = "\<lambda>j. fst ` set (take j ws)"
  have dist: "distinct (map fst ws)" unfolding ws using vs(1) by (rule distinct_map_filter)
  have row: "m u = Some r \<Longrightarrow> row_size r = n" "\<exists>r. m u = Some r" if "(u, n) \<in> set ws" for u n r
    using that vs(2) ws by auto
  have sub: "?D j \<subseteq> dom m" for j using row(2) by (auto dest!: in_set_takeD)
  have size: "(\<Sum>u \<in> ?D j. row_size (the (m u))) = sum_list (map snd (take j ws))" for j
  proof -
    have "distinct (map fst (take j ws))" using dist by (metis distinct_take take_map)
    then have "(\<Sum>u \<in> ?D j. row_size (the (m u))) = sum_list (map (\<lambda>u. row_size (the (m u))) (map fst (take j ws)))"
      using sum_list_distinct_conv_sum_set [of "map fst (take j ws)" "\<lambda>u. row_size (the (m u))"] by simp
    also have "\<dots> = sum_list (map snd (take j ws))"
      by (rule arg_cong [where f = sum_list]) (fastforce dest: in_set_takeD simp: row)
    finally show ?thesis .
  qed
  have tot: "table_size (m |` (- ?D j)) = table_size m - sum_list (map snd (take j ws))" for j
    using table_size_restrict [OF fin sub] size by simp
  have gone: "dom m - dom m' = ?D k" using sub [of k] unfolding m' dom_restrict by blast
  have "u \<in> fst ` set vs \<longleftrightarrow> u \<in> dom m" for u unfolding vs(2) by (auto simp: image_iff)
  then have all: "fst ` set ws = dom m - {url}" unfolding ws by auto
  have sorted: "sorted (map (\<lambda>v. row_last_used (the (m (fst v)))) ws)"
    unfolding ws using vs(3) by (auto simp: case_prod_beta' intro: sorted_filter)
  have lru: "row_last_used (the (m v)) \<le> row_last_used (the (m w))"
    if "v \<in> dom m - dom m'" "w \<in> dom m' - {url}" for v w
  proof -
    have "v \<in> ?D k" using that(1) gone by blast
    moreover have "w \<in> fst ` set (drop k ws)"
    proof -
      have "w \<in> fst ` set ws" "w \<notin> ?D k" using that(2) all unfolding m' dom_restrict by blast+
      then show ?thesis by (metis (no_types, lifting) Un_iff append_take_drop_id image_Un set_append)
    qed
    moreover have "\<forall>x \<in> set (take k ws). \<forall>y \<in> set (drop k ws). row_last_used (the (m (fst x))) \<le> row_last_used (the (m (fst y)))"
    proof -
      have "sorted (map (\<lambda>v. row_last_used (the (m (fst v)))) (take k ws) @ map (\<lambda>v. row_last_used (the (m (fst v)))) (drop k ws))"
        using sorted by (metis append_take_drop_id map_append)
      then show ?thesis unfolding sorted_append by simp
    qed
    ultimately show ?thesis by auto
  qed
  have cap: "table_size m' \<le> cap \<or> dom m' = {url}"
  proof (cases "k = length ws")
    case True
    then have "dom m' = {url}" using all url unfolding m' dom_restrict by auto
    then show ?thesis ..
  next
    case False
    with enough tot [of k] show ?thesis by (simp add: m')
  qed
  have minimal: "m' = m \<or> (\<exists>v \<in> dom m - dom m'. cap < table_size (m'(v := m v)))"
  proof (cases k)
    case 0
    then have "m' = m" unfolding m' by (simp add: restrict_map_def)
    then show ?thesis ..
  next
    case (Suc j)
    let ?v = "fst (ws ! j)"
    have tk: "take k ws = take j ws @ [ws ! j]" using k Suc by (simp add: take_Suc_conv_app_nth)
    have "distinct (map fst (take k ws))" using dist by (metis distinct_take take_map)
    then have "?v \<notin> ?D j" unfolding tk by simp
    then have "m'(?v := m ?v) = m |` (- ?D j)" by (auto simp: m' tk restrict_map_def)
    then have "cap < table_size (m'(?v := m ?v))" using tot [of j] needed Suc by simp
    moreover have "?v \<in> dom m - dom m'" unfolding gone tk by simp
    ultimately show ?thesis by blast
  qed
  have "url \<notin> ?D k" using all by (auto dest!: in_set_takeD)
  then have "m' url = m url" "m' \<subseteq>\<^sub>m m"
    by (simp_all add: m' map_le_def)
  with lru cap minimal show ?thesis unfolding lru_evicted_def by blast
qed

context healthy_sqlite
begin

lemma enforce_cap_lru:
  assumes "tab db url \<noteq> None"
  shows "lru_evicted url cap (tab db) (tab (enforce_cap S url cap db))"
proof -
  obtain n vs where n: "sql_total S db = Some n" and vs: "sql_by_last_used S db = Some vs"
    using succeeds(2,3) by blast
  have total: "n = table_size (tab db)" using total_tab [OF n] .
  show ?thesis
  proof (cases "n > cap")
    case False
    then have "enforce_cap S url cap db = db" using n by (simp add: enforce_cap_def)
    with False total show ?thesis by (simp add: lru_evicted_def)
  next
    case True
    then have e: "enforce_cap S url cap db = evict S url (n - cap) vs db" using n vs by (simp add: enforce_cap_def)
    let ?ws = "filter (\<lambda>v. fst v \<noteq> url) vs"
    obtain k where "k \<le> length ?ws" "tab (evict S url (n - cap) vs db) = tab db |` (- fst ` set (take k ?ws))"
      "n - cap \<le> sum_list (map snd (take k ?ws)) \<or> k = length ?ws"
      "0 < k \<longrightarrow> sum_list (map snd (take (k - 1) ?ws)) < n - cap"
      using evict_prefix [of url vs "n - cap" db] by (auto simp: Let_def)
    with prefix_is_lru [OF finite_tab assms, of vs ?ws k] order_tab [OF vs] e total show ?thesis by auto
  qed
qed

lemma insert_lru:
  assumes "0 \<le> age"
  shows "lru_evicted url (as_i64 (cap_bytes c)) ((tab (conn c))(url \<mapsto> new_row (max_ttl c) now tag body age))
           (tab (conn (cache_insert S now url tag body age c)))"
proof -
  obtain db where u: "sql_upsert S url (new_row (max_ttl c) now tag body age) (conn c) = Some db"
    using succeeds(1) by blast
  have "cache_insert S now url tag body age c = c\<lparr>conn := enforce_cap S url (as_i64 (cap_bytes c)) db\<rparr>"
    using assms u begins commits by (simp add: cache_insert_def Let_def)
  with enforce_cap_lru [of db url "as_i64 (cap_bytes c)"] upsert_tab [OF u] show ?thesis by simp
qed

lemma lookup_tab:
  "lookup S url c = map_option (\<lambda>r. \<lparr>hit_etag = row_etag r, hit_body = row_body r,
      hit_fetched_at = nat (max (row_fetched_at r) 0), hit_max_age = nat (max (row_max_age r) 0)\<rparr>) (tab (conn c) url)"
  by (simp add: lookup_def get_all)

lemma lookup_insert:
  assumes "0 \<le> age" and "age < 2 ^ 31" and "now < 2 ^ 63"
  shows "lookup S url (cache_insert S now url tag body age c)
     = Some \<lparr>hit_etag = tag, hit_body = body, hit_fetched_at = now, hit_max_age = min (nat age) (max_ttl c)\<rparr>"
proof -
  have "tab (conn (cache_insert S now url tag body age c)) url = Some (new_row (max_ttl c) now tag body age)"
    using insert_lru [OF assms(1), of url c now tag body] by (simp add: lru_evicted_def)
  moreover have "min (nat age) (max_ttl c) < 2 ^ 63" using assms(1,2) by auto
  ultimately show ?thesis using assms(3) by (simp add: lookup_tab new_row_def as_i64_def)
qed

end

section \<open>The rows that the program writes\<close>

text \<open>The size of a row is that of the body, the lifetime within the cap.\<close>

definition row_ok :: "nat \<Rightarrow> Row \<Rightarrow> bool" where
  "row_ok ttl r \<longleftrightarrow> row_size r = as_i64 (length (row_body r)) \<and> (\<exists>a. row_max_age r = as_i64 (min a ttl))"

definition cache_ok :: "('db \<Rightarrow> Table) \<Rightarrow> 'db Cache \<Rightarrow> bool" where
  "cache_ok tab c \<longleftrightarrow> (\<forall>u r. tab (conn c) u = Some r \<longrightarrow> row_ok (max_ttl c) r)"

lemma row_ok_new: "row_ok ttl (new_row ttl now tag body age)"
  by (auto simp: row_ok_def new_row_def)

lemma cache_ok_conn: "cache_ok tab (c\<lparr>conn := db\<rparr>) \<longleftrightarrow> (\<forall>u r. tab db u = Some r \<longrightarrow> row_ok (max_ttl c) r)"
  by (simp add: cache_ok_def)

lemma executed_ok:
  assumes "cache_ok tab c"
    and "\<And>db u r. x = Some db \<Longrightarrow> tab db u = Some r \<Longrightarrow> \<exists>r0. tab (conn c) u = Some r0 \<and> row_size r = row_size r0
        \<and> row_body r = row_body r0 \<and> row_max_age r = row_max_age r0"
  shows "cache_ok tab (executed x c)"
proof (cases x)
  case None
  with assms(1) show ?thesis by (simp add: executed_def)
next
  case (Some db)
  have "row_ok (max_ttl c) r" if "tab db u = Some r" for u r
    using assms(2) [OF Some that] assms(1) by (auto simp: cache_ok_def row_ok_def)
  with Some show ?thesis by (simp add: executed_def cache_ok_conn)
qed

context sqlite
begin

lemma insert_ok:
  assumes "cache_ok tab c"
  shows "cache_ok tab (cache_insert S now url tag body age c)"
    and "u \<noteq> url \<Longrightarrow> tab (conn (cache_insert S now url tag body age c)) u \<in> {None, tab (conn c) u}"
proof -
  consider (same) "cache_insert S now url tag body age c = c"
    | (new) db where "cache_insert S now url tag body age c = c\<lparr>conn := db\<rparr>"
        "tab db \<subseteq>\<^sub>m (tab (conn c))(url \<mapsto> new_row (max_ttl c) now tag body age)"
    using insert_cases [of now url tag body age c] by blast
  then have "cache_ok tab (cache_insert S now url tag body age c)
      \<and> (u \<noteq> url \<longrightarrow> tab (conn (cache_insert S now url tag body age c)) u \<in> {None, tab (conn c) u})"
  proof cases
    case same
    with assms show ?thesis by simp
  next
    case new
    have row: "tab db v = Some r \<Longrightarrow> (if v = url then r = new_row (max_ttl c) now tag body age else tab (conn c) v = Some r)" for v r
      using new(2) by (auto simp: map_le_def dom_def)
    then have "tab db v = Some r \<Longrightarrow> row_ok (max_ttl c) r" for v r
      using assms row_ok_new by (metis cache_ok_def)
    moreover have "u \<noteq> url \<Longrightarrow> tab db u \<in> {None, tab (conn c) u}"
      using row [of u] by (cases "tab db u") auto
    ultimately show ?thesis by (auto simp: new(1) cache_ok_conn)
  qed
  then show "cache_ok tab (cache_insert S now url tag body age c)"
    "u \<noteq> url \<Longrightarrow> tab (conn (cache_insert S now url tag body age c)) u \<in> {None, tab (conn c) u}" by blast+
qed

lemma updates_ok:
  assumes "cache_ok tab c"
  shows "cache_ok tab (touch_fresh S now url c)" "cache_ok tab (touch_last_used S now url c)"
    "cache_ok tab (cache_delete S url c)" "cache_ok tab (cache_clear S c)"
  unfolding touch_fresh_def touch_last_used_def cache_delete_def cache_clear_def
  by (rule executed_ok [OF assms];
      force dest!: touch_fresh_tab touch_last_used_tab delete_tab delete_all_tab split: if_splits)+

end

section \<open>An engine\<close>

text \<open>A table kept as an association list without repeated keys.\<close>

definition list_sql :: "(bytes, Row) alist Sql" where
  "list_sql =
     \<lparr>sql_get = (\<lambda>u db. DAList.lookup db u), sql_begin = (\<lambda>_. True),
      sql_upsert = (\<lambda>u r db. Some (DAList.update u r db)),
      sql_total = (\<lambda>db. Some (sum_list (map (\<lambda>(u, r). row_size r) (DAList.impl_of db)))),
      sql_by_last_used =
        (\<lambda>db. Some (map (\<lambda>(u, r). (u, row_size r)) (sort_key (\<lambda>(u, r). row_last_used r) (DAList.impl_of db)))),
      sql_delete = (\<lambda>u db. Some (DAList.delete u db)), sql_commit = (\<lambda>_. True),
      sql_touch_fresh = (\<lambda>t u db. Some (DAList.map_entry u (\<lambda>r. r\<lparr>row_fetched_at := t, row_last_used := t\<rparr>) db)),
      sql_touch_last_used = (\<lambda>t u db. Some (DAList.map_entry u (\<lambda>r. r\<lparr>row_last_used := t\<rparr>) db)),
      sql_delete_all = (\<lambda>_. Some DAList.empty),
      sql_newest = (\<lambda>k db. Some (take k (sort_key (\<lambda>(u, r). - row_last_used r) (DAList.impl_of db))))\<rparr>"

lemma impl_of_entries: "(u, r) \<in> set (DAList.impl_of db) \<longleftrightarrow> DAList.lookup db u = Some r"
  using impl_of_distinct [of db] by (transfer) (simp add: map_of_eq_Some_iff)

lemma finite_lookup: "finite (dom (DAList.lookup db))"
  by transfer (rule finite_dom_map_of)

lemma list_sql_map_entry: "DAList.lookup (DAList.map_entry u f db) = (DAList.lookup db)(u := map_option f (DAList.lookup db u))"
  by transfer (simp add: map_of_map_entry fun_eq_iff split: option.split)

lemma list_sql_total: "sum_list (map (\<lambda>(u, r). row_size r) (DAList.impl_of db)) = table_size (DAList.lookup db)"
proof -
  let ?l = "DAList.impl_of db"
  have d: "distinct (map fst ?l)" using impl_of_distinct .
  have "table_size (DAList.lookup db) = (\<Sum>u \<in> set (map fst ?l). row_size (the (map_of ?l u)))"
    unfolding table_size_def by (rule sum.cong) (transfer, simp add: dom_map_of_conv_image_fst)+
  also have "\<dots> = sum_list (map (\<lambda>u. row_size (the (map_of ?l u))) (map fst ?l))"
    using d by (metis sum_list_distinct_conv_sum_set)
  also have "\<dots> = sum_list (map (\<lambda>(u, r). row_size r) ?l)"
    using d by (auto intro!: arg_cong [where f = sum_list])
  finally show ?thesis ..
qed

lemma list_sql_order:
  fixes db :: "(bytes, Row) alist"
  shows
  "distinct (map fst (map (\<lambda>(u, r). (u, row_size r)) (sort_key (\<lambda>(u, r). row_last_used r) (DAList.impl_of db))))"
  "sorted (map (\<lambda>(u, _). row_last_used (the (DAList.lookup db u)))
     (map (\<lambda>(u, r). (u, row_size r)) (sort_key (\<lambda>(u, r). row_last_used r) (DAList.impl_of db))))"
proof -
  let ?l = "DAList.impl_of db" and ?k = "\<lambda>(u :: bytes, r). row_last_used r"
  have f: "fst \<circ> (\<lambda>(u, r). (u, row_size r)) = fst" by auto
  have "distinct (map fst (sort_key ?k ?l))" using impl_of_distinct [of db] by (simp add: distinct_map)
  then show "distinct (map fst (map (\<lambda>(u, r). (u, row_size r)) (sort_key ?k ?l)))" by (simp add: f)
  have "map (\<lambda>(u, _). row_last_used (the (DAList.lookup db u))) (map (\<lambda>(u, r). (u, row_size r)) (sort_key ?k ?l))
      = map ?k (sort_key ?k ?l)"
    by (auto simp: impl_of_entries)
  then show "sorted (map (\<lambda>(u, _). row_last_used (the (DAList.lookup db u)))
     (map (\<lambda>(u, r). (u, row_size r)) (sort_key ?k ?l)))" using sorted_sort_key [of ?k ?l] by metis
qed

lemma list_sql_newest:
  fixes db :: "(bytes, Row) alist" and k :: nat
  defines "rows \<equiv> take k (sort_key (\<lambda>(u, r). - row_last_used r) (DAList.impl_of db))"
  shows "distinct (map fst rows)" and "set rows \<subseteq> {(u, r). DAList.lookup db u = Some r}"
    and "length rows = min k (card (dom (DAList.lookup db)))" and "sorted (map (\<lambda>(u, r). - row_last_used r) rows)"
proof -
  let ?l = "DAList.impl_of db" and ?k = "\<lambda>(u :: bytes, r). - row_last_used r"
  have d: "distinct (map fst (sort_key ?k ?l))"
    using impl_of_distinct [of db] by (simp add: distinct_map)
  then show "distinct (map fst rows)" unfolding rows_def by (metis distinct_take take_map)
  show "set rows \<subseteq> {(u, r). DAList.lookup db u = Some r}"
    by (auto simp: rows_def impl_of_entries dest!: in_set_takeD)
  have "card (dom (DAList.lookup db)) = length ?l"
    using impl_of_distinct [of db] by transfer (metis card_length dom_map_of_conv_image_fst distinct_card length_map set_map)
  then show "length rows = min k (card (dom (DAList.lookup db)))" by (simp add: rows_def min.commute)
  have "sorted (map ?k (sort_key ?k ?l))" by simp
  then show "sorted (map ?k rows)" unfolding rows_def by (metis sorted_wrt_take take_map)
qed

interpretation table: healthy_sqlite list_sql DAList.lookup
  by unfold_locales
    (auto simp: list_sql_def list_sql_total list_sql_order [simplified] list_sql_newest [simplified] impl_of_entries DAList.lookup_update
      DAList.lookup_delete list_sql_map_entry finite_lookup)

section \<open>Properties\<close>

text \<open>
  C24: the size cap is an LRU policy. On an engine whose statements succeed, inserting a page stores it and
  then does what the replacement policy says and no more: only other pages are removed, the least
  recently used ones, until the stored bytes fit the cap or nothing but the new page is left, and
  no page is removed that would have fitted.
\<close>

theorem cache_insert_is_lru:
  assumes "healthy_sqlite S tab" and "0 \<le> age"
  shows "lru_evicted url (as_i64 (cap_bytes c)) ((tab (conn c))(url \<mapsto> new_row (max_ttl c) now tag body age))
           (tab (conn (cache_insert S now url tag body age c)))"
  by (rule healthy_sqlite.insert_lru [OF assms])

text \<open>
  C35: what was stored is found. After an insert the page is found with the etag and body it was
  stored with, with the lifetime the server gave, but no more than the client's cap on lifetimes; it
  is fresh for exactly that long.
\<close>

theorem cache_lookup_after_insert:
  assumes "healthy_sqlite S tab" and "0 \<le> age" and "age < 2 ^ 31" and "now < 2 ^ 63"
  shows "\<exists>h. lookup S url (cache_insert S now url tag body age c) = Some h
     \<and> hit_etag h = tag \<and> hit_body h = body
     \<and> (is_fresh h t \<longleftrightarrow> now * 1000 \<le> t \<and> t < (now + min (nat age) (max_ttl c)) * 1000)"
  using healthy_sqlite.lookup_insert [OF assms, of url tag body c] by (auto simp: is_fresh_def add_mult_distrib)

text \<open>
  The table stays well formed whatever fails. On any engine, with any of its statements failing at
  any time, every operation of the cache keeps the invariant that each row's recorded size is the
  length of its body and its lifetime within the cap; and an insert that takes effect
  leaves every other row as it was or removes it.
\<close>

theorem cache_stays_well_formed:
  assumes "sqlite S tab" and "cache_ok tab c"
  shows "cache_ok tab (cache_insert S now url tag body age c) \<and> cache_ok tab (touch_fresh S now url c)
     \<and> cache_ok tab (touch_last_used S now url c) \<and> cache_ok tab (cache_delete S url c) \<and> cache_ok tab (cache_clear S c)
     \<and> (u \<noteq> url \<longrightarrow> tab (conn (cache_insert S now url tag body age c)) u \<in> {None, tab (conn c) u})"
  using sqlite.insert_ok [OF assms] sqlite.updates_ok [OF assms] by blast

definition example_cache :: "(bytes, Row) alist Cache" where
  "example_cache = \<lparr>conn = DAList.empty, cap_bytes = 1000, max_ttl = 600\<rparr>"

lemma lookup_empty_map: "DAList.lookup DAList.empty = Map.empty"
  by (rule ext) simp

theorem cache_insert_is_lru_witness:
  "lru_evicted ''u'' 1000 [''u'' \<mapsto> new_row 600 5 ''t'' ''body'' 60]
     (DAList.lookup (conn (cache_insert list_sql 5 ''u'' ''t'' ''body'' 60 example_cache)))"
  using cache_insert_is_lru [OF table.healthy_sqlite_axioms, of 60 "''u''" example_cache 5 "''t''" "''body''"]
  by (simp add: example_cache_def as_i64_def lookup_empty_map)

theorem cache_lookup_after_insert_witness:
  "\<exists>h. lookup list_sql ''u'' (cache_insert list_sql 5 ''u'' ''t'' ''body'' 3600 example_cache) = Some h
     \<and> hit_etag h = ''t'' \<and> hit_body h = ''body'' \<and> is_fresh h 604999"
  using cache_lookup_after_insert [OF table.healthy_sqlite_axioms, of 3600 5 "''u''" "''t''" "''body''" example_cache 604999]
  by (simp add: example_cache_def)

theorem cache_stays_well_formed_witness:
  "cache_ok DAList.lookup (cache_insert list_sql 5 ''u'' ''t'' ''body'' 60 example_cache)"
  using cache_stays_well_formed [OF table.sqlite_axioms, of example_cache 5 "''u''" "''t''" "''body''" 60]
  by (simp add: cache_ok_def example_cache_def)

end
