(* ===== verification/Ui.thy ===== *)
theory Ui
  imports Client_Config
begin

text \<open>
  The pages of the local web interface (\<open>client/src/ui.rs\<close>), byte for byte: every template of the
  source as a text with the inserted values at their places, and the two escapes, \<open>h\<close> for HTML text
  and attributes and \<open>json_for_script\<close> for the script block. \<open>text_lines\<close> puts the newlines of a raw string
  literal between its lines.

  The theorem of this theory is that no inserted value changes the markup of a page.
\<close>

fun text_lines :: "bytes list \<Rightarrow> bytes" where
  "text_lines [] = []"
| "text_lines [l] = l"
| "text_lines (l # k # ls) = l @ LF # text_lines (k # ls)"

section \<open>Escapes\<close>

text \<open>The characters replaced are ASCII, so working byte by byte is working character by character.\<close>

definition escape_html :: "byte \<Rightarrow> bytes" where
  "escape_html c =
     (if c = CHR ''&'' then ''&amp;''
      else if c = CHR ''<'' then ''&lt;''
      else if c = CHR ''>'' then ''&gt;''
      else if c = CHR 0x22 then ''&quot;''
      else if c = CHR 0x27 then ''&#39;''
      else [c])"

definition h :: "bytes \<Rightarrow> bytes" where
  "h s = concat (map escape_html s)"

text \<open>\<open>str::replace\<close> of a character: one byte, or the three bytes of U+2028 and U+2029.\<close>

definition replace_byte :: "byte \<Rightarrow> bytes \<Rightarrow> bytes \<Rightarrow> bytes" where
  "replace_byte c r s = concat (map (\<lambda>b. if b = c then r else [b]) s)"

fun replace_three :: "byte \<times> byte \<times> byte \<Rightarrow> bytes \<Rightarrow> bytes \<Rightarrow> bytes" where
  "replace_three (a, b, c) r (x # y # z # s) =
     (if x = a \<and> y = b \<and> z = c then r @ replace_three (a, b, c) r s
      else x # replace_three (a, b, c) r (y # z # s))"
| "replace_three _ r s = s"

definition json_for_script :: "bytes \<Rightarrow> bytes" where
  "json_for_script s =
     replace_three (CHR 0xE2, CHR 0x80, CHR 0xA9) (CHR 0x5C # ''u2029'')
       (replace_three (CHR 0xE2, CHR 0x80, CHR 0xA8) (CHR 0x5C # ''u2028'')
         (replace_byte (CHR ''&'') (CHR 0x5C # ''u0026'')
           (replace_byte (CHR ''>'') (CHR 0x5C # ''u003e'')
             (replace_byte (CHR ''<'') (CHR 0x5C # ''u003c'') s))))"

section \<open>The style sheet\<close>

definition CSS :: bytes where
  \<open>CSS =
     text_lines
     [[],
      ''* { box-sizing: border-box; margin: 0; padding: 0; }'',
      ''body {'',
      ''    background: #0c1222;'',
      ''    color: #f1f5f9;'',
      ''    font-family: -apple-system, BlinkMacSystemFont, 'Segoe UI', sans-serif;'',
      ''    line-height: 1.6;'',
      ''    padding: 1em;'',
      ''    max-width: 900px;'',
      ''    margin: 0 auto;'',
      ''}'',
      ''h1, h2, h3 { margin: 0.5em 0; color: #22d3ee; }'',
      ''a { color: #22d3ee; }'',
      ''input, select, button, textarea {'',
      ''    background: #0f172a;'',
      ''    color: #f1f5f9;'',
      ''    border: 1px solid #1e293b;'',
      ''    padding: 0.5em 0.75em;'',
      ''    border-radius: 4px;'',
      ''    font-size: 1em;'',
      ''    font-family: inherit;'',
      ''}'',
      ''input:focus, select:focus, textarea:focus {'',
      ''    outline: none;'',
      ''    border-color: #22d3ee;'',
      ''}'',
      ''button {'',
      ''    background: #1e293b;'',
      ''    cursor: pointer;'',
      ''    transition: background 0.2s;'',
      ''}'',
      ''button:hover { background: #334155; }'',
      ''button:disabled { opacity: 0.5; cursor: not-allowed; }'',
      ''button.primary { background: #16a34a; }'',
      ''button.primary:hover { background: #22c55e; }'',
      ''button.danger { background: #dc2626; }'',
      ''button.danger:hover { background: #ef4444; }'',
      ''.form-group {'',
      ''    margin-bottom: 1em;'',
      ''}'',
      ''.form-group label {'',
      ''    display: block;'',
      ''    margin-bottom: 0.25em;'',
      ''    color: #22d3ee;'',
      ''    font-size: 0.9em;'',
      ''}'',
      ''.form-group input, .form-group select {'',
      ''    width: 100%;'',
      ''}'',
      ''.form-group input[type="checkbox"] {'',
      ''    width: auto;'',
      ''    margin: 0.25em 0 0;'',
      ''}'',
      ''.modal-backdrop {'',
      ''    position: fixed;'',
      ''    inset: 0;'',
      ''    background: rgba(12, 18, 34, 0.75);'',
      ''    display: flex;'',
      ''    align-items: center;'',
      ''    justify-content: center;'',
      ''    z-index: 1000;'',
      ''    padding: 1em;'',
      ''}'',
      ''.modal {'',
      ''    background: #0f172a;'',
      ''    border: 1px solid #1e293b;'',
      ''    border-radius: 8px;'',
      ''    padding: 1.25em 1.5em;'',
      ''    max-width: 640px;'',
      ''    width: 100%;'',
      ''    max-height: 90vh;'',
      ''    overflow-y: auto;'',
      ''    box-shadow: 0 10px 30px rgba(0, 0, 0, 0.5);'',
      ''}'',
      ''.consent-disclaimer {'',
      ''    background: #0c1222;'',
      ''    border: 1px solid #1e293b;'',
      ''    border-radius: 4px;'',
      ''    padding: 0.75em 1em;'',
      ''    color: #f1f5f9;'',
      ''    /* Prose, not code: inherit the page body font instead of forcing a'',
      ''       monospace stack whose named fonts (SF Mono, Consolas) don't exist on'',
      ''       Linux and fall back to the ugly default `monospace` glyphs. */'',
      ''    font-family: inherit;'',
      ''    font-size: 0.95em;'',
      ''    line-height: 1.5;'',
      ''    white-space: pre-wrap;'',
      ''    word-break: break-word;'',
      ''    margin: 0.75em 0;'',
      ''}'',
      ''.status-badge {'',
      ''    display: inline-block;'',
      ''    padding: 0.25em 0.75em;'',
      ''    border-radius: 12px;'',
      ''    font-size: 0.85em;'',
      ''    font-weight: bold;'',
      ''}'',
      ''.status-disconnected { background: #450a0a; color: #ef4444; }'',
      ''.status-agwpe-connected { background: #052e16; color: #22c55e; }'',
      ''.status-connecting { background: #422006; color: #fbbf24; }'',
      ''.status-reconnecting { background: #422006; color: #fbbf24; }'',
      ''.status-connected { background: #052e16; color: #22c55e; }'',
      ''.status-error { background: #450a0a; color: #ef4444; }'',
      ''.btn-row {'',
      ''    display: flex;'',
      ''    gap: 0.5em;'',
      ''    margin-top: 1em;'',
      ''}'',
      ''.card {'',
      ''    background: #0f172a;'',
      ''    border: 1px solid #1e293b;'',
      ''    border-radius: 8px;'',
      ''    padding: 1em;'',
      ''    margin-bottom: 1em;'',
      ''}'',
      ''.debug-log {'',
      ''    /* System monospace fallback chain: try the OS's own before dropping to'',
      ''       the CSS generic, which on Linux without SF Mono/Fira Code/Consolas'',
      ''       renders as an unstyled bitmap. */'',
      ''    font-family: ui-monospace, 'Cascadia Mono', 'JetBrains Mono', 'DejaVu Sans Mono', 'Liberation Mono', Menlo, Consolas, monospace;'',
      ''    font-size: 0.8em;'',
      ''    background: #020617;'',
      ''    border: 1px solid #1e293b;'',
      ''    border-radius: 4px;'',
      ''    padding: 0.5em;'',
      ''    height: 300px;'',
      ''    overflow-y: auto;'',
      ''    white-space: pre-wrap;'',
      ''    word-break: break-all;'',
      ''}'',
      ''.debug-log .log-entry { margin-bottom: 2px; }'',
      ''.debug-log .log-info { color: #22d3ee; }'',
      ''.debug-log .log-debug { color: #64748b; }'',
      ''.debug-log .log-trace { color: #475569; }'',
      ''.debug-log .log-tx { color: #fbbf24; }'',
      ''.debug-log .log-rx { color: #22c55e; }'',
      ''.debug-log .log-error { color: #ef4444; }'',
      ''.debug-log .log-state { color: #a78bfa; }'',
      ''.log-controls {'',
      ''    display: flex;'',
      ''    gap: 0.5em;'',
      ''    margin-bottom: 0.5em;'',
      ''    align-items: center;'',
      ''}'',
      ''.log-controls label { font-size: 0.85em; color: #22d3ee; }'',
      ''.log-controls select { padding: 0.25em 0.5em; font-size: 0.85em; }'',
      ''nav {'',
      ''    display: flex;'',
      ''    gap: 1em;'',
      ''    margin-bottom: 1em;'',
      ''    padding-bottom: 0.5em;'',
      ''    border-bottom: 1px solid #1e293b;'',
      ''}'',
      ''nav a {'',
      ''    text-decoration: none;'',
      ''    padding: 0.25em 0.5em;'',
      ''    border-radius: 4px;'',
      ''}'',
      ''nav a:hover { background: #1e293b; }'',
      ''nav a.active { background: #1e293b; color: #f1f5f9; }'',
      ''.msg { padding: 0.5em 0.75em; border-radius: 4px; margin-bottom: 1em; }'',
      ''.msg-success { background: #052e16; color: #22c55e; border: 1px solid #22c55e; }'',
      ''.msg-error { background: #450a0a; color: #ef4444; border: 1px solid #ef4444; }'',
      ''.browse-bar {'',
      ''    display: flex;'',
      ''    gap: 0.5em;'',
      ''    margin-bottom: 1em;'',
      ''}'',
      ''.browse-bar input { flex: 1; }'',
      []]\<close>

section \<open>Error pages\<close>

definition error_page :: "bytes \<Rightarrow> bytes" where
  \<open>error_page message =
     text_lines
       [''<!DOCTYPE html>'',
        ''<html lang="en">'',
        ''<head>'',
        ''    <meta charset="utf-8">'',
        ''    <meta name="viewport" content="width=device-width, initial-scale=1">'',
        ''    <title>Packet Browser - Error</title>'',
        ''    <style>'']
     @ CSS
     @ text_lines
       [''</style>'',
        ''</head>'',
        ''<body>'',
        ''    <nav>'',
        ''        <a href="/connect">Connect</a>'',
        ''        <a href="/browse">Browse</a>'',
        ''        <a href="/configuration">Configuration</a>'',
        ''    </nav>'',
        [],
        ''    <h1>Error</h1>'',
        ''    <div class="card">'',
        ''        <p class="msg msg-error">'']
     @ h message
     @ text_lines
       [''</p>'',
        ''        <p><a href="/connect">Return to Connect page</a></p>'',
        ''    </div>'',
        ''</body>'',
        ''</html>'']\<close>

definition render_session_error_page :: "bytes \<Rightarrow> bool \<Rightarrow> bytes" where
  \<open>render_session_error_page message show_reconnect_link =
    (let reconnect_link = (if show_reconnect_link then ''<p><a href="/connect">Reconnect</a></p>'' else []) in
     text_lines
       [''<!DOCTYPE html>'',
        ''<html lang="en"><head><meta charset="utf-8"><title>Session error</title><style>'']
     @ CSS
     @ text_lines
       [''</style></head>'',
        ''<body style="font-family: sans-serif; max-width: 600px; margin: 4em auto; padding: 1em;">'',
        ''<h1>Session error</h1>'',
        ''<p>'']
     @ h message
     @ text_lines
       [''</p>'',
        []]
     @ reconnect_link
     @ text_lines
       [[],
        ''</body></html>''])\<close>

section \<open>The page around fetched content\<close>

definition browse_style :: bytes where
  \<open>browse_style =
     text_lines
     [''<!DOCTYPE html>'',
      ''<html lang="en">'',
      ''<head>'',
      ''    <meta charset="utf-8">'',
      ''    <meta name="viewport" content="width=device-width, initial-scale=1">'',
      ''    <meta http-equiv="Content-Security-Policy" content="default-src 'none'; style-src 'unsafe-inline'; img-src data:; form-action 'self'; base-uri 'none'; frame-ancestors 'none'">'',
      ''    <title>Packet Browser</title>'',
      ''    <style>'',
      ''    .browse-header, .browse-header * {'',
      ''        box-sizing: border-box;'',
      ''        margin: 0;'',
      ''        padding: 0;'',
      ''        font-family: -apple-system, BlinkMacSystemFont, 'Segoe UI', sans-serif;'',
      ''    }'',
      ''    .browse-header {'',
      ''        position: fixed;'',
      ''        top: 0;'',
      ''        left: 0;'',
      ''        right: 0;'',
      ''        z-index: 2147483647;'',
      ''        background: #0f172a;'',
      ''        color: #f1f5f9;'',
      ''        border-bottom: 1px solid #1e293b;'',
      ''        padding: 0.5em 1em;'',
      ''        display: flex;'',
      ''        gap: 0.5em;'',
      ''        align-items: center;'',
      ''    }'',
      ''    .browse-header a {'',
      ''        color: #22d3ee;'',
      ''        font-size: 0.85em;'',
      ''        white-space: nowrap;'',
      ''        text-decoration: none;'',
      ''    }'',
      ''    .browse-header a:hover { text-decoration: underline; }'',
      ''    .browse-header input {'',
      ''        background: #0c1222;'',
      ''        color: #f1f5f9;'',
      ''        border: 1px solid #1e293b;'',
      ''        border-radius: 4px;'',
      ''        padding: 0.4em 0.6em;'',
      ''        font-size: 0.9em;'',
      ''        flex: 1;'',
      ''    }'',
      ''    .browse-header input:focus { outline: none; border-color: #22d3ee; }'',
      ''    .browse-header button {'',
      ''        background: #16a34a;'',
      ''        color: #f1f5f9;'',
      ''        border: 1px solid #1e293b;'',
      ''        border-radius: 4px;'',
      ''        padding: 0.4em 0.9em;'',
      ''        font-size: 0.9em;'',
      ''        cursor: pointer;'',
      ''    }'',
      ''    .browse-header button:hover { background: #22c55e; }'',
      ''    /* Leave room for the fixed header so fetched content isn't hidden under'',
      ''       it. margin-top lives on browse-content (not body) so we don't fight'',
      ''       with body-level rules from the fetched CSS. */'',
      ''    .browse-content { margin-top: 3.25em; }'',
      ''    </style>'',
      []]\<close>

definition browse_bar :: bytes where
  \<open>browse_bar =
     text_lines
     [''</head>'',
      ''<body>'',
      ''    <div class="browse-header">'',
      ''        <a href="/connect">Connect</a>'',
      ''        <a href="/configuration">Config</a>'',
      ''        <a href="/cache">Cache</a>'',
      ''        <a href="/browse?url='']\<close>

definition browse_form :: bytes where
  \<open>browse_form =
     text_lines
     [''&amp;nocache=1" title="Bypass cache and refetch">Reload</a>'',
      ''        <form action="/browse" method="GET" style="display:flex;gap:0.5em;flex:1;margin:0">'',
      ''            <input type="text" name="url" value="'']\<close>

definition browse_frame :: bytes where
  \<open>browse_frame =
     text_lines
     [''" placeholder="Enter a URL, e.g. https://example.com" autocomplete="off" autofocus>'',
      ''            <button type="submit">Go</button>'',
      ''        </form>'',
      ''    </div>'',
      ''    <div class="browse-content">'',
      ''        '']\<close>

definition browse_page :: "bytes \<Rightarrow> bytes \<Rightarrow> bytes" where
  \<open>browse_page html_content url =
    (let escaped_url = h url in
     browse_style
     @ browse_bar
     @ escaped_url
     @ browse_form
     @ escaped_url
     @ browse_frame
     @ html_content
     @ text_lines
       [[],
        ''    </div>'',
        ''</body>'',
        ''</html>''])\<close>

section \<open>The connect page\<close>

definition connect_head :: bytes where
  \<open>connect_head =
     text_lines
     [''<!DOCTYPE html>'',
      ''<html lang="en">'',
      ''<head>'',
      ''    <meta charset="utf-8">'',
      ''    <meta name="viewport" content="width=device-width, initial-scale=1">'',
      ''    <meta http-equiv="Content-Security-Policy" content="default-src 'self'; script-src 'unsafe-inline'; style-src 'unsafe-inline'; connect-src 'self'; form-action 'self'; frame-ancestors 'none'; base-uri 'none'">'',
      ''    <title>Packet Browser - Connect</title>'',
      ''    <style>'']\<close>

definition connect_nav :: bytes where
  \<open>connect_nav =
     text_lines
     [''</style>'',
      ''</head>'',
      ''<body>'',
      ''    <nav>'',
      ''        <a href="/connect" class="active">Connect</a>'',
      ''        <a href="/browse">Browse</a>'',
      ''        <a href="/configuration">Configuration</a>'',
      ''    </nav>'',
      [],
      ''    <h1>Packet Browser</h1>'',
      [],
      ''    <div class="card">'',
      ''        <h2>Connection</h2>'',
      ''        <p>Status: <span id="status-badge" class="status-badge '']\<close>

definition connect_ports :: bytes where
  \<open>connect_ports =
     text_lines
     [''>'',
      ''            <div class="form-group">'',
      ''                <label for="port-select">AGWPE Port</label>'',
      ''                <select id="port-select">'',
      ''                    <option value="">-- query AGWPE for ports --</option>'',
      ''                </select>'',
      ''            </div>'',
      ''        </div>'',
      [],
      ''        <div id="vara-fields"'']\<close>

definition connect_panels :: bytes where
  \<open>connect_panels =
     text_lines
     [''>BW2750</option>'',
      ''                </select>'',
      ''            </div>'',
      ''        </div>'',
      [],
      ''        <div class="btn-row">'',
      ''            <button id="btn-agwpe" onclick="connectAgwpe()">Connect to AGWPE</button>'',
      ''            <button id="btn-connect" class="primary" onclick="ax25Connect()" disabled>AX.25 Connect</button>'',
      ''            <button id="btn-disconnect" class="danger" onclick="ax25Disconnect()" disabled>Disconnect</button>'',
      ''        </div>'',
      ''    </div>'',
      [],
      ''    <div id="msg-area"></div>'',
      [],
      ''    <div id="consent-modal" class="modal-backdrop" style="display:none" role="dialog" aria-modal="true" aria-labelledby="consent-modal-title">'',
      ''        <div class="modal">'',
      ''            <h2 id="consent-modal-title">Confirm connection</h2>'',
      ''            <p>The remote station is asking you to acknowledge the following notice before continuing:</p>'',
      ''            <pre id="consent-disclaimer" class="consent-disclaimer"></pre>'',
      ''            <p>Only agree if you accept the notice above.</p>'',
      ''            <div class="btn-row">'',
      ''                <button class="primary" onclick="submitConsent(true)">I Agree</button>'',
      ''                <button class="danger" onclick="submitConsent(false)">Decline &amp; Disconnect</button>'',
      ''            </div>'',
      ''        </div>'',
      ''    </div>'',
      [],
      ''    <div class="card">'',
      ''        <h2>Debug Log</h2>'',
      ''        <div class="log-controls">'',
      ''            <label for="log-filter">Level:</label>'',
      ''            <select id="log-filter" onchange="filterLogs()">'',
      ''                <option value="all">All</option>'',
      ''                <option value="info">Info</option>'',
      ''                <option value="debug">Debug</option>'',
      ''                <option value="trace">Trace</option>'',
      ''            </select>'',
      ''            <button onclick="clearLogs()">Clear</button>'',
      ''        </div>'',
      ''        <div id="debug-log" class="debug-log"></div>'',
      ''    </div>'',
      [],
      ''    <script>'',
      ''        let ports = '']\<close>

definition connect_script_ports :: bytes where
  \<open>connect_script_ports =
     text_lines
     ['';'',
      ''        let logEntries = [];'',
      ''        let eventSource = null;'',
      [],
      ''        function initPorts() {'',
      ''            const sel = document.getElementById('port-select');'',
      ''            sel.innerHTML = '' @ [CHR 0x27, CHR 0x27] @ '';'',
      ''            if (ports.length === 0) {'',
      ''                sel.innerHTML = '<option value="">-- no ports found --</option>';'',
      ''                return;'',
      ''            }'',
      ''            ports.forEach(p => {'',
      ''                const opt = document.createElement('option');'',
      ''                opt.value = p.port_num;'',
      ''                opt.textContent = p.port_num + ': ' + p.description;'',
      ''                sel.appendChild(opt);'',
      ''            });'',
      ''        }'',
      [],
      ''        function updateUI(state) {'',
      ''            const badge = document.getElementById('status-badge');'',
      ''            badge.textContent = state;'',
      ''            badge.className = 'status-badge status-' + state.toLowerCase().replace(/[^a-z]/g, '-');'',
      [],
      ''            const btnAgwpe = document.getElementById('btn-agwpe');'',
      ''            const btnConnect = document.getElementById('btn-connect');'',
      ''            const btnDisconnect = document.getElementById('btn-disconnect');'',
      [],
      ''            const busy = (state === 'Connecting' || state === 'Awaiting consent');'',
      ''            btnAgwpe.disabled = (state === 'AGWPE Connected' || busy || state === 'Connected');'',
      ''            btnConnect.disabled = (state !== 'AGWPE Connected');'',
      ''            btnDisconnect.disabled = (state !== 'Connected' && !busy);'',
      [],
      ''            if (state === 'Awaiting consent') {'',
      ''                openConsentModal();'',
      ''            } else {'',
      ''                closeConsentModal();'',
      ''            }'',
      ''        }'',
      [],
      []]\<close>

definition connect_script_consent :: bytes where
  \<open>connect_script_consent =
     text_lines
     [''        let consentOpen = false;'',
      ''        async function openConsentModal() {'',
      ''            if (consentOpen) return;'',
      ''            consentOpen = true;'',
      ''            try {'',
      ''                const resp = await fetch('/api/consent');'',
      ''                const data = await resp.json();'',
      ''                if (!data.awaiting) { consentOpen = false; return; }'',
      ''                document.getElementById('consent-disclaimer').textContent ='',
      ''                    data.disclaimer || '(no disclaimer text provided)';'',
      ''                document.getElementById('consent-modal').style.display = 'flex';'',
      ''            } catch (e) {'',
      ''                consentOpen = false;'',
      ''                showMsg('Could not fetch consent prompt: ' + e.message, true);'',
      ''            }'',
      ''        }'',
      [],
      ''        function closeConsentModal() {'',
      ''            document.getElementById('consent-modal').style.display = 'none';'',
      ''            consentOpen = false;'',
      ''        }'',
      [],
      ''        async function submitConsent(accepted) {'',
      ''            closeConsentModal();'',
      ''            try {'',
      ''                const resp = await fetch('/api/consent', {'',
      ''                    method: 'POST','',
      ''                    headers: { 'Content-Type': 'application/json' },'',
      ''                    body: JSON.stringify({ accepted: accepted })'',
      ''                });'',
      ''                const data = await resp.json();'',
      ''                if (!data.ok) {'',
      ''                    showMsg(data.error || 'Consent submission failed', true);'',
      ''                    return;'',
      ''                }'',
      ''                if (!accepted) {'',
      ''                    showMsg('Declined. Disconnecting.');'',
      ''                    // Give the background handshake a moment to unwind, then'',
      ''                    // force-tear-down so we don't leave a half-open session.'',
      ''                    setTimeout(() => { ax25Disconnect(); }, 250);'',
      ''                }'',
      ''            } catch (e) {'',
      ''                showMsg('Error: ' + e.message, true);'',
      ''            }'',
      ''        }'',
      [],
      ''        function showMsg(text, isError) {'',
      ''            const area = document.getElementById('msg-area');'',
      ''            area.innerHTML = '<div class="msg ' + (isError ? 'msg-error' : 'msg-success') + '">' + text + '</div>';'',
      ''            setTimeout(() => area.innerHTML = '' @ [CHR 0x27, CHR 0x27] @ '', 5000);'',
      ''        }'',
      [],
      []]\<close>

definition connect_script_link :: bytes where
  \<open>connect_script_link =
     text_lines
     [''        async function connectAgwpe() {'',
      ''            const btn = document.getElementById('btn-agwpe');'',
      ''            btn.disabled = true;'',
      ''            btn.textContent = 'Connecting...';'',
      ''            try {'',
      ''                const resp = await fetch('/api/agwpe-status', { method: 'POST' });'',
      ''                const data = await resp.json();'',
      ''                if (data.ok) {'',
      ''                    ports = data.ports || [];'',
      ''                    initPorts();'',
      ''                    updateUI(data.state);'',
      ''                    showMsg('Connected to AGWPE');'',
      ''                } else {'',
      ''                    updateUI(data.state || 'Error');'',
      ''                    showMsg(data.error || 'Failed to connect to AGWPE', true);'',
      ''                }'',
      ''            } catch (e) {'',
      ''                showMsg('Error: ' + e.message, true);'',
      ''                updateUI('Error');'',
      ''            }'',
      ''            btn.textContent = 'Connect to AGWPE';'',
      ''        }'',
      [],
      ''        async function ax25Connect() {'',
      ''            const target = document.getElementById('target-call').value.trim();'',
      ''            const portNum = document.getElementById('port-select').value;'',
      ''            if (!target) { showMsg('Enter a target callsign', true); return; }'',
      ''            if (portNum === '' @ [CHR 0x27, CHR 0x27] @ '') { showMsg('Select an AGWPE port first', true); return; }'',
      [],
      ''            const btn = document.getElementById('btn-connect');'',
      ''            btn.disabled = true;'',
      ''            btn.textContent = 'Connecting...';'',
      ''            updateUI('Connecting');'',
      ''            try {'',
      ''                const resp = await fetch('/api/connect', {'',
      ''                    method: 'POST','',
      ''                    headers: { 'Content-Type': 'application/json' },'',
      ''                    body: JSON.stringify({ target_callsign: target, port_num: parseInt(portNum) })'',
      ''                });'',
      ''                const data = await resp.json();'',
      ''                if (data.ok) {'',
      ''                    updateUI('Connected');'',
      ''                    showMsg('AX.25 connected to ' + target + '. Opening browser'' @ [CHR 0xE2, CHR 0x80, CHR 0xA6, CHR 0x27] @ '');'',
      ''                    // Send the user straight to the browse UI so there's an'',
      ''                    // obvious next step; the connect page has no other job'',
      ''                    // once the link is up.'',
      ''                    window.location.href = '/browse';'',
      ''                    return;'',
      ''                } else {'',
      ''                    updateUI(data.state || 'Error');'',
      ''                    showMsg(data.error || 'Connection failed', true);'',
      ''                }'',
      ''            } catch (e) {'',
      ''                showMsg('Error: ' + e.message, true);'',
      ''                updateUI('Error');'',
      ''            }'',
      ''            btn.textContent = 'AX.25 Connect';'',
      ''            btn.disabled = false;'',
      ''        }'',
      [],
      ''        async function ax25Disconnect() {'',
      ''            try {'',
      ''                const resp = await fetch('/api/disconnect', { method: 'POST' });'',
      ''                const data = await resp.json();'',
      ''                updateUI('Disconnected');'',
      ''                showMsg('Disconnected');'',
      ''            } catch (e) {'',
      ''                showMsg('Error: ' + e.message, true);'',
      ''            }'',
      ''        }'',
      [],
      []]\<close>

definition connect_script_log :: bytes where
  \<open>connect_script_log =
     text_lines
     [''        function addLogEntry(entry) {'',
      ''            logEntries.push(entry);'',
      ''            if (logEntries.length > 1000) logEntries.shift();'',
      ''            renderLogs();'',
      ''        }'',
      [],
      ''        function renderLogs() {'',
      ''            const log = document.getElementById('debug-log');'',
      ''            const filter = document.getElementById('log-filter').value;'',
      ''            let html = '' @ [CHR 0x27, CHR 0x27] @ '';'',
      ''            for (const e of logEntries) {'',
      ''                if (filter !== 'all' && e.level.toLowerCase() !== filter) continue;'',
      ''                const dir = e.direction ? ('[' + e.direction + '] ') : '' @ [CHR 0x27, CHR 0x27] @ '';'',
      ''                const cls = 'log-entry log-' + e.level.toLowerCase()'',
      ''                    + (e.direction ? ' log-' + e.direction.toLowerCase() : '' @ [CHR 0x27, CHR 0x27] @ '')'',
      ''                    + (e.category === 'STATE' ? ' log-state' : '' @ [CHR 0x27, CHR 0x27] @ '')'',
      ''                    + (e.category === 'ERROR' ? ' log-error' : '' @ [CHR 0x27, CHR 0x27] @ '');'',
      ''                const ts = e.timestamp ? e.timestamp.substring(11, 23) : '' @ [CHR 0x27, CHR 0x27] @ '';'',
      ''                html += '<div class="' + cls + '">' + ts + ' ' + dir + e.category + ': ' + escapeHtml(e.message) + '</div>';'',
      ''            }'',
      ''            log.innerHTML = html;'',
      ''            log.scrollTop = log.scrollHeight;'',
      ''        }'',
      [],
      ''        function filterLogs() { renderLogs(); }'',
      [],
      ''        function clearLogs() {'',
      ''            logEntries = [];'',
      ''            renderLogs();'',
      ''        }'',
      [],
      ''        function escapeHtml(s) {'',
      ''            const d = document.createElement('div');'',
      ''            d.textContent = s;'',
      ''            return d.innerHTML;'',
      ''        }'',
      [],
      ''        function onTransportChange() {'',
      ''            const t = document.getElementById('transport').value;'',
      ''            const ax25Fields = document.getElementById('ax25-fields');'',
      ''            const varaFields = document.getElementById('vara-fields');'',
      ''            if (t === 'ax25') {'',
      ''                ax25Fields.removeAttribute('hidden');'',
      ''                varaFields.setAttribute('hidden', '' @ [CHR 0x27, CHR 0x27] @ '');'',
      ''            } else {'',
      ''                ax25Fields.setAttribute('hidden', '' @ [CHR 0x27, CHR 0x27] @ '');'',
      ''                varaFields.removeAttribute('hidden');'',
      ''            }'',
      ''        }'',
      [],
      ''        function connectSSE() {'',
      ''            if (eventSource) eventSource.close();'',
      ''            eventSource = new EventSource('/events');'',
      ''            eventSource.onmessage = function(event) {'',
      ''                try {'',
      ''                    const entry = JSON.parse(event.data);'',
      ''                    addLogEntry(entry);'',
      ''                    // State transitions arrive as STATE-category log lines of'',
      ''                    // the form "State changed to: <name>". Parse them so the'',
      ''                    // UI can react to the AwaitingConsent '' @ [CHR 0xE2, CHR 0x86, CHR 0x92] @ '' Connected flip'',
      ''                    // even while /api/connect is still awaiting server-side.'',
      ''                    if (entry.category === 'STATE') {'',
      ''                        const m = /^State changed to:'' @ [CHR 0x5C] @ ''s*(.+)$/.exec(entry.message);'',
      ''                        if (m) updateUI(m[1].trim());'',
      ''                    }'',
      ''                } catch (e) {}'',
      ''            };'',
      ''            eventSource.onerror = function() {'',
      ''                setTimeout(connectSSE, 3000);'',
      ''            };'',
      ''        }'',
      [],
      []]\<close>

definition connect_script_init :: bytes where
  \<open>connect_script_init =
     text_lines
     [''        initPorts();'',
      ''        updateUI('' @ [CHR 0x27]]\<close>

definition connect_start :: bytes where
  \<open>connect_start =
     text_lines
     [[CHR 0x27] @ '');'',
      ''        connectSSE();'',
      [],
      ''        fetch('/api/agwpe-status').then(r => r.json()).then(data => {'',
      ''            if (data.ports) {'',
      ''                ports = data.ports;'',
      ''                initPorts();'',
      ''            }'',
      ''            if (data.state) updateUI(data.state);'',
      ''        }).catch(() => {});'',
      ''    </script>'',
      ''</body>'',
      ''</html>'']\<close>

definition selected_if :: "bool \<Rightarrow> bytes" where
  "selected_if b = (if b then '' selected'' else [])"

definition hidden_unless :: "bool \<Rightarrow> bytes" where
  "hidden_unless b = (if b then [] else '' hidden'')"

definition connect_page ::
  "bytes \<Rightarrow> bytes \<Rightarrow> bytes \<Rightarrow> bytes \<Rightarrow> bytes \<Rightarrow> TransportKind \<Rightarrow> VaraParams \<Rightarrow> bytes" where
  \<open>connect_page my_call target_call state state_class ports_json dflt vp =
     connect_head
     @ CSS
     @ connect_nav
     @ h state_class
     @ ''">''
     @ h state
     @ text_lines
       [''</span></p>'',
        [],
        ''        <div class="form-group">'',
        ''            <label for="my-call">My Callsign</label>'',
        ''            <input type="text" id="my-call" value="'']
     @ h my_call
     @ text_lines
       [''" placeholder="N0CALL" autocomplete="off">'',
        ''        </div>'',
        [],
        ''        <div class="form-group">'',
        ''            <label for="target-call">Target Callsign</label>'',
        ''            <input type="text" id="target-call" value="'']
     @ h target_call
     @ text_lines
       [''" placeholder="NODE1" autocomplete="off">'',
        ''        </div>'',
        [],
        ''        <div class="form-group">'',
        ''            <label for="transport">Transport</label>'',
        ''            <select id="transport" onchange="onTransportChange()">'',
        ''                <option value="ax25"'']
     @ selected_if (dflt = Ax25)
     @ text_lines
       [''>AX.25 (AGWPE)</option>'',
        ''                <option value="vara_fm"'']
     @ selected_if (dflt = VaraFm)
     @ text_lines
       [''>VARA FM</option>'',
        ''                <option value="vara_hf"'']
     @ selected_if (dflt = VaraHf)
     @ text_lines
       [''>VARA HF</option>'',
        ''            </select>'',
        ''        </div>'',
        [],
        ''        <div id="ax25-fields"'']
     @ hidden_unless (dflt = Ax25)
     @ connect_ports
     @ hidden_unless (dflt \<noteq> Ax25)
     @ text_lines
       [''>'',
        ''            <div class="form-group">'',
        ''                <label for="vara-cmd-host">VARA Command Host</label>'',
        ''                <input type="text" id="vara-cmd-host" value="'']
     @ h (cmd_host vp)
     @ text_lines
       [''" placeholder="127.0.0.1" autocomplete="off">'',
        ''            </div>'',
        ''            <div class="form-group">'',
        ''                <label for="vara-cmd-port">VARA Command Port</label>'',
        ''                <input type="number" id="vara-cmd-port" value="'']
     @ nat_to_string (cmd_port vp)
     @ text_lines
       [''" min="1" max="65535">'',
        ''            </div>'',
        ''            <div class="form-group">'',
        ''                <label for="vara-data-host">VARA Data Host</label>'',
        ''                <input type="text" id="vara-data-host" value="'']
     @ h (data_host vp)
     @ text_lines
       [''" placeholder="127.0.0.1" autocomplete="off">'',
        ''            </div>'',
        ''            <div class="form-group">'',
        ''                <label for="vara-data-port">VARA Data Port</label>'',
        ''                <input type="number" id="vara-data-port" value="'']
     @ nat_to_string (data_port vp)
     @ text_lines
       [''" min="1" max="65535">'',
        ''            </div>'',
        ''            <div class="form-group">'',
        ''                <label for="vara-bandwidth">Bandwidth</label>'',
        ''                <select id="vara-bandwidth">'',
        ''                    <option value="vnarrow"'']
     @ selected_if (bandwidth vp = VNarrow)
     @ text_lines
       [''>VNarrow</option>'',
        ''                    <option value="vwide"'']
     @ selected_if (bandwidth vp = VWide)
     @ text_lines
       [''>VWide</option>'',
        ''                    <option value="bw250"'']
     @ selected_if (bandwidth vp = Bw250)
     @ text_lines
       [''>BW250</option>'',
        ''                    <option value="bw500"'']
     @ selected_if (bandwidth vp = Bw500)
     @ text_lines
       [''>BW500</option>'',
        ''                    <option value="bw2300"'']
     @ selected_if (bandwidth vp = Bw2300)
     @ text_lines
       [''>BW2300</option>'',
        ''                    <option value="bw2750"'']
     @ selected_if (bandwidth vp = Bw2750)
     @ connect_panels
     @ json_for_script ports_json
     @ connect_script_ports
     @ connect_script_consent
     @ connect_script_link
     @ connect_script_log
     @ connect_script_init
     @ h state
     @ connect_start\<close>

section \<open>The configuration page\<close>

definition configuration_head :: bytes where
  \<open>configuration_head =
     text_lines
     [''<!DOCTYPE html>'',
      ''<html lang="en">'',
      ''<head>'',
      ''    <meta charset="utf-8">'',
      ''    <meta name="viewport" content="width=device-width, initial-scale=1">'',
      ''    <meta http-equiv="Content-Security-Policy" content="default-src 'self'; script-src 'unsafe-inline'; style-src 'unsafe-inline'; connect-src 'self'; form-action 'self'; frame-ancestors 'none'; base-uri 'none'">'',
      ''    <title>Packet Browser - Configuration</title>'',
      ''    <style>'']\<close>

definition configuration_form :: bytes where
  \<open>configuration_form =
     text_lines
     [''</style>'',
      ''</head>'',
      ''<body>'',
      ''    <nav>'',
      ''        <a href="/connect">Connect</a>'',
      ''        <a href="/browse">Browse</a>'',
      ''        <a href="/configuration" class="active">Configuration</a>'',
      ''    </nav>'',
      [],
      ''    <h1>Configuration</h1>'',
      [],
      ''    <div id="msg-area"></div>'',
      [],
      ''    <div class="card">'',
      ''        <h2>AGWPE Settings</h2>'',
      [],
      ''        <div class="form-group">'',
      ''            <label for="agwpe-host">AGWPE Host</label>'',
      ''            <input type="text" id="agwpe-host" value="'']\<close>

definition configuration_skip :: bytes where
  \<open>configuration_skip =
     text_lines
     ['' onchange="updateBpqCommandVisibility()">'',
      ''            <small>Enable if connecting directly to a node SSID that doesn't require an application command</small>'',
      ''        </div>'',
      [],
      ''        <div class="form-group" id="bpq-command-group">'',
      ''            <label for="bpq-command">BPQ Application Command</label>'',
      ''            <input type="text" id="bpq-command" value="'']\<close>

definition configuration_script :: bytes where
  \<open>configuration_script =
     text_lines
     [''" placeholder="WEB">'',
      ''            <small>The application command sent after connecting (e.g., WEB, BBS)</small>'',
      ''        </div>'',
      [],
      ''        <div class="btn-row">'',
      ''            <button class="primary" onclick="saveConfig()">Save Configuration</button>'',
      ''            <button onclick="testConnection()">Test AGWPE Connection</button>'',
      ''        </div>'',
      ''    </div>'',
      [],
      ''    <script>'',
      ''        function showMsg(text, isError) {'',
      ''            const area = document.getElementById('msg-area');'',
      ''            area.innerHTML = '<div class="msg ' + (isError ? 'msg-error' : 'msg-success') + '">' + text + '</div>';'',
      ''            setTimeout(() => area.innerHTML = '' @ [CHR 0x27, CHR 0x27] @ '', 5000);'',
      ''        }'',
      [],
      ''        function updateBpqCommandVisibility() {'',
      ''            const skipped = document.getElementById('skip-bpq-app').checked;'',
      ''            document.getElementById('bpq-command-group').style.display = skipped ? 'none' : '' @ [CHR 0x27, CHR 0x27] @ '';'',
      ''        }'',
      [],
      ''        async function loadConfig() {'',
      ''            try {'',
      ''                const resp = await fetch('/api/config');'',
      ''                const data = await resp.json();'',
      ''                document.getElementById('agwpe-host').value = data.agwpe_host || '127.0.0.1';'',
      ''                document.getElementById('agwpe-port').value = data.agwpe_port || 8000;'',
      ''                document.getElementById('my-callsign').value = data.my_callsign || '' @ [CHR 0x27, CHR 0x27] @ '';'',
      ''                document.getElementById('target-callsign').value = data.target_callsign || '' @ [CHR 0x27, CHR 0x27] @ '';'',
      ''                document.getElementById('bpq-command').value = data.bpq_command || 'WEB';'',
      ''                document.getElementById('skip-bpq-app').checked = data.skip_bpq_app || false;'',
      ''                updateBpqCommandVisibility();'',
      ''            } catch (e) {'',
      ''                showMsg('Failed to load config: ' + e.message, true);'',
      ''            }'',
      ''        }'',
      [],
      ''        async function saveConfig() {'',
      ''            const host = document.getElementById('agwpe-host').value.trim();'',
      ''            const port = parseInt(document.getElementById('agwpe-port').value);'',
      ''            const myCallsign = document.getElementById('my-callsign').value.trim();'',
      ''            const targetCallsign = document.getElementById('target-callsign').value.trim();'',
      ''            const bpqCommand = document.getElementById('bpq-command').value.trim();'',
      ''            const skipBpqApp = document.getElementById('skip-bpq-app').checked;'',
      [],
      ''            if (!host) { showMsg('AGWPE Host is required', true); return; }'',
      ''            if (!port || port < 1 || port > 65535) { showMsg('Invalid AGWPE port', true); return; }'',
      ''            if (!myCallsign) { showMsg('My Callsign is required', true); return; }'',
      [],
      ''            try {'',
      ''                const resp = await fetch('/api/config', {'',
      ''                    method: 'POST','',
      ''                    headers: { 'Content-Type': 'application/json' },'',
      ''                    body: JSON.stringify({'',
      ''                        agwpe_host: host,'',
      ''                        agwpe_port: port,'',
      ''                        my_callsign: myCallsign,'',
      ''                        target_callsign: targetCallsign,'',
      ''                        bpq_command: bpqCommand,'',
      ''                        skip_bpq_app: skipBpqApp'',
      ''                    })'',
      ''                });'',
      ''                const data = await resp.json();'',
      ''                if (data.ok) {'',
      ''                    showMsg('Configuration saved successfully');'',
      ''                } else {'',
      ''                    showMsg(data.error || 'Failed to save', true);'',
      ''                }'',
      ''            } catch (e) {'',
      ''                showMsg('Error: ' + e.message, true);'',
      ''            }'',
      ''        }'',
      [],
      ''        async function testConnection() {'',
      ''            try {'',
      ''                const resp = await fetch('/api/agwpe-status', { method: 'POST' });'',
      ''                const data = await resp.json();'',
      ''                if (data.ok) {'',
      ''                    showMsg('AGWPE reachable. ' + (data.ports || []).length + ' port(s) found.');'',
      ''                } else {'',
      ''                    showMsg(data.error || 'AGWPE unreachable', true);'',
      ''                }'',
      ''            } catch (e) {'',
      ''                showMsg('Error: ' + e.message, true);'',
      ''            }'',
      ''        }'',
      [],
      ''        loadConfig();'',
      ''    </script>'',
      ''</body>'',
      ''</html>'']\<close>

definition configuration_page :: "bytes \<Rightarrow> nat \<Rightarrow> bytes \<Rightarrow> bytes \<Rightarrow> bytes \<Rightarrow> bool \<Rightarrow> bytes" where
  \<open>configuration_page host port my_call target_call bpq skip =
     configuration_head
     @ CSS
     @ configuration_form
     @ h host
     @ text_lines
       [''" placeholder="127.0.0.1">'',
        ''        </div>'',
        [],
        ''        <div class="form-group">'',
        ''            <label for="agwpe-port">AGWPE Port</label>'',
        ''            <input type="number" id="agwpe-port" value="'']
     @ nat_to_string port
     @ text_lines
       [''" placeholder="8000">'',
        ''        </div>'',
        ''    </div>'',
        [],
        ''    <div class="card">'',
        ''        <h2>Session Settings</h2>'',
        [],
        ''        <div class="form-group">'',
        ''            <label for="my-callsign">My Callsign</label>'',
        ''            <input type="text" id="my-callsign" value="'']
     @ h my_call
     @ text_lines
       [''" placeholder="N0CALL">'',
        ''            <small>Your amateur radio callsign</small>'',
        ''        </div>'',
        [],
        ''        <div class="form-group">'',
        ''            <label for="target-callsign">Target Callsign</label>'',
        ''            <input type="text" id="target-callsign" value="'']
     @ h target_call
     @ text_lines
       [''" placeholder="NODE1">'',
        ''            <small>The BPQ node or station to connect to</small>'',
        ''        </div>'',
        [],
        ''        <div class="form-group">'',
        ''            <label for="skip-bpq-app">Skip BPQ Application Command</label>'',
        ''            <input type="checkbox" id="skip-bpq-app" '']
     @ (if skip then ''checked'' else [])
     @ configuration_skip
     @ h bpq
     @ configuration_script\<close>

section \<open>The cache page\<close>

record CachePageRow =
  cp_url :: bytes
  size_bytes :: nat
  fetched_at_iso :: bytes
  last_used_iso :: bytes
  ttl_remaining_secs :: int
  cp_etag :: bytes

definition cache_page_row :: "CachePageRow \<Rightarrow> bytes" where
  \<open>cache_page_row row =
     text_lines
       [''<tr>'',
        ''                <td style="max-width:40em;overflow:hidden;text-overflow:ellipsis">'']
     @ h (cp_url row)
     @ text_lines
       [''</td>'',
        ''                <td>'']
     @ nat_to_string (size_bytes row)
     @ text_lines
       [''</td>'',
        ''                <td>'']
     @ h (fetched_at_iso row)
     @ text_lines
       [''</td>'',
        ''                <td>'']
     @ h (last_used_iso row)
     @ text_lines
       [''</td>'',
        ''                <td>'']
     @ int_to_string (ttl_remaining_secs row)
     @ text_lines
       [''s</td>'',
        ''                <td>'',
        ''                    <form method="POST" action="/api/cache/delete" style="margin:0">'',
        ''                        <input type="hidden" name="url" value="'']
     @ h (cp_url row)
     @ text_lines
       [''">'',
        ''                        <button class="danger" type="submit">Delete</button>'',
        ''                    </form>'',
        ''                </td>'',
        ''            </tr>'']\<close>

definition cache_page :: "CachePageRow list \<Rightarrow> nat \<Rightarrow> nat \<Rightarrow> bytes" where
  \<open>cache_page rows total_bytes cap =
    (let body =
       ''<p>'' @ nat_to_string (length rows) @ '' entries '' @ [CHR 0xE2, CHR 0x80, CHR 0x94] @ '' '' @ nat_to_string total_bytes
       @ '' / '' @ nat_to_string cap @ '' bytes used.</p>''
       @ ''<form method="POST" action="/api/cache/clear" style="margin-bottom:1em"><button class="danger" type="submit">Clear all</button></form>''
       @ ''<table style="width:100%;border-collapse:collapse">''
       @ ''<thead><tr><th style="text-align:left">URL</th><th>Size</th><th>Fetched</th><th>Last used</th><th>TTL left</th><th></th></tr></thead><tbody>''
       @ concat (map cache_page_row rows)
       @ ''</tbody></table>'' in
     text_lines
       [''<!DOCTYPE html>'',
        ''<html lang="en"><head><meta charset="utf-8"><title>Cache</title><style>'']
     @ CSS
     @ text_lines
       [''</style></head>'',
        ''<body><h1>Cache</h1><p><a href="/browse">Back to browse</a></p>'']
     @ body
     @ ''</body></html>'')\<close>

section \<open>What an inserted text cannot do\<close>

text \<open>The bytes that open and close tags and attribute values.\<close>

definition angle :: "byte \<Rightarrow> bool" where
  "angle b \<longleftrightarrow> b = CHR ''<'' \<or> b = CHR ''>''"

definition markup :: "byte \<Rightarrow> bool" where
  "markup b \<longleftrightarrow> angle b \<or> b = CHR 0x22 \<or> b = CHR 0x27"

lemma filter_markup_escape: "filter markup (escape_html c) = []"
  by (simp add: escape_html_def markup_def angle_def)

lemma markup_not_angle: "filter markup s = [] \<Longrightarrow> filter angle s = []"
  by (auto simp: filter_empty_conv markup_def)

lemma filter_markup_h [simp]: "filter markup (h s) = []" "filter angle (h s) = []"
proof -
  show "filter markup (h s) = []" by (simp add: h_def filter_concat filter_markup_escape comp_def)
  then show "filter angle (h s) = []" by (rule markup_not_angle)
qed

lemma digit_no_markup: "is_ascii_digit c \<Longrightarrow> \<not> markup c"
  by (auto simp: markup_def angle_def is_ascii_digit_def in_range_def)

lemma digits_no_markup: "list_all is_ascii_digit s \<Longrightarrow> filter markup s = [] \<and> filter angle s = []"
  using markup_not_angle [of s] by (simp add: filter_empty_conv list_all_iff digit_no_markup)

lemma filter_markup_nat [simp]: "filter markup (nat_to_string n) = []" "filter angle (nat_to_string n) = []"
  using digits_no_markup [OF nat_to_string_digits] by simp_all

lemma filter_markup_int [simp]: "filter markup (int_to_string n) = []"
  by (simp add: int_to_string_def markup_def angle_def)

lemma filter_markup_flags [simp]:
  "filter markup (selected_if b) = []" "filter markup (hidden_unless b) = []"
  "filter angle (selected_if b) = []" "filter angle (hidden_unless b) = []"
  by (simp_all add: selected_if_def hidden_unless_def markup_def angle_def)

lemma filter_angle_replace:
  "filter angle (replace_byte c r s) = concat (map (\<lambda>b. if b = c then filter angle r else filter angle [b]) s)"
  by (induction s) (auto simp: replace_byte_def)

lemma filter_angle_three:
  "filter angle r = [] \<Longrightarrow> \<not> angle a \<Longrightarrow> \<not> angle b \<Longrightarrow> \<not> angle c \<Longrightarrow>
     filter angle (replace_three (a, b, c) r s) = filter angle s"
  by (induction "(a, b, c)" r s rule: replace_three.induct) auto

lemma filter_angle_json [simp]: "filter angle (json_for_script s) = []"
proof -
  have "\<not> angle x" if "x \<in> set (replace_byte (CHR ''>'') (CHR 0x5C # ''u003e'') (replace_byte (CHR ''<'') (CHR 0x5C # ''u003c'') s))" for x
    using that by (auto simp: replace_byte_def angle_def split: if_splits)
  then have "filter angle (replace_byte (CHR ''>'') (CHR 0x5C # ''u003e'') (replace_byte (CHR ''<'') (CHR 0x5C # ''u003c'') s)) = []"
    by (simp add: filter_empty_conv)
  then have "filter angle (replace_byte (CHR ''&'') (CHR 0x5C # ''u0026'')
      (replace_byte (CHR ''>'') (CHR 0x5C # ''u003e'') (replace_byte (CHR ''<'') (CHR 0x5C # ''u003c'') s))) = []"
    by (auto simp: filter_empty_conv replace_byte_def angle_def split: if_splits)
  then show ?thesis by (simp add: json_for_script_def filter_angle_three angle_def)
qed

definition blank_row :: CachePageRow where
  "blank_row = \<lparr>cp_url = [], size_bytes = 0, fetched_at_iso = [], last_used_iso = [], ttl_remaining_secs = 0, cp_etag = []\<rparr>"

lemma filter_markup_row: "filter markup (cache_page_row r) = filter markup (cache_page_row r')"
  by (simp only: cache_page_row_def filter_append filter_markup_h filter_markup_nat filter_markup_int)

lemma filter_markup_rows:
  "filter markup (concat (map cache_page_row rows)) =
     filter markup (concat (map cache_page_row (replicate (length rows) blank_row)))"
proof (induction rows)
  case (Cons r rows)
  show ?case using filter_markup_row [of r blank_row] Cons by simp
qed simp

lemmas inert =
  filter_append filter_markup_h filter_markup_nat filter_markup_int filter_markup_flags filter_angle_json append_Nil

lemma error_page_inert: "filter markup (error_page m) = filter markup (error_page [])"
  by (simp only: error_page_def inert)

lemma session_page_inert:
  "filter markup (render_session_error_page m b) = filter markup (render_session_error_page [] b)"
  by (simp only: render_session_error_page_def Let_def inert)

lemma browse_page_inert:
  "\<exists>before after. \<forall>content url. filter markup (browse_page content url) = before @ filter markup content @ after"
proof (intro exI allI)
  fix content url
  show "filter markup (browse_page content url) =
      filter markup (browse_style @ browse_bar @ browse_form @ browse_frame) @ filter markup content
      @ filter markup (text_lines [[], ''    </div>'', ''</body>'', ''</html>''])"
    by (simp only: browse_page_def Let_def inert append_assoc)
qed

lemma configuration_page_inert:
  "filter markup (configuration_page host port my target bpq skip) =
     filter markup (configuration_page [] 0 [] [] [] False)"
proof -
  have "filter markup (if skip then ''checked'' else []) = []" by (simp add: markup_def angle_def)
  then show ?thesis by (simp only: configuration_page_def inert if_False filter.simps(1))
qed

lemma connect_page_inert:
  "filter markup (connect_page my target st cls ports k v) = filter markup (connect_page [] [] [] [] ports Ax25 default_vara)"
  by (simp only: connect_page_def inert)

lemma connect_page_angles:
  "filter angle (connect_page my target st cls ports k v) = filter angle (connect_page [] [] [] [] [] Ax25 default_vara)"
  by (simp only: connect_page_def inert)

lemma cache_page_inert:
  "filter markup (cache_page rows n cap) = filter markup (cache_page (replicate (length rows) blank_row) 0 0)"
  by (simp only: cache_page_def Let_def inert filter_markup_rows [of rows])

text \<open>What a browser reads an escaped text as.\<close>

function unescape_html :: "bytes \<Rightarrow> bytes" where
  "unescape_html s =
     (if prefix ''&amp;'' s then CHR ''&'' # unescape_html (drop 5 s)
      else if prefix ''&lt;'' s then CHR ''<'' # unescape_html (drop 4 s)
      else if prefix ''&gt;'' s then CHR ''>'' # unescape_html (drop 4 s)
      else if prefix ''&quot;'' s then CHR 0x22 # unescape_html (drop 6 s)
      else if prefix ''&#39;'' s then CHR 0x27 # unescape_html (drop 5 s)
      else (case s of [] \<Rightarrow> [] | c # r \<Rightarrow> c # unescape_html r))"
  by auto
termination
  by (relation "measure length") (auto dest!: prefix_length_le)

declare unescape_html.simps [simp del]

lemma unescape_step: "unescape_html (escape_html c @ r) = c # unescape_html r"
  by (subst unescape_html.simps) (auto simp: escape_html_def)

lemma unescape_h: "unescape_html (h s @ r) = s @ unescape_html r"
  by (induction s) (simp_all add: h_def unescape_step)


section \<open>Two places where the escape does not fit\<close>

text \<open>In the script of the connect page the state stands inside a JavaScript string, where \<open>h\<close> lets a
  backslash through: a state that ends in one takes the closing quote with it, and the script does
  not run.\<close>

lemma state_ends_script_string:
  "sublist (''updateUI('' @ [CHR 0x27] @ ''Error: '' @ [CHR 0x5C] @ [CHR 0x27] @ '');'')
     (connect_page my target (''Error: '' @ [CHR 0x5C]) cls ports k v)"
proof -
  have a: "suffix (''updateUI('' @ [CHR 0x27]) connect_script_init" by code_simp
  have b: "prefix ([CHR 0x27] @ '');'') connect_start" by code_simp
  obtain x where x: "connect_script_init = x @ ''updateUI('' @ [CHR 0x27]" using a by (auto simp: suffix_def)
  obtain y where y: "connect_start = [CHR 0x27] @ '');'' @ y" using b by (auto simp: prefix_def)
  have e: "h (''Error: '' @ [CHR 0x5C]) = ''Error: '' @ [CHR 0x5C]" by code_simp
  obtain p where p: "connect_page my target (''Error: '' @ [CHR 0x5C]) cls ports k v =
      p @ connect_script_init @ h (''Error: '' @ [CHR 0x5C]) @ connect_start"
    unfolding connect_page_def append_assoc [symmetric] by blast
  show ?thesis unfolding p x y e by (simp add: sublist_def) (metis append_assoc append_Cons append_Nil)
qed

text \<open>The reload link puts the URL, escaped for HTML but not for a query string, before its own
  parameter: what the handler gets as \<open>url\<close> ends at the first ampersand of the address.\<close>

lemma reload_loses_parameters:
  "\<exists>before after. browse_page content url = before @ ''/browse?url='' @ h url @ ''&amp;nocache=1'' @ CHR 0x22 # after"
  "hd (split_char (CHR ''&'') (unescape_html (h url @ ''&amp;nocache=1''))) = takeWhile (\<lambda>c. c \<noteq> CHR ''&'') url"
proof -
  have a: "suffix ''/browse?url='' browse_bar" by code_simp
  have b: "prefix (''&amp;nocache=1'' @ [CHR 0x22]) browse_form" by code_simp
  obtain x where x: "browse_bar = x @ ''/browse?url=''" using a by (auto simp: suffix_def)
  obtain y where y: "browse_form = ''&amp;nocache=1'' @ CHR 0x22 # y" using b by (auto simp: prefix_def)
  show "\<exists>before after. browse_page content url = before @ ''/browse?url='' @ h url @ ''&amp;nocache=1'' @ CHR 0x22 # after"
    by (rule exI [of _ "browse_style @ x"], rule exI) (simp only: browse_page_def Let_def x y append_assoc append.simps)
  have "unescape_html ''&amp;nocache=1'' = ''&nocache=1''" by code_simp
  then show "hd (split_char (CHR ''&'') (unescape_html (h url @ ''&amp;nocache=1''))) = takeWhile (\<lambda>c. c \<noteq> CHR ''&'') url"
    by (auto simp: unescape_h hd_split_char takeWhile_append intro: takeWhile_eq_all_conv [THEN iffD2, symmetric])
qed

end
