(* ===== verification/Rewrite.thy ===== *)
theory Rewrite
  imports Rust_Str
begin

text \<open>
  The rewriter that stands between a fetched page and the operator's browser
  (\<open>client/src/rewrite.rs\<close>): links and forms are routed through the local proxy, active content
  is removed. The HTML parser (lol_html) and the url crate are third-party code. Of the parser
  the model takes \<open>rewrite_str\<close>, which runs a handler on every element of a document, and
  \<open>selects\<close>, which tells whether a selector matches an element; of the url crate parsing, joining
  and the encoding of a query pair. The locale \<open>css_selectors\<close> says what the selectors used mean.
\<close>

section \<open>Elements\<close>

text \<open>Tag and attribute names are in lower case and an element has an attribute once, as HTML has it.\<close>

record Element =
  el_tag :: bytes
  el_attrs :: "(bytes \<times> bytes) list"
  el_removed :: bool

definition get_attribute :: "bytes \<Rightarrow> Element \<Rightarrow> bytes option" where
  "get_attribute n el = map_of (el_attrs el) n"

fun set_attr :: "bytes \<Rightarrow> bytes \<Rightarrow> (bytes \<times> bytes) list \<Rightarrow> (bytes \<times> bytes) list" where
  "set_attr n v [] = [(n, v)]"
| "set_attr n v ((m, w) # as) = (if m = n then (n, v) # as else (m, w) # set_attr n v as)"

definition set_attribute :: "bytes \<Rightarrow> bytes \<Rightarrow> Element \<Rightarrow> Element" where
  "set_attribute n v el = el\<lparr>el_attrs := set_attr n v (el_attrs el)\<rparr>"

definition remove_attribute :: "bytes \<Rightarrow> Element \<Rightarrow> Element" where
  "remove_attribute n el = el\<lparr>el_attrs := filter (\<lambda>(m, _). m \<noteq> n) (el_attrs el)\<rparr>"

definition remove_element :: "Element \<Rightarrow> Element" where
  "remove_element el = el\<lparr>el_removed := True\<rparr>"

section \<open>Links\<close>

record 'u UrlCrate =
  url_parse :: "bytes \<Rightarrow> (bytes, 'u) result"
  url_join :: "'u \<Rightarrow> bytes \<Rightarrow> bytes option"
  encode_pair :: "bytes \<Rightarrow> bytes \<Rightarrow> bytes"

definition build_proxy_url :: "'u UrlCrate \<Rightarrow> bytes \<Rightarrow> 'u \<Rightarrow> bytes option" where
  "build_proxy_url W url base =
     (let trimmed = trim url in
      if trimmed = [] \<or> prefix ''javascript:'' trimmed \<or> prefix ''data:'' trimmed
         \<or> prefix ''mailto:'' trimmed \<or> prefix ''tel:'' trimmed then None
      else if prefix ''#'' trimmed then Some trimmed
      else (case url_join W base trimmed of
              None \<Rightarrow> None
            | Some resolved \<Rightarrow> Some (''/browse?'' @ encode_pair W ''url'' resolved)))"

section \<open>Handlers\<close>

definition link_handler :: "'u UrlCrate \<Rightarrow> 'u \<Rightarrow> Element \<Rightarrow> Element" where
  "link_handler W base el =
     (let href = (case get_attribute ''href'' el of Some v \<Rightarrow> v | None \<Rightarrow> []) in
      case build_proxy_url W href base of
        Some proxy_url \<Rightarrow> set_attribute ''href'' proxy_url el
      | None \<Rightarrow> set_attribute ''href'' ''#'' el)"

definition form_handler :: "'u UrlCrate \<Rightarrow> 'u \<Rightarrow> Element \<Rightarrow> Element" where
  "form_handler W base el =
     (let action = (case get_attribute ''action'' el of Some v \<Rightarrow> v | None \<Rightarrow> []) in
      case build_proxy_url W action base of
        Some proxy_url \<Rightarrow>
          (let el = set_attribute ''action'' proxy_url el in
           if get_attribute ''method'' el = None then set_attribute ''method'' ''POST'' el else el)
      | None \<Rightarrow> remove_element el)"

definition meta_handler :: "Element \<Rightarrow> Element" where
  "meta_handler el =
     (let eq = (case get_attribute ''http-equiv'' el of Some v \<Rightarrow> v | None \<Rightarrow> []) in
      if eq_ignore_ascii_case eq ''refresh'' \<or> eq_ignore_ascii_case eq ''content-security-policy''
      then remove_element el else el)"

definition url_attributes :: "bytes list" where
  "url_attributes = [''src'', ''href'', ''action'', ''formaction'', ''background'', ''poster'']"

definition is_script_url :: "bytes \<Rightarrow> bool" where
  "is_script_url v \<longleftrightarrow> prefix ''javascript:'' (to_ascii_lowercase (trim_start v))"

definition scrub_attribute :: "bytes \<Rightarrow> Element \<Rightarrow> Element" where
  "scrub_attribute name el =
     (if prefix ''on'' name then remove_attribute name el
      else if name \<in> set url_attributes then
        (case get_attribute name el of
           Some v \<Rightarrow> if is_script_url v then remove_attribute name el else el
         | None \<Rightarrow> el)
      else el)"

definition scrub_handler :: "Element \<Rightarrow> Element" where
  "scrub_handler el = fold scrub_attribute (map fst (el_attrs el)) el"

abbreviation active_selector :: bytes where
  "active_selector \<equiv>
     ''script, link[rel=stylesheet], iframe, frame, frameset, object, embed, applet, noscript, base''"

definition content_handlers :: "'u UrlCrate \<Rightarrow> 'u \<Rightarrow> (bytes \<times> (Element \<Rightarrow> Element)) list" where
  "content_handlers W base =
     [(''a[href]'', link_handler W base), (''form[action]'', form_handler W base),
      (active_selector, remove_element), (''meta[http-equiv]'', meta_handler), (''*'', scrub_handler)]"

text \<open>The selectors are matched against the start tag as it was read; the handlers that match run in
  the order they were registered.\<close>

definition rewrite_element ::
  "(bytes \<Rightarrow> Element \<Rightarrow> bool) \<Rightarrow> (bytes \<times> (Element \<Rightarrow> Element)) list \<Rightarrow> Element \<Rightarrow> Element" where
  "rewrite_element selects hs el = fold (\<lambda>(sel, f) e. if selects sel el then f e else e) hs el"

datatype RewriteError = InvalidBaseUrl bytes | RewriteFailed bytes

fun rewrite_error_to_string :: "RewriteError \<Rightarrow> bytes" where
  "rewrite_error_to_string (InvalidBaseUrl e) = ''Invalid base URL: '' @ e"
| "rewrite_error_to_string (RewriteFailed e) = ''Rewrite failed: '' @ e"

record 'u Rewriter =
  urls :: "'u UrlCrate"
  selects :: "bytes \<Rightarrow> Element \<Rightarrow> bool"
  rewrite_str :: "(Element \<Rightarrow> Element) \<Rightarrow> bytes \<Rightarrow> (bytes, bytes) result"

definition rewrite_html :: "'u Rewriter \<Rightarrow> bytes \<Rightarrow> bytes \<Rightarrow> (RewriteError, bytes) result" where
  "rewrite_html R html base_url =
     (case url_parse (urls R) base_url of
        Inl e \<Rightarrow> Err (InvalidBaseUrl e)
      | Inr base \<Rightarrow>
          (case rewrite_str R (rewrite_element (selects R) (content_handlers (urls R) base)) html of
             Inl e \<Rightarrow> Err (RewriteFailed e)
           | Inr out \<Rightarrow> Ok out))"

section \<open>What the selectors mean\<close>

definition has_attribute :: "bytes \<Rightarrow> Element \<Rightarrow> bool" where
  "has_attribute n el \<longleftrightarrow> get_attribute n el \<noteq> None"

definition active_tags :: "bytes list" where
  "active_tags =
     [''script'', ''iframe'', ''frame'', ''frameset'', ''object'', ''embed'', ''applet'', ''noscript'', ''base'']"

locale css_selectors =
  fixes sel :: "bytes \<Rightarrow> Element \<Rightarrow> bool"
  assumes universal: "sel ''*'' el"
    and links: "sel ''a[href]'' el \<longleftrightarrow> el_tag el = ''a'' \<and> has_attribute ''href'' el"
    and forms: "sel ''form[action]'' el \<longleftrightarrow> el_tag el = ''form'' \<and> has_attribute ''action'' el"
    and metas: "sel ''meta[http-equiv]'' el \<longleftrightarrow> el_tag el = ''meta'' \<and> has_attribute ''http-equiv'' el"
    and active: "el_tag el \<in> set active_tags \<or> el_tag el = ''link'' \<and> get_attribute ''rel'' el = Some ''stylesheet''
        \<Longrightarrow> sel active_selector el"
    and inactive: "el_tag el \<notin> set active_tags \<Longrightarrow> el_tag el \<noteq> ''link'' \<Longrightarrow> \<not> sel active_selector el"

section \<open>Attributes\<close>

lemma get_set_attribute [simp]:
  "get_attribute n (set_attribute m v el) = (if n = m then Some v else get_attribute n el)"
proof -
  have "map_of (set_attr m v as) = (map_of as)(m \<mapsto> v)" for as by (induction m v as rule: set_attr.induct) auto
  then show ?thesis by (simp add: get_attribute_def set_attribute_def)
qed

lemma get_remove_attribute [simp]:
  "get_attribute n (remove_attribute m el) = (if n = m then None else get_attribute n el)"
proof -
  have "map_of (filter (\<lambda>(k, _). k \<noteq> m) as) n = (if n = m then None else map_of as n)" for as :: "(bytes \<times> bytes) list"
    by (induction as) auto
  then show ?thesis by (simp add: get_attribute_def remove_attribute_def)
qed

lemma element_fields [simp]:
  "el_tag (set_attribute m v el) = el_tag el" "el_removed (set_attribute m v el) = el_removed el"
  "el_tag (remove_attribute m el) = el_tag el" "el_removed (remove_attribute m el) = el_removed el"
  "el_tag (remove_element el) = el_tag el" "el_removed (remove_element el)"
  "get_attribute n (remove_element el) = get_attribute n el"
  by (simp_all add: set_attribute_def remove_attribute_def remove_element_def get_attribute_def)

lemma get_attribute_None: "get_attribute n el = None \<longleftrightarrow> n \<notin> set (map fst (el_attrs el))"
  by (simp add: get_attribute_def map_of_eq_None_iff)

text \<open>What the last handler leaves of an attribute.\<close>

definition scrubbed :: "bytes \<Rightarrow> bytes option \<Rightarrow> bytes option" where
  "scrubbed n v =
     (if prefix ''on'' n then None
      else if n \<in> set url_attributes then (case v of Some u \<Rightarrow> if is_script_url u then None else Some u | None \<Rightarrow> None)
      else v)"

lemma get_scrub_attribute:
  "get_attribute n (scrub_attribute m el) = (if n = m then scrubbed n (get_attribute n el) else get_attribute n el)"
  by (auto simp: scrub_attribute_def scrubbed_def split: option.splits)

lemma scrub_attribute_fields [simp]:
  "el_tag (scrub_attribute m el) = el_tag el" "el_removed (scrub_attribute m el) = el_removed el"
  by (auto simp: scrub_attribute_def split: option.splits)

lemma scrubbed_idem [simp]: "scrubbed n (scrubbed n v) = scrubbed n v"
  by (auto simp: scrubbed_def split: option.splits)

lemma get_scrub_fold:
  "get_attribute n (fold scrub_attribute ns el) = (if n \<in> set ns then scrubbed n (get_attribute n el) else get_attribute n el)"
  by (induction ns arbitrary: el) (auto simp: get_scrub_attribute)

lemma scrub_handler_get: "get_attribute n (scrub_handler el) = scrubbed n (get_attribute n el)"
proof (cases "n \<in> set (map fst (el_attrs el))")
  case True
  then show ?thesis by (simp only: scrub_handler_def get_scrub_fold if_True)
next
  case False
  then have "get_attribute n el = None" by (simp only: get_attribute_None not_False_eq_True)
  with False show ?thesis by (simp add: scrub_handler_def get_scrub_fold scrubbed_def)
qed

lemma scrub_handler_fields [simp]:
  "el_tag (scrub_handler el) = el_tag el" "el_removed (scrub_handler el) = el_removed el"
proof -
  have "el_tag (fold scrub_attribute ns e) = el_tag e \<and> el_removed (fold scrub_attribute ns e) = el_removed e" for ns e
    by (induction ns arbitrary: e) auto
  then show "el_tag (scrub_handler el) = el_tag el" "el_removed (scrub_handler el) = el_removed el"
    by (simp_all add: scrub_handler_def)
qed

section \<open>A rewritten element\<close>

text \<open>A link that stays in the client: a fragment of the page or a request to the local proxy.\<close>

definition local_link :: "'u UrlCrate \<Rightarrow> bytes \<Rightarrow> bool" where
  "local_link W v \<longleftrightarrow> prefix ''#'' v \<or> (\<exists>u. v = ''/browse?'' @ encode_pair W ''url'' u)"

lemma proxy_url_local: "build_proxy_url W url base = Some v \<Longrightarrow> local_link W v"
  by (auto simp: build_proxy_url_def local_link_def Let_def split: if_splits option.splits)

definition link_target :: "'u UrlCrate \<Rightarrow> 'u \<Rightarrow> bytes \<Rightarrow> bytes" where
  "link_target W base v = (case build_proxy_url W v base of Some p \<Rightarrow> p | None \<Rightarrow> ''#'')"

lemma link_target_local: "local_link W (link_target W base v)"
proof (cases "build_proxy_url W v base")
  case None
  then show ?thesis by (simp add: link_target_def local_link_def)
next
  case (Some p)
  then show ?thesis using proxy_url_local [OF Some] by (simp add: link_target_def)
qed

lemma link_handler_simps [simp]:
  "el_tag (link_handler W base el) = el_tag el" "el_removed (link_handler W base el) = el_removed el"
  "get_attribute n (link_handler W base el) =
     (if n = ''href'' then Some (link_target W base (case get_attribute ''href'' el of Some v \<Rightarrow> v | None \<Rightarrow> []))
      else get_attribute n el)"
  by (simp_all add: link_handler_def link_target_def Let_def split: option.split)

lemma form_handler_simps [simp]:
  "el_tag (form_handler W base el) = el_tag el"
  "n \<noteq> ''action'' \<Longrightarrow> n \<noteq> ''method'' \<Longrightarrow> get_attribute n (form_handler W base el) = get_attribute n el"
  by (simp_all add: form_handler_def Let_def split: option.split)

lemma form_handler_kept:
  assumes "\<not> el_removed (form_handler W base el)"
  shows "\<not> el_removed el" and "get_attribute ''action'' (form_handler W base el) = Some v \<Longrightarrow> local_link W v"
  using assms proxy_url_local by (auto simp: form_handler_def Let_def split: option.splits if_splits)

lemma meta_handler_simps [simp]:
  "el_tag (meta_handler el) = el_tag el" "get_attribute n (meta_handler el) = get_attribute n el"
  by (simp_all add: meta_handler_def Let_def)

lemma meta_handler_kept:
  assumes "\<not> el_removed (meta_handler el)"
  shows "\<not> el_removed el" and "get_attribute ''http-equiv'' el = Some v \<Longrightarrow>
      \<not> eq_ignore_ascii_case v ''refresh'' \<and> \<not> eq_ignore_ascii_case v ''content-security-policy''"
  using assms by (auto simp: meta_handler_def Let_def split: if_splits)

context css_selectors
begin

text \<open>The element just before the last handler runs.\<close>

lemma before_scrub:
  assumes "el' = rewrite_element sel (content_handlers W base) el" and "\<not> el_removed el'"
  shows "\<exists>e. el' = scrub_handler e \<and> el_tag e = el_tag el \<and> \<not> sel active_selector el
     \<and> (el_tag el = ''a'' \<longrightarrow> (\<forall>v. get_attribute ''href'' e = Some v \<longrightarrow> local_link W v))
     \<and> (el_tag el = ''form'' \<longrightarrow> (\<forall>v. get_attribute ''action'' e = Some v \<longrightarrow> local_link W v))
     \<and> (el_tag el = ''meta'' \<longrightarrow> (\<forall>v. get_attribute ''http-equiv'' e = Some v \<longrightarrow>
          \<not> eq_ignore_ascii_case v ''refresh'' \<and> \<not> eq_ignore_ascii_case v ''content-security-policy''))
     \<and> (\<forall>n. n \<notin> {''href'', ''action'', ''method''} \<longrightarrow> get_attribute n e = get_attribute n el)"
proof -
  define e1 where "e1 = (if sel ''a[href]'' el then link_handler W base el else el)"
  define e2 where "e2 = (if sel ''form[action]'' el then form_handler W base e1 else e1)"
  define e3 where "e3 = (if sel active_selector el then remove_element e2 else e2)"
  define e4 where "e4 = (if sel ''meta[http-equiv]'' el then meta_handler e3 else e3)"
  have el': "el' = scrub_handler e4"
    using assms(1) universal [of el] by (simp add: rewrite_element_def content_handlers_def e1_def e2_def e3_def e4_def)
  have r4: "\<not> el_removed e4" using assms(2) el' by simp
  have r3: "\<not> el_removed e3" using r4 meta_handler_kept(1) by (auto simp: e4_def split: if_splits)
  have act: "\<not> sel active_selector el" "e3 = e2" using r3 by (auto simp: e3_def split: if_splits)
  have tags: "el_tag e1 = el_tag el" "el_tag e2 = el_tag el" "el_tag e4 = el_tag el"
    using act by (simp_all add: e1_def e2_def e4_def)
  have other: "get_attribute n e4 = get_attribute n e2" for n using act by (simp add: e4_def)
  have href: "local_link W v" if "el_tag el = ''a''" "get_attribute ''href'' e4 = Some v" for v
    using that link_target_local by (auto simp: other e2_def e1_def links forms has_attribute_def split: if_splits)
  have action: "local_link W v" if "el_tag el = ''form''" "get_attribute ''action'' e4 = Some v" for v
  proof (cases "sel ''form[action]'' el")
    case True
    then show ?thesis using that form_handler_kept [of W base e1] r3 act by (simp add: other e2_def)
  next
    case False
    with that show ?thesis by (simp add: other e2_def e1_def links forms has_attribute_def)
  qed
  have meta: "\<not> eq_ignore_ascii_case v ''refresh'' \<and> \<not> eq_ignore_ascii_case v ''content-security-policy''"
    if "el_tag el = ''meta''" "get_attribute ''http-equiv'' e4 = Some v" for v
  proof (cases "sel ''meta[http-equiv]'' el")
    case True
    with that r4 meta_handler_kept(2) [of e3 v] show ?thesis by (simp add: e4_def)
  next
    case False
    with that show ?thesis by (simp add: other e2_def e1_def links forms metas has_attribute_def)
  qed
  have rest: "get_attribute n e4 = get_attribute n el" if "n \<notin> {''href'', ''action'', ''method''}" for n
    using that by (simp add: other e2_def e1_def)
  show ?thesis using el' tags(3) act(1) href action meta rest by blast
qed

end

section \<open>A selector matcher\<close>

text \<open>A matcher for the fragment of CSS the program uses: lists of \<open>tag\<close>, \<open>tag[attr]\<close>, \<open>tag[attr=value]\<close>
  and \<open>*\<close>.\<close>

definition simple_matches :: "Element \<Rightarrow> bytes \<Rightarrow> bool" where
  "simple_matches el c \<longleftrightarrow>
     (case position (\<lambda>b. b = CHR ''['') c of
        None \<Rightarrow> c = ''*'' \<or> c = el_tag el
      | Some i \<Rightarrow>
          take i c = el_tag el
          \<and> (case split_once ''='' (butlast (drop (Suc i) c)) of
               None \<Rightarrow> has_attribute (butlast (drop (Suc i) c)) el
             | Some (n, v) \<Rightarrow> get_attribute n el = Some v))"

definition css_selects :: "bytes \<Rightarrow> Element \<Rightarrow> bool" where
  "css_selects s el \<longleftrightarrow> list_ex (\<lambda>c. simple_matches el (trim c)) (split_char (CHR '','') s)"

lemma css_parts:
  "map trim (split_char (CHR '','') ''*'') = [''*'']"
  "map trim (split_char (CHR '','') ''a[href]'') = [''a[href]'']"
  "map trim (split_char (CHR '','') ''form[action]'') = [''form[action]'']"
  "map trim (split_char (CHR '','') ''meta[http-equiv]'') = [''meta[http-equiv]'']"
  "map trim (split_char (CHR '','') active_selector) = ''script'' # ''link[rel=stylesheet]'' # tl active_tags"
  by code_simp+

lemma css_selects_parts: "css_selects s el \<longleftrightarrow> list_ex (simple_matches el) (map trim (split_char (CHR '','') s))"
  by (simp add: css_selects_def list_ex_iff)

lemma simple_tag: "CHR ''['' \<notin> set c \<Longrightarrow> simple_matches el c \<longleftrightarrow> c = ''*'' \<or> c = el_tag el"
proof -
  assume "CHR ''['' \<notin> set c"
  then have "position (\<lambda>b. b = CHR ''['') c = None" by (auto simp: position_None_iff)
  then show ?thesis by (simp add: simple_matches_def)
qed

lemma simple_attribute:
  "simple_matches el ''a[href]'' \<longleftrightarrow> ''a'' = el_tag el \<and> has_attribute ''href'' el"
  "simple_matches el ''form[action]'' \<longleftrightarrow> ''form'' = el_tag el \<and> has_attribute ''action'' el"
  "simple_matches el ''meta[http-equiv]'' \<longleftrightarrow> ''meta'' = el_tag el \<and> has_attribute ''http-equiv'' el"
  "simple_matches el ''link[rel=stylesheet]'' \<longleftrightarrow> ''link'' = el_tag el \<and> get_attribute ''rel'' el = Some ''stylesheet''"
  by (simp_all add: simple_matches_def split_once_def)

interpretation css: css_selectors css_selects
proof
  show "css_selects ''*'' el" for el
    unfolding css_selects_parts css_parts by (simp add: simple_tag)
  show "css_selects ''a[href]'' el \<longleftrightarrow> el_tag el = ''a'' \<and> has_attribute ''href'' el" for el
    unfolding css_selects_parts css_parts by (auto simp: simple_attribute)
  show "css_selects ''form[action]'' el \<longleftrightarrow> el_tag el = ''form'' \<and> has_attribute ''action'' el" for el
    unfolding css_selects_parts css_parts by (auto simp: simple_attribute)
  show "css_selects ''meta[http-equiv]'' el \<longleftrightarrow> el_tag el = ''meta'' \<and> has_attribute ''http-equiv'' el" for el
    unfolding css_selects_parts css_parts by (auto simp: simple_attribute)
  show "css_selects active_selector el"
    if "el_tag el \<in> set active_tags \<or> el_tag el = ''link'' \<and> get_attribute ''rel'' el = Some ''stylesheet''" for el
    using that unfolding css_selects_parts css_parts by (auto simp: simple_tag simple_attribute active_tags_def)
  show "\<not> css_selects active_selector el" if "el_tag el \<notin> set active_tags" "el_tag el \<noteq> ''link''" for el
    using that unfolding css_selects_parts css_parts by (auto simp: simple_tag simple_attribute active_tags_def)
qed

section \<open>Properties\<close>


text \<open>An anchor with an event handler.\<close>

definition sample_anchor :: Element where
  "sample_anchor = \<lparr>el_tag = ''a'', el_attrs = [(''href'', ''/next''), (''onclick'', ''go()''), (''class'', ''c'')], el_removed = False\<rparr>"

definition sample_urls :: "unit UrlCrate" where
  "sample_urls = \<lparr>url_parse = (\<lambda>_. Ok ()), url_join = (\<lambda>_ p. Some (''http://h'' @ p)), encode_pair = (\<lambda>n v. n @ ''='' @ v)\<rparr>"

lemmas css_steps = rewrite_element_def content_handlers_def css.universal css.links css.forms css.metas css.inactive
  active_tags_def has_attribute_def link_handler_def form_handler_def build_proxy_url_def sample_urls_def scrub_handler_def
  scrub_attribute_def url_attributes_def is_script_url_def get_attribute_def set_attribute_def remove_attribute_def remove_element_def Let_def


text \<open>White space inside the scheme, which browsers ignore, hides a script URL from the last handler: on
  elements other than anchors and forms it stays.\<close>

lemma tab_hides_script_url:
  "get_attribute ''href'' (rewrite_element css_selects (content_handlers sample_urls ())
       \<lparr>el_tag = ''area'', el_attrs = [(''href'', ''java'' @ [CHR 0x09] @ ''script:alert(1)'')], el_removed = False\<rparr>)
     = Some (''java'' @ [CHR 0x09] @ ''script:alert(1)'')"
proof -
  have "\<not> is_script_url (''java'' @ [CHR 0x09] @ ''script:alert(1)'')" by code_simp
  then show ?thesis by (simp add: css_steps)
qed

text \<open>A form with the method GET keeps it beside an action that carries the page in its query, which a
  browser replaces by the fields of the form; and a form with an empty action, which posts to its own page, is
  removed with its content.\<close>

lemma get_form_keeps_method:
  "get_attribute ''method'' (rewrite_element css_selects (content_handlers sample_urls ())
       \<lparr>el_tag = ''form'', el_attrs = [(''action'', ''/s''), (''method'', ''get'')], el_removed = False\<rparr>) = Some ''get''"
  "get_attribute ''action'' (rewrite_element css_selects (content_handlers sample_urls ())
       \<lparr>el_tag = ''form'', el_attrs = [(''action'', ''/s''), (''method'', ''get'')], el_removed = False\<rparr>)
     = Some ''/browse?url=http://h/s''"
  "el_removed (rewrite_element css_selects (content_handlers sample_urls ())
       \<lparr>el_tag = ''form'', el_attrs = [(''action'', [])], el_removed = False\<rparr>)"
proof -
  have t: "trim ''/s'' = ''/s''" "trim [] = []" "trim_start ''/browse?url=http://h/s'' = ''/browse?url=http://h/s''"
    "to_ascii_lowercase ''/browse?url=http://h/s'' = ''/browse?url=http://h/s''" by code_simp+
  show "get_attribute ''method'' (rewrite_element css_selects (content_handlers sample_urls ())
       \<lparr>el_tag = ''form'', el_attrs = [(''action'', ''/s''), (''method'', ''get'')], el_removed = False\<rparr>) = Some ''get''"
    "get_attribute ''action'' (rewrite_element css_selects (content_handlers sample_urls ())
       \<lparr>el_tag = ''form'', el_attrs = [(''action'', ''/s''), (''method'', ''get'')], el_removed = False\<rparr>)
     = Some ''/browse?url=http://h/s''"
    "el_removed (rewrite_element css_selects (content_handlers sample_urls ())
       \<lparr>el_tag = ''form'', el_attrs = [(''action'', [])], el_removed = False\<rparr>)"
    using t by (simp_all add: css_steps)
qed

end
