(* ===== verification/Host_Guard.thy ===== *)
theory Host_Guard
  imports Ip_Addr
begin

text \<open>
  The gate in front of the client's local web interface (\<open>security_guard\<close> in
  \<open>client/src/proxy.rs\<close>): the Host header must be one of the names the client serves, which stops DNS
  rebinding, and a POST must carry an Origin of the same authority, which stops cross-site requests.
\<close>

section \<open>Local addresses\<close>

text \<open>\<open>IpAddr::is_loopback\<close>, \<open>is_unspecified\<close>, \<open>Ipv4Addr::is_private\<close> and \<open>is_link_local\<close>.\<close>

fun is_loopback :: "IpAddr \<Rightarrow> bool" where
  "is_loopback (V4 ip) \<longleftrightarrow> octet4 0 ip = 127"
| "is_loopback (V6 ip) \<longleftrightarrow> is_loopback6 ip"

fun is_unspecified :: "IpAddr \<Rightarrow> bool" where
  "is_unspecified (V4 ip) \<longleftrightarrow> ip = 0"
| "is_unspecified (V6 ip) \<longleftrightarrow> is_unspecified6 ip"

definition is_private4 :: "Ipv4Addr \<Rightarrow> bool" where
  "is_private4 ip \<longleftrightarrow>
     octet4 0 ip = 10
     \<or> octet4 0 ip = 172 \<and> 16 \<le> octet4 1 ip \<and> octet4 1 ip \<le> 31
     \<or> octet4 0 ip = 192 \<and> octet4 1 ip = 168"

definition is_link_local4 :: "Ipv4Addr \<Rightarrow> bool" where
  "is_link_local4 ip \<longleftrightarrow> octet4 0 ip = 169 \<and> octet4 1 ip = 254"

unbundle bit_operations_syntax

fun is_lan_ip :: "IpAddr \<Rightarrow> bool" where
  "is_lan_ip (V4 ip) \<longleftrightarrow> is_private4 ip \<or> is_link_local4 ip"
| "is_lan_ip (V6 ip) \<longleftrightarrow>
     (octet6 0 ip AND 0xFE) = 0xFC \<or> octet6 0 ip = 0xFE \<and> (octet6 1 ip AND 0xC0) = 0x80"

section \<open>The allowlist\<close>

record HostAllowlist =
  hostnames :: "bytes set"
  bound_ip :: "IpAddr option"
  allow_lan :: bool

definition allowlist_new :: "IpAddr \<Rightarrow> bytes list \<Rightarrow> HostAllowlist" where
  "allowlist_new listen_ip extra =
     \<lparr>hostnames = insert ''localhost'' (set (filter (\<lambda>h. h \<noteq> []) (map (\<lambda>h. to_ascii_lowercase (trim h)) extra))),
      bound_ip = (if \<not> is_loopback listen_ip \<and> \<not> is_unspecified listen_ip then Some listen_ip else None),
      allow_lan = is_unspecified listen_ip\<rparr>"

definition strip_port_from_host :: "bytes \<Rightarrow> bytes" where
  "strip_port_from_host host =
     (let bare = (case rsplit_once (CHR '':'') host of Some (h, _) \<Rightarrow> h | None \<Rightarrow> host) in
      case strip_prefix ''['' host of
        None \<Rightarrow> bare
      | Some rest \<Rightarrow>
          (case position (\<lambda>b. b = CHR '']'') rest of
             Some i \<Rightarrow> take (i + 2) host
           | None \<Rightarrow> bare))"

definition contains_host_header :: "HostAllowlist \<Rightarrow> bytes \<Rightarrow> bool" where
  "contains_host_header a host_header =
     (let hostname = strip_port_from_host host_header;
          ip_str = (case Option.bind (strip_prefix ''['' hostname) (strip_suffix '']'') of Some s \<Rightarrow> s | None \<Rightarrow> hostname) in
      case parse_ip ip_str of
        Some ip \<Rightarrow>
          if is_loopback ip then True
          else if bound_ip a = Some ip then True
          else if allow_lan a \<and> is_lan_ip ip then True
          else False
      | None \<Rightarrow> to_ascii_lowercase hostname \<in> hostnames a)"

section \<open>The gate\<close>

datatype Method = GET | POST | OtherMethod bytes

record HttpRequest =
  req_method :: Method
  req_header :: "bytes \<Rightarrow> bytes option"

text \<open>\<open>HeaderValue::to_str\<close>: visible ASCII and tabs only.\<close>

definition header_to_str :: "bytes \<Rightarrow> bytes option" where
  "header_to_str v = (if list_all (\<lambda>b. in_range b 32 126 \<or> byte_val b = 9) v then Some v else None)"

definition origin_matches_host :: "bytes \<Rightarrow> bytes \<Rightarrow> bool" where
  "origin_matches_host origin host =
     (case (case strip_prefix ''http://'' origin of Some a \<Rightarrow> Some a | None \<Rightarrow> strip_prefix ''https://'' origin) of
        Some a \<Rightarrow> a = host
      | None \<Rightarrow> False)"

datatype 'r Gate = Forbidden | Passed 'r

definition security_guard :: "HostAllowlist \<Rightarrow> HttpRequest \<Rightarrow> (HttpRequest \<Rightarrow> 'r) \<Rightarrow> 'r Gate" where
  "security_guard a req nxt =
     (case Option.bind (req_header req ''host'') header_to_str of
        None \<Rightarrow> Forbidden
      | Some host \<Rightarrow>
          if \<not> contains_host_header a host then Forbidden
          else if req_method req = POST
               \<and> \<not> (case Option.bind (req_header req ''origin'') header_to_str of
                       Some o' \<Rightarrow> origin_matches_host o' host
                     | None \<Rightarrow> False) then Forbidden
          else Passed (nxt req))"

section \<open>Properties\<close>

lemma rsplit_port:
  assumes "CHR '':'' \<notin> set p"
  shows "rsplit_once (CHR '':'') (h @ CHR '':'' # p) = Some (h, p)"
proof -
  have "position (\<lambda>x. x = CHR '':'') (rev p) = None" using assms by (auto simp: position_None_iff)
  then show ?thesis by (simp add: rsplit_once_def position_append)
qed

text \<open>A host name with an optional port, as a browser sends it.\<close>

definition with_port :: "bytes \<Rightarrow> bytes option \<Rightarrow> bytes" where
  "with_port h port = (case port of Some p \<Rightarrow> h @ CHR '':'' # p | None \<Rightarrow> h)"

definition port_text :: "bytes option \<Rightarrow> bool" where
  "port_text port \<longleftrightarrow> (case port of Some p \<Rightarrow> list_all is_ascii_digit p | None \<Rightarrow> True)"

lemma port_no_colon: "port_text (Some p) \<Longrightarrow> CHR '':'' \<notin> set p"
  by (auto simp: port_text_def list_all_iff ascii_class_defs)

lemma strip_port_name:
  assumes "port_text port" and "CHR '':'' \<notin> set h" and "\<not> prefix ''['' h" and "h \<noteq> []"
  shows "strip_port_from_host (with_port h port) = h"
proof -
  have "\<not> prefix ''['' (with_port h port)" using assms(3,4) by (cases h) (auto simp: with_port_def split: option.splits)
  moreover have "rsplit_once (CHR '':'') h = None"
    using assms(2) by (auto simp: rsplit_once_def position_None_iff split: option.split)
  ultimately show ?thesis
    using assms(1) rsplit_port [OF port_no_colon]
    by (auto simp: strip_port_from_host_def with_port_def strip_prefix_def Let_def split: option.splits)
qed

lemma contains_name:
  assumes "port_text port" and "CHR '':'' \<notin> set h" and "\<not> prefix ''['' h" and "h \<noteq> []"
  shows "contains_host_header a (with_port h port) \<longleftrightarrow>
     (case parse_ip h of
        Some ip \<Rightarrow> is_loopback ip \<or> bound_ip a = Some ip \<or> allow_lan a \<and> is_lan_ip ip
      | None \<Rightarrow> to_ascii_lowercase h \<in> hostnames a)"
  using assms(3) by (auto simp: contains_host_header_def strip_port_name [OF assms] strip_prefix_def Let_def split: option.split)

text \<open>The names a client listening on \<open>listen_ip\<close> answers to.\<close>

definition own_name :: "IpAddr \<Rightarrow> bytes list \<Rightarrow> bytes \<Rightarrow> bool" where
  "own_name listen_ip extra h \<longleftrightarrow>
     (case parse_ip h of
        Some ip \<Rightarrow>
          is_loopback ip \<or> ip = listen_ip \<and> \<not> is_unspecified listen_ip
          \<or> is_unspecified listen_ip \<and> is_lan_ip ip
      | None \<Rightarrow> to_ascii_lowercase h \<in> insert ''localhost'' ((\<lambda>e. to_ascii_lowercase (trim e)) ` set extra))"

lemma contains_own_name:
  assumes "port_text port" and "CHR '':'' \<notin> set h" and "\<not> prefix ''['' h" and "h \<noteq> []"
  shows "contains_host_header (allowlist_new ip extra) (with_port h port) \<longleftrightarrow> own_name ip extra h"
proof -
  have "to_ascii_lowercase h \<noteq> []" using assms(4) by (simp add: to_ascii_lowercase_def)
  then show ?thesis
    unfolding contains_name [OF assms] own_name_def
    by (auto simp: allowlist_new_def split: option.split)
qed

lemma origin_matches: "origin_matches_host org h \<longleftrightarrow> org \<in> {''http://'' @ h, ''https://'' @ h}"
proof -
  have p: "prefix p org \<longleftrightarrow> (\<exists>r. org = p @ r)" for p by (auto simp: prefix_def)
  show ?thesis
  proof (cases "prefix ''http://'' org")
    case True
    then obtain r where "org = ''http://'' @ r" using p by blast
    then show ?thesis by (auto simp: origin_matches_host_def strip_prefix_def)
  next
    case False
    then show ?thesis
      using p by (auto simp: origin_matches_host_def strip_prefix_def p)
  qed
qed

definition visible :: "bytes \<Rightarrow> bool" where
  "visible v \<longleftrightarrow> header_to_str v = Some v"

lemma header_to_str_cases: "header_to_str v = (if visible v then Some v else None)"
  by (simp add: visible_def header_to_str_def)

lemma visible_origin: "visible h \<Longrightarrow> org \<in> {''http://'' @ h, ''https://'' @ h} \<Longrightarrow> visible org"
  by (auto simp: visible_def header_to_str_def in_range_def split: if_splits)

text \<open>
  C38: the local interface answers only to its own names and, for a POST, only to its own pages. A
  request whose Host is a name or IPv4 literal, with or without a port, passes the gate exactly when
  the name is \<open>localhost\<close>, a configured name, a loopback address, the address listened on, or any LAN
  address when the client listens on all of them; and, for a POST, the Origin header is that very
  host with an http or https scheme. In particular a page of another site can neither reach the
  interface under its own name (DNS rebinding) nor post to it.
\<close>

theorem guard_admits_own_pages_only:
  assumes "req_header req ''host'' = Some (with_port h port)" and "visible (with_port h port)"
    and "port_text port" and "CHR '':'' \<notin> set h" and "\<not> prefix ''['' h" and "h \<noteq> []"
  shows "security_guard (allowlist_new ip extra) req nxt =
     (if own_name ip extra h
         \<and> (req_method req = POST \<longrightarrow>
              req_header req ''origin'' \<in> {Some (''http://'' @ with_port h port), Some (''https://'' @ with_port h port)})
      then Passed (nxt req) else Forbidden)"
proof -
  let ?host = "with_port h port"
  have org: "(case Option.bind (req_header req ''origin'') header_to_str of
        Some o' \<Rightarrow> origin_matches_host o' ?host | None \<Rightarrow> False)
      \<longleftrightarrow> req_header req ''origin'' \<in> {Some (''http://'' @ ?host), Some (''https://'' @ ?host)}"
    using visible_origin [OF assms(2)]
    by (cases "req_header req ''origin''") (auto simp: header_to_str_cases origin_matches)
  have host: "Option.bind (req_header req ''host'') header_to_str = Some ?host"
    using assms(1,2) by (simp add: header_to_str_cases)
  show ?thesis
    unfolding security_guard_def host option.case org contains_own_name [OF assms(3-6)]
    by (cases "own_name ip extra h"; cases "req_method req = POST") simp_all
qed

text \<open>A page of evil.example whose name was rebound to the client's address.\<close>

definition rebound_request :: HttpRequest where
  "rebound_request = \<lparr>req_method = GET, req_header = [''host'' \<mapsto> ''evil.example:8080'']\<rparr>"

theorem guard_admits_own_pages_only_witness:
  "security_guard (allowlist_new (V4 0x7F000001) []) rebound_request (\<lambda>r. r) = Forbidden"
proof -
  let ?h = "''evil.example''"
  have "parse_ip ?h = None" "to_ascii_lowercase ?h \<noteq> ''localhost''" by code_simp+
  then have "\<not> own_name (V4 0x7F000001) [] ?h" by (simp add: own_name_def)
  moreover have "req_header rebound_request ''host'' = Some (with_port ?h (Some ''8080''))"
    by (simp add: rebound_request_def with_port_def)
  moreover have "visible (with_port ?h (Some ''8080''))" by (simp add: visible_def header_to_str_def with_port_def in_range_def)
  moreover have "port_text (Some ''8080'')" by (simp add: port_text_def ascii_class_defs)
  ultimately show ?thesis
    using guard_admits_own_pages_only [of rebound_request ?h "Some ''8080''" "V4 0x7F000001" "[]" "\<lambda>r. r"] by simp
qed

end
