(* ===== verification/Client_Web.thy ===== *)
theory Client_Web
  imports Delivery Vara Cache Ui Rewrite Host_Guard
begin

text \<open>
  The browse path of the local web interface (\<open>client/src/proxy.rs\<close>): a request of the operator's
  browser is answered from the page cache when it can be, and otherwise goes to the transport
  manager and over the air; what comes back is decoded, cached, decompressed, rewritten and
  wrapped in a page.

  The state \<open>Web\<close> is \<open>AppContext\<close>: the active manager, which carries the shared state, and the cache. The
  manager owns a boxed transport, so it is one of two actors. Third-party code is in \<open>WebEnv\<close>: Unicode tables,
  the SQL engine, base64, brotli, the HTML rewriter, serde_json, the date formatter, and the wall clock as a function of
  the monotonic one. The extractors of the web framework are not modelled: handlers take what
  they extract.
\<close>

section \<open>State\<close>

datatype Mgr = OnAgwpe "AgwpeTransport Actor" | OnVara "VaraTransport Actor"

fun mgr_app :: "Mgr \<Rightarrow> AppState" where
  "mgr_app (OnAgwpe a) = app (actor_sys a)"
| "mgr_app (OnVara a) = app (actor_sys a)"

fun mgr_clock :: "Mgr \<Rightarrow> nat" where
  "mgr_clock (OnAgwpe a) = clock (actor_sys a)"
| "mgr_clock (OnVara a) = clock (actor_sys a)"

fun mgr_sent :: "Mgr \<Rightarrow> bytes list" where
  "mgr_sent (OnAgwpe a) = sent (actor_sys a)"
| "mgr_sent (OnVara a) = sent (actor_sys a)"

fun mgr_update_app :: "(AppState \<Rightarrow> AppState) \<Rightarrow> Mgr \<Rightarrow> Mgr" where
  "mgr_update_app f (OnAgwpe a) = OnAgwpe (a\<lparr>actor_sys := (actor_sys a)\<lparr>app := f (app (actor_sys a))\<rparr>\<rparr>)"
| "mgr_update_app f (OnVara a) = OnVara (a\<lparr>actor_sys := (actor_sys a)\<lparr>app := f (app (actor_sys a))\<rparr>\<rparr>)"

text \<open>One command through the channel and its reply.\<close>

fun mgr_call :: "Unicode \<Rightarrow> SessionState \<Rightarrow> TransportCommand \<Rightarrow> Mgr \<Rightarrow> (Reply \<times> Mgr) option" where
  "mgr_call U ss cmd (OnAgwpe a) = map_option (\<lambda>(r, a). (r, OnAgwpe a)) (serve_command U agwpe_transport ss cmd a)"
| "mgr_call U ss cmd (OnVara a) = map_option (\<lambda>(r, a). (r, OnVara a)) (serve_command U (vara_transport U) ss cmd a)"

record ('u, 'db) WebEnv =
  we_unicode :: Unicode
  we_sql :: "'db Sql"
  we_dec :: "bytes \<Rightarrow> bytes option"
  we_dcm :: decompressor
  we_rewriter :: "'u Rewriter"
  we_wall :: "nat \<Rightarrow> nat"
  we_max_ttl :: nat
  we_config :: FileConfig
  we_ports_json :: "PortInfo list \<Rightarrow> bytes option"
  we_iso :: "nat \<Rightarrow> bytes"

record 'db Web =
  manager :: Mgr
  session :: SessionState
  page_cache :: "'db Cache option"

definition web_app :: "'db Web \<Rightarrow> AppState" where
  "web_app w = mgr_app (manager w)"

text \<open>\<open>SystemTime::now()\<close>, in milliseconds.\<close>

definition web_now :: "('u, 'db) WebEnv \<Rightarrow> 'db Web \<Rightarrow> nat" where
  "web_now E w = we_wall E (mgr_clock (manager w))"

text \<open>\<open>unix_secs\<close> of the cache.\<close>

definition web_secs :: "('u, 'db) WebEnv \<Rightarrow> 'db Web \<Rightarrow> nat" where
  "web_secs E w = web_now E w div 1000"

definition web_call ::
  "('u, 'db) WebEnv \<Rightarrow> TransportCommand \<Rightarrow> 'db Web \<Rightarrow> (Reply \<times> 'db Web) option" where
  "web_call E cmd w = map_option (\<lambda>(r, m). (r, w\<lparr>manager := m\<rparr>)) (mgr_call (we_unicode E) (session w) cmd (manager w))"

definition on_cache :: "('db Cache \<Rightarrow> 'db Cache) \<Rightarrow> 'db Web \<Rightarrow> 'db Web" where
  "on_cache f w = w\<lparr>page_cache := map_option f (page_cache w)\<rparr>"

section \<open>Responses\<close>

record HttpReply =
  hr_status :: nat
  hr_headers :: "(bytes \<times> bytes) list"
  hr_body :: bytes

text \<open>An unwrap that fails takes the connection down.\<close>

datatype Answer = Reply HttpReply | Panicked

definition html_reply :: "bytes \<Rightarrow> HttpReply" where
  "html_reply body = \<lparr>hr_status = 200, hr_headers = [(''content-type'', ''text/html; charset=utf-8'')], hr_body = body\<rparr>"

definition redirect_to :: "bytes \<Rightarrow> HttpReply" where
  "redirect_to uri = \<lparr>hr_status = 303, hr_headers = [(''location'', uri)], hr_body = []\<rparr>"

definition quoted :: "bytes \<Rightarrow> bytes" where
  "quoted s = CHR 0x22 # s @ [CHR 0x22]"

text \<open>\<open>HeaderValue::from_str\<close>.\<close>

definition add_header :: "bytes \<Rightarrow> bytes \<Rightarrow> HttpReply \<Rightarrow> HttpReply" where
  "add_header n v r = (if header_to_str v \<noteq> None then r\<lparr>hr_headers := hr_headers r @ [(n, v)]\<rparr> else r)"

definition build_cached_html_response :: "bytes \<Rightarrow> bytes \<Rightarrow> nat \<Rightarrow> HttpReply" where
  "build_cached_html_response body tag ttl_secs =
     add_header ''etag'' (quoted tag) (add_header ''cache-control'' (''private, max-age='' @ nat_to_string ttl_secs) (html_reply body))"

text \<open>The builder of the 304 takes any byte but control characters; its result is unwrapped.\<close>

definition not_modified :: "bytes \<Rightarrow> Answer" where
  "not_modified tag =
     (if list_all (\<lambda>b. 32 \<le> byte_val b \<and> byte_val b \<noteq> 127 \<or> byte_val b = 9) (quoted tag)
      then Reply \<lparr>hr_status = 304, hr_headers = [(''etag'', quoted tag)], hr_body = []\<rparr>
      else Panicked)"

definition error_html :: "bytes \<Rightarrow> HttpReply" where
  "error_html msg = html_reply (error_page msg)"

definition effective_ttl_secs :: "int \<Rightarrow> nat \<Rightarrow> nat" where
  "effective_ttl_secs server_max_age config_cap_secs =
     (if server_max_age \<le> 0 then 0 else min (nat server_max_age) config_cap_secs)"

section \<open>Error texts\<close>

fun protocol_error_to_string :: "ProtocolError \<Rightarrow> bytes" where
  "protocol_error_to_string InvalidRequest = ''Invalid request format''"
| "protocol_error_to_string InvalidResponse = ''Invalid response format''"
| "protocol_error_to_string UrlTooLong = ''URL too long''"
| "protocol_error_to_string PayloadTooLarge = ''Payload too large''"

fun compression_error_to_string :: "CompressionError \<Rightarrow> bytes" where
  "compression_error_to_string (CompressFailed e) = ''Compression failed: '' @ e"
| "compression_error_to_string (DecompressFailed e) = ''Decompression failed: '' @ e"
| "compression_error_to_string TooLarge = ''Decompressed data too large''"

section \<open>From a compressed page to HTML\<close>

definition rewritten_page ::
  "('u, 'db) WebEnv \<Rightarrow> bytes \<Rightarrow> bytes \<Rightarrow> bytes \<Rightarrow> (bytes, bytes) result" where
  "rewritten_page E utf8_message compressed url =
     (case brotli_decompress (we_dcm E) compressed of
        Inl e \<Rightarrow> Err (''Decompression failed: '' @ compression_error_to_string e)
      | Inr decompressed \<Rightarrow>
          (case from_utf8 decompressed of
             None \<Rightarrow> Err utf8_message
           | Some text \<Rightarrow>
               (case rewrite_html (we_rewriter E) text url of
                  Inl e \<Rightarrow> Err (''Failed to rewrite HTML: '' @ rewrite_error_to_string e)
                | Inr rewritten \<Rightarrow> Ok (browse_page rewritten url))))"

definition serve_from_hit :: "('u, 'db) WebEnv \<Rightarrow> Hit \<Rightarrow> bytes \<Rightarrow> 'db Web \<Rightarrow> HttpReply" where
  "serve_from_hit E hit url w =
     (case rewritten_page E ''Invalid UTF-8 in cached response'' (hit_body hit) url of
        Inl msg \<Rightarrow> error_html msg
      | Inr body \<Rightarrow>
          let now = web_now E w; fetched = hit_fetched_at hit * 1000;
              remaining = (if fetched \<le> now then (hit_max_age hit * 1000 - (now - fetched)) div 1000 else 0)
          in build_cached_html_response body (hit_etag hit) remaining)"

section \<open>Over the air\<close>

fun bytes_reply :: "Reply \<Rightarrow> (AgwpeError, bytes) result" where
  "bytes_reply (BytesReply r) = r"
| "bytes_reply (UnitReply r) = Err TaskStopped"

definition send_error_page :: "AgwpeError \<Rightarrow> HttpReply" where
  "send_error_page e =
     (case e of
        NeedsReconsent \<Rightarrow>
          html_reply (render_session_error_page ''Session dropped and the disclaimer text changed. Please reconnect and re-consent.'' True)
      | SessionDied why \<Rightarrow> html_reply (render_session_error_page (''Session lost: '' @ why @ ''. Please reconnect.'') True)
      | DisconnectedByOperator \<Rightarrow> html_reply (render_session_error_page ''Request cancelled by operator disconnect.'' True)
      | e \<Rightarrow> error_html (''Request failed: '' @ agwpe_error_to_string e))"

definition error_text_page :: "('u, 'db) WebEnv \<Rightarrow> bytes \<Rightarrow> HttpReply" where
  "error_text_page E b64 =
     (case decode_payload (we_dec E) b64 of
        Inl e \<Rightarrow> error_html (''Base64 decode failed: '' @ protocol_error_to_string e)
      | Inr compressed \<Rightarrow>
          (case brotli_decompress (we_dcm E) compressed of
             Inl e \<Rightarrow> error_html (''Decompression failed: '' @ compression_error_to_string e)
           | Inr d \<Rightarrow> error_html (case from_utf8 d of Some text \<Rightarrow> text | None \<Rightarrow> ''Invalid UTF-8'')))"

text \<open>\<open>cache_for_write\<close> is the cache or nothing, as the caller passes it.\<close>

definition ok_page ::
  "('u, 'db) WebEnv \<Rightarrow> bytes \<Rightarrow> bool \<Rightarrow> bytes \<Rightarrow> int \<Rightarrow> bytes \<Rightarrow> 'db Web \<Rightarrow> HttpReply \<times> 'db Web" where
  "ok_page E url cache_for_write tag age b64 w =
     (case decode_payload (we_dec E) b64 of
        Inl e \<Rightarrow> (error_html (''Base64 decode failed: '' @ protocol_error_to_string e), w)
      | Inr compressed \<Rightarrow>
          let w = (if cache_for_write then on_cache (cache_insert (we_sql E) (web_secs E w) url tag compressed age) w else w) in
          (case rewritten_page E ''Invalid UTF-8 in response'' compressed url of
             Inl msg \<Rightarrow> (error_html msg, w)
           | Inr body \<Rightarrow> (build_cached_html_response body tag (effective_ttl_secs age (we_max_ttl E)), w)))"

definition revalidated_page ::
  "('u, 'db) WebEnv \<Rightarrow> bytes \<Rightarrow> bool \<Rightarrow> bytes option \<Rightarrow> bytes \<Rightarrow> 'db Web \<Rightarrow> HttpReply \<times> 'db Web" where
  "revalidated_page E url cache_for_write cached_etag tag w =
     (let fail = error_html ''Server sent NotModified but no cache entry is available'' in
      case (cache_for_write, page_cache w, cached_etag) of
        (True, Some _, Some etag_sent) \<Rightarrow>
          if etag_sent = tag then
            let w = on_cache (touch_fresh (we_sql E) (web_secs E w) url) w in
            (case Option.bind (page_cache w) (lookup (we_sql E) url) of
               Some hit \<Rightarrow> (serve_from_hit E hit url w, w)
             | None \<Rightarrow> (fail, w))
          else (fail, w)
      | _ \<Rightarrow> (fail, w))"

definition render_response ::
  "('u, 'db) WebEnv \<Rightarrow> bytes \<Rightarrow> bool \<Rightarrow> bytes option \<Rightarrow> bytes \<Rightarrow> 'db Web \<Rightarrow> HttpReply \<times> 'db Web" where
  "render_response E url cache_for_write cached_etag resp_data w =
     (case decode_header resp_data of
        Inl e \<Rightarrow> (error_html (''Invalid response header: '' @ protocol_error_to_string e), w)
      | Inr None \<Rightarrow> (error_html ''Incomplete response header'', w)
      | Inr (Some (st, b64_len, tag, age, header_end)) \<Rightarrow>
          if length resp_data < header_end + b64_len then (error_html ''Incomplete response payload'', w)
          else
            let b64 = take b64_len (drop header_end resp_data) in
            (case st of
               StatusNotModified \<Rightarrow> revalidated_page E url cache_for_write cached_etag tag w
             | StatusOk \<Rightarrow> ok_page E url cache_for_write tag age b64 w
             | _ \<Rightarrow> (error_text_page E b64, w)))"

fun request_etag :: "Request \<Rightarrow> bytes option" where
  "request_etag (Get url inm) = inm"
| "request_etag (Post url body) = None"

definition dispatch_ax25 ::
  "('u, 'db) WebEnv \<Rightarrow> bytes \<Rightarrow> Request \<Rightarrow> bool \<Rightarrow> 'db Web \<Rightarrow> (HttpReply \<times> 'db Web) option" where
  "dispatch_ax25 E url req cache_for_write w =
     (let encoded = request_encode req;
          cmd = (if auto_reconnect (connection (we_config E)) then SendRequestWithReconnect encoded else SendRequest encoded)
      in case web_call E cmd w of
           None \<Rightarrow> None
         | Some (reply, w) \<Rightarrow>
             Some (case bytes_reply reply of
                     Inl e \<Rightarrow> (send_error_page e, w)
                   | Inr resp_data \<Rightarrow> render_response E url cache_for_write (request_etag req) resp_data w))"

section \<open>Browsing\<close>

definition web_lookup :: "('u, 'db) WebEnv \<Rightarrow> bytes \<Rightarrow> 'db Web \<Rightarrow> Hit option" where
  "web_lookup E url w = Option.bind (page_cache w) (lookup (we_sql E) url)"

definition handle_browse ::
  "('u, 'db) WebEnv \<Rightarrow> bytes \<Rightarrow> bytes option \<Rightarrow> bool \<Rightarrow> bytes option \<Rightarrow> 'db Web \<Rightarrow> (Answer \<times> 'db Web) option" where
  "handle_browse E url form nocache browser_if_none_match w =
     (if connection_state (web_app w) \<noteq> CsConnected then Some (Reply (redirect_to ''/connect''), w)
      else (case form of
              Some body \<Rightarrow> map_option (apfst Reply) (dispatch_ax25 E url (Post url body) False w)
            | None \<Rightarrow>
                let cached = (if nocache then None else web_lookup E url w) in
                (case cached of
                   Some hit \<Rightarrow>
                     if is_fresh hit (web_now E w) then
                       let w = on_cache (touch_last_used (we_sql E) (web_secs E w) url) w in
                       if browser_if_none_match = Some (hit_etag hit) then Some (not_modified (hit_etag hit), w)
                       else Some (Reply (serve_from_hit E hit url w), w)
                     else map_option (apfst Reply) (dispatch_ax25 E url (Get url (Some (hit_etag hit))) True w)
                 | None \<Rightarrow> map_option (apfst Reply) (dispatch_ax25 E url (Get url None) True w))))"

definition browse_get_handler ::
  "('u, 'db) WebEnv \<Rightarrow> bytes option \<Rightarrow> bytes option \<Rightarrow> bytes option \<Rightarrow> 'db Web \<Rightarrow> (Answer \<times> 'db Web) option" where
  "browse_get_handler E url_param nocache_param inm_header w =
     (if url_param = None \<or> url_param = Some [] then
        if connection_state (web_app w) \<noteq> CsConnected then Some (Reply (redirect_to ''/connect''), w)
        else Some (Reply (html_reply (browse_page [] [])), w)
      else
        let browser_inm = map_option (\<lambda>s. trim_end_matches (\<lambda>b. b = CHR 0x22) (trim_start_matches (\<lambda>b. b = CHR 0x22) s))
                            (Option.bind inm_header header_to_str)
        in handle_browse E (the url_param) None (nocache_param = Some ''1'') browser_inm w)"

definition browse_post_handler ::
  "('u, 'db) WebEnv \<Rightarrow> bytes option \<Rightarrow> bytes \<Rightarrow> 'db Web \<Rightarrow> (Answer \<times> 'db Web) option" where
  "browse_post_handler E url_param body w =
     (if url_param = None \<or> url_param = Some [] then Some (Reply (redirect_to ''/connect''), w)
      else handle_browse E (the url_param) (Some body) True None w)"

definition root_handler :: HttpReply where
  "root_handler = redirect_to ''/connect''"

section \<open>Every request is answered\<close>

lemma mgr_call_total: "\<exists>r m'. mgr_call U ss cmd m = Some (r, m')"
proof (cases m)
  case (OnAgwpe a)
  then show ?thesis using agw.serve_command_total [of U ss cmd a] by auto
next
  case (OnVara a)
  then show ?thesis using vara.serve_command_total [of U U ss cmd a] by auto
qed

lemma web_call_total: "\<exists>r w'. web_call E cmd w = Some (r, w') \<and> page_cache w' = page_cache w"
  using mgr_call_total [of "we_unicode E" "session w" cmd "manager w"] by (auto simp: web_call_def)

lemma render_uncached: "page_cache (snd (render_response E url False tag0 d w)) = page_cache w"
  by (simp add: render_response_def ok_page_def revalidated_page_def Let_def split: sum.splits option.splits Status.splits)

lemma dispatch_total:
  "\<exists>r w'. dispatch_ax25 E url req cw w = Some (r, w') \<and> (\<not> cw \<longrightarrow> page_cache w' = page_cache w)"
proof -
  let ?cmd = "if auto_reconnect (connection (we_config E)) then SendRequestWithReconnect (request_encode req)
      else SendRequest (request_encode req)"
  obtain reply w1 where c: "web_call E ?cmd w = Some (reply, w1)" "page_cache w1 = page_cache w"
    using web_call_total by blast
  show ?thesis
  proof (cases "bytes_reply reply")
    case (Inl e)
    with c show ?thesis by (simp add: dispatch_ax25_def)
  next
    case (Inr d)
    obtain r w2 where "render_response E url cw (request_etag req) d w1 = (r, w2)" by fastforce
    with c Inr render_uncached [of E url "request_etag req" d w1] show ?thesis by (auto simp: dispatch_ax25_def)
  qed
qed


section \<open>A page is fetched once\<close>

lemma request_reply:
  assumes "handle_send_request U agwpe_transport ss d (actor_sys a) = Some (Ok buf, s')"
    and "cmd = SendRequest d \<or> cmd = SendRequestWithReconnect d"
  shows "mgr_call U ss cmd (OnAgwpe a) = Some (BytesReply (Ok buf), OnAgwpe (a\<lparr>actor_sys := s'\<rparr>))"
proof -
  have "\<not> is_aborted (actor_sys a)"
    using assms(1) by (auto simp: handle_send_request_def sbind_def check_abort_def)
  then show ?thesis
    using assms by (auto simp: reply_bytes_def handle_send_request_with_reconnect_def sbind_def check_abort_def)
qed

lemma fresh_page_served:
  assumes "connection_state (web_app w) = CsConnected" and "web_lookup E url w = Some hit" and "is_fresh hit (web_now E w)"
    and "rewritten_page E ''Invalid UTF-8 in cached response'' (hit_body hit) url = Ok body"
  shows "\<exists>ans w'. handle_browse E url None False inm w = Some (ans, w') \<and> manager w' = manager w
     \<and> (if inm = Some (hit_etag hit) then ans = not_modified (hit_etag hit)
        else \<exists>ttl \<le> hit_max_age hit. ans = Reply (build_cached_html_response body (hit_etag hit) ttl))"
proof -
  let ?w = "on_cache (touch_last_used (we_sql E) (web_secs E w) url) w"
  let ?ttl = "(hit_max_age hit * 1000 - (web_now E ?w - hit_fetched_at hit * 1000)) div 1000"
  have "web_now E ?w = web_now E w" by (simp add: web_now_def on_cache_def)
  then have "serve_from_hit E hit url ?w = build_cached_html_response body (hit_etag hit) ?ttl"
    using assms(3,4) by (simp add: serve_from_hit_def Let_def is_fresh_def)
  moreover have "?ttl \<le> hit_max_age hit" by (simp add: div_le_mono order.trans [of _ "hit_max_age hit * 1000 div 1000"])
  moreover have "manager ?w = manager w" by (simp add: on_cache_def)
  ultimately show ?thesis
    using assms(1-3) by (auto simp: handle_browse_def Let_def intro!: exI [of _ ?ttl])
qed

lemma rewritten_page_ok:
  assumes "brotli_decompress (we_dcm E) compressed = Ok text" and "utf8_valid text"
    and "rewrite_html (we_rewriter E) text url = Ok rewritten"
  shows "rewritten_page E m compressed url = Ok (browse_page rewritten url)"
  using assms by (simp add: rewritten_page_def from_utf8_def)

lemma ok_page_fetched:
  assumes "decode_header buf = Ok (Some (StatusOk, len, tag, age, he))" and "he + len \<le> length buf"
    and "decode_payload (we_dec E) (take len (drop he buf)) = Ok compressed"
    and "rewritten_page E ''Invalid UTF-8 in response'' compressed url = Ok body"
  shows "render_response E url True t0 buf w =
     (build_cached_html_response body tag (effective_ttl_secs age (we_max_ttl E)),
      on_cache (cache_insert (we_sql E) (web_secs E w) url tag compressed age) w)"
  using assms by (simp add: render_response_def ok_page_def Let_def)

text \<open>
  C6: a page travels once. When the answer of the server to a browse request arrives intact, whatever
  the framing and segmentation, the operator sees the decompressed, rewritten page with its tag and
  lifetime; and until that lifetime or the cap of the cache is over, browsing the same address again
  is answered without the transport, with the same page, or with 304 when the browser already
  has it.
\<close>

theorem page_is_fetched_once:
  assumes db: "healthy_sqlite (we_sql E) tab" and codec: "base64_codec enc (we_dec E)"
    and start: "connection_state (web_app w) = CsConnected" "manager w = OnAgwpe a" "session w = session_new n"
      "page_cache w = Some c" "nocache \<or> web_lookup E url w = None"
    and page: "status r = StatusOk" "0 \<le> max_age r" "brotli_decompress (we_dcm E) (payload r) = Ok text" "utf8_valid text"
      "rewrite_html (we_rewriter E) text url = Ok rewritten"
    and air: "good_stream enc r banner" "list_all (\<lambda>f. frame_ok f \<and> frame_type f = SendData) fs"
      "concat (map frame_data fs) = banner @ response_encode enc r"
      "delivers (clock (actor_sys a) + ss_response_timeout_secs (session_new n) * 1000) (transport (actor_sys a))
         (concat (map frame_encode fs) @ rest) tail"
      "\<not> abort_flag (actor_sys a)"
      "list_all (\<lambda>p. clock (actor_sys a) + ss_response_timeout_secs (session_new n) * 1000 \<le> p) (presses (actor_sys a))"
    and time: "\<forall>t. we_wall E t div 1000 < 2 ^ 63"
  shows "\<exists>w'. handle_browse E url None nocache inm w =
        Some (Reply (build_cached_html_response (browse_page rewritten url) (etag r) (effective_ttl_secs (max_age r) (we_max_ttl E))), w')
     \<and> (\<forall>w2 inm2. page_cache w2 = page_cache w' \<and> connection_state (web_app w2) = CsConnected
           \<and> web_secs E w' * 1000 \<le> web_now E w2 \<and> web_now E w2 < (web_secs E w' + min (nat (max_age r)) (max_ttl c)) * 1000 \<longrightarrow>
         (\<exists>ans w3. handle_browse E url None False inm2 w2 = Some (ans, w3) \<and> manager w3 = manager w2
            \<and> (if inm2 = Some (etag r) then ans = not_modified (etag r)
               else \<exists>ttl \<le> nat (max_age r). ans = Reply (build_cached_html_response (browse_page rewritten url) (etag r) ttl))))"
proof -
  let ?req = "Get url None" and ?U = "we_unicode E"
  obtain buf s' len he where got:
    "handle_send_request ?U agwpe_transport (session_new n) (request_encode ?req) (actor_sys a) = Some (Ok buf, s')"
    "decode_header buf = Ok (Some (StatusOk, len, etag r, max_age r, he))" "he + len \<le> length buf"
    "decode_payload (we_dec E) (take len (drop he buf)) = Ok (payload r)"
    using client_decodes [OF codec air, of ?U "request_encode ?req"] page(1) by auto
  let ?w1 = "w\<lparr>manager := OnAgwpe (a\<lparr>actor_sys := s'\<rparr>)\<rparr>"
  let ?body = "browse_page rewritten url"
  let ?reply = "build_cached_html_response ?body (etag r) (effective_ttl_secs (max_age r) (we_max_ttl E))"
  define w' where "w' = on_cache (cache_insert (we_sql E) (web_secs E ?w1) url (etag r) (payload r) (max_age r)) ?w1"
  have render: "render_response E url True None buf ?w1 = (?reply, w')"
    using ok_page_fetched [OF got(2-4) rewritten_page_ok [OF page(3-5)]] by (simp add: w'_def)
  have "dispatch_ax25 E url ?req True w = Some (?reply, w')"
    using request_reply [OF got(1)] start(2,3) render by (simp add: dispatch_ax25_def web_call_def del: request_encode.simps)
  then have first: "handle_browse E url None nocache inm w = Some (Reply ?reply, w')"
    using start(1,5) by (auto simp: handle_browse_def Let_def)
  have secs: "web_secs E w' = web_secs E ?w1" by (simp add: w'_def web_secs_def web_now_def on_cache_def)
  have age: "max_age r < 2 ^ 31" using air(1) by (simp add: good_stream_def well_formed_def)
  let ?hit = "\<lparr>hit_etag = etag r, hit_body = payload r, hit_fetched_at = web_secs E w', hit_max_age = min (nat (max_age r)) (max_ttl c)\<rparr>"
  have hit: "web_lookup E url w2 = Some ?hit" if "page_cache w2 = page_cache w'" for w2
    using that start(4) time healthy_sqlite.lookup_insert [OF db page(2) age, of "web_secs E ?w1" url "etag r" "payload r" c]
    by (simp add: web_lookup_def w'_def on_cache_def web_secs_def web_now_def)
  have again: "\<exists>ans w3. handle_browse E url None False inm2 w2 = Some (ans, w3) \<and> manager w3 = manager w2
      \<and> (if inm2 = Some (etag r) then ans = not_modified (etag r)
         else \<exists>ttl \<le> nat (max_age r). ans = Reply (build_cached_html_response ?body (etag r) ttl))"
    if later: "page_cache w2 = page_cache w'" "connection_state (web_app w2) = CsConnected"
      "web_secs E w' * 1000 \<le> web_now E w2" "web_now E w2 < (web_secs E w' + min (nat (max_age r)) (max_ttl c)) * 1000" for w2 inm2
  proof -
    have "is_fresh ?hit (web_now E w2)" using later(3,4) by (simp add: is_fresh_def add_mult_distrib)
    moreover have "rewritten_page E ''Invalid UTF-8 in cached response'' (hit_body ?hit) url = Ok ?body"
      using rewritten_page_ok [OF page(3-5)] by simp
    ultimately show ?thesis
      using fresh_page_served [OF later(2) hit [OF later(1)], of ?body inm2] by (auto split: if_splits)
  qed
  show ?thesis using first again by blast
qed

section \<open>A damaged page is kept\<close>

text \<open>
  A page that cannot be shown is cached all the same. The compressed page goes into the cache before
  it is decompressed, so when decompression or the rewriter fails, the operator gets an error
  page, and gets it again from the cache, without a new request, for the whole lifetime the server announced.
\<close>

theorem damaged_page_is_cached:
  assumes db: "healthy_sqlite (we_sql E) tab" and codec: "base64_codec enc (we_dec E)"
    and resp: "well_formed enc r" "status r = StatusOk" "0 \<le> max_age r"
    and damaged: "brotli_decompress (we_dcm E) (payload r) = Err err" and c: "page_cache w = Some c"
    and time: "\<forall>t. we_wall E t div 1000 < 2 ^ 63"
    and later: "page_cache w2 = page_cache (snd (render_response E url True None (response_encode enc r) w))"
      "connection_state (web_app w2) = CsConnected" "web_secs E w * 1000 \<le> web_now E w2"
      "web_now E w2 < (web_secs E w + min (nat (max_age r)) (max_ttl c)) * 1000" "inm \<noteq> Some (etag r)"
  shows "\<exists>w3. handle_browse E url None False inm w2 =
       Some (Reply (error_html (''Decompression failed: '' @ compression_error_to_string err)), w3) \<and> manager w3 = manager w2"
proof -
  let ?buf = "response_encode enc r" and ?he = "header_size enc r" and ?len = "length (enc (payload r))"
  have dh: "decode_header ?buf = Ok (Some (StatusOk, ?len, etag r, max_age r, ?he))"
    using decode_header_frame [OF resp(1), of "[]" "[]"] resp(2) by (simp add: MAGIC_def)
  have long: "?he + ?len \<le> length ?buf" by (simp add: response_encode_shape header_size_def)
  have dp: "decode_payload (we_dec E) (take ?len (drop ?he ?buf)) = Ok (payload r)"
    using payload_slice [of ?buf "[]" enc r] long base64_codec.dec_enc [OF codec] by (simp add: decode_payload_def)
  let ?hit = "\<lparr>hit_etag = etag r, hit_body = payload r, hit_fetched_at = web_secs E w, hit_max_age = min (nat (max_age r)) (max_ttl c)\<rparr>"
  have "snd (render_response E url True None ?buf w) =
      on_cache (cache_insert (we_sql E) (web_secs E w) url (etag r) (payload r) (max_age r)) w"
    using dh long dp damaged by (simp add: render_response_def ok_page_def rewritten_page_def Let_def)
  moreover have "max_age r < 2 ^ 31" using resp(1) by (simp add: well_formed_def)
  ultimately have hit: "web_lookup E url w2 = Some ?hit"
    using later(1) c time healthy_sqlite.lookup_insert [OF db resp(3), of "web_secs E w" url "etag r" "payload r" c]
    by (simp add: web_lookup_def on_cache_def web_secs_def web_now_def)
  have "is_fresh ?hit (web_now E w2)" using later(3,4) by (simp add: is_fresh_def add_mult_distrib)
  with hit later(2,5) damaged show ?thesis
    by (auto simp: handle_browse_def Let_def on_cache_def serve_from_hit_def rewritten_page_def)
qed

section \<open>Examples\<close>

definition sample_web_env :: "(unit, (bytes, Row) alist) WebEnv" where
  "sample_web_env =
     \<lparr>we_unicode = ascii_unicode, we_sql = list_sql, we_dec = b64_decode, we_dcm = stored_decompressor,
      we_rewriter = \<lparr>urls = sample_urls, selects = css_selects, rewrite_str = (\<lambda>_ page. Ok page)\<rparr>,
      we_wall = (\<lambda>_. 1700000000000), we_max_ttl = 600, we_config = default_config,
      we_ports_json = (\<lambda>_. None), we_iso = (\<lambda>_. [])\<rparr>"

definition sample_actor :: "ConnectionState \<Rightarrow> AgwpeTransport Actor" where
  "sample_actor cs =
     \<lparr>actor_callsign = ''K1ABC'',
      actor_sys = (sample_system (sample_link (concat (map frame_encode sample_stream) @ [])))
        \<lparr>app := (app_new default_config)\<lparr>connection_state := cs\<rparr>\<rparr>\<rparr>"

definition sample_web :: "ConnectionState \<Rightarrow> (bytes, Row) alist Web" where
  "sample_web cs = \<lparr>manager = OnAgwpe (sample_actor cs), session = session_new 60, page_cache = Some example_cache\<rparr>"


theorem page_is_fetched_once_witness:
  "\<exists>w' ans w3. handle_browse sample_web_env ''http://h/'' None False None (sample_web CsConnected)
       = Some (Reply (build_cached_html_response (browse_page ''hi'' ''http://h/'') ''-'' 60), w')
     \<and> handle_browse sample_web_env ''http://h/'' None False None ((sample_web CsConnected)\<lparr>page_cache := page_cache w'\<rparr>) = Some (ans, w3)
     \<and> manager w3 = manager (sample_web CsConnected)"
proof -
  let ?E = sample_web_env and ?w = "sample_web CsConnected" and ?a = "sample_actor CsConnected" and ?u = "''http://h/''"
  have env: "healthy_sqlite (we_sql ?E) DAList.lookup" "base64_codec b64_encode (we_dec ?E)"
    "\<forall>t. we_wall ?E t div 1000 < 2 ^ 63"
    using table.healthy_sqlite_axioms rfc4648.base64_codec_axioms by (simp_all add: sample_web_env_def)
  have start: "connection_state (web_app ?w) = CsConnected" "manager ?w = OnAgwpe ?a" "session ?w = session_new 60"
    "page_cache ?w = Some example_cache" "False \<or> web_lookup ?E ?u ?w = None"
    by (simp_all add: sample_web_def sample_actor_def web_app_def web_lookup_def lookup_def sample_web_env_def
        example_cache_def list_sql_def)
  have page: "status sample_response = StatusOk" "0 \<le> max_age sample_response"
    "brotli_decompress (we_dcm ?E) (payload sample_response) = Ok ''hi''" "utf8_valid ''hi''"
    "rewrite_html (we_rewriter ?E) ''hi'' ?u = Ok ''hi''"
    using decompress_compress [OF stored_undoes, of "''hi''" 0 "''hi''"]
    by (simp_all add: sample_response_def sample_web_env_def rewrite_html_def sample_urls_def brotli_compress_def
        stored_compressor_def MAX_DECOMPRESSED_SIZE_def is_ascii_def)
  have a: "clock (actor_sys ?a) = 0" "transport (actor_sys ?a) = sample_link (concat (map frame_encode sample_stream) @ [])"
    "\<not> abort_flag (actor_sys ?a)" "presses (actor_sys ?a) = []"
    by (simp_all add: sample_actor_def sample_system_def)
  have d: "delivers (clock (actor_sys ?a) + ss_response_timeout_secs (session_new 60) * 1000) (transport (actor_sys ?a))
      (concat (map frame_encode sample_stream) @ []) []"
    using delivers_later [OF sample_link_delivers [OF sample_stream_frames(3)]] unfolding a by (simp add: session_new_def)
  have p: "list_all (\<lambda>p. clock (actor_sys ?a) + ss_response_timeout_secs (session_new 60) * 1000 \<le> p) (presses (actor_sys ?a))"
    by (simp add: a)
  have r: "etag sample_response = ''-''" "max_age sample_response = 60" "effective_ttl_secs 60 (we_max_ttl ?E) = 60"
    "max_ttl example_cache = 600"
    by (simp_all add: sample_response_def effective_ttl_secs_def sample_web_env_def example_cache_def)
  have now: "web_now ?E v = 1700000000000" "web_secs ?E v = 1700000000" for v
    by (simp_all add: web_now_def web_secs_def sample_web_env_def)
  note once = page_is_fetched_once [OF env(1,2) start page sample_stream_good sample_stream_frames(1,2) d a(3) p env(3), of None,
      unfolded now r]
  obtain w' where w': "handle_browse ?E ?u None False None ?w = Some (Reply (build_cached_html_response (browse_page ''hi'' ?u) ''-'' 60), w')"
    and later: "\<forall>w2 inm2. page_cache w2 = page_cache w' \<and> connection_state (web_app w2) = CsConnected
        \<and> 1700000000 * 1000 \<le> (1700000000000 :: nat) \<and> 1700000000000 < (1700000000 + min (nat 60) 600) * (1000 :: nat) \<longrightarrow>
      (\<exists>ans w3. handle_browse ?E ?u None False inm2 w2 = Some (ans, w3) \<and> manager w3 = manager w2
         \<and> (if inm2 = Some ''-'' then ans = not_modified ''-''
            else \<exists>ttl \<le> nat 60. ans = Reply (build_cached_html_response (browse_page ''hi'' ?u) ''-'' ttl)))"
    by (rule exE [OF once]) (elim conjE, rule that)
  have "connection_state (web_app (?w\<lparr>page_cache := page_cache w'\<rparr>)) = CsConnected" using start(1) by (simp add: web_app_def)
  then obtain ans w3 where "handle_browse ?E ?u None False None (?w\<lparr>page_cache := page_cache w'\<rparr>) = Some (ans, w3)" "manager w3 = manager ?w"
    using later [rule_format, of "?w\<lparr>page_cache := page_cache w'\<rparr>" None] by auto
  with w' show ?thesis by blast
qed

definition broken_env :: "(unit, (bytes, Row) alist) WebEnv" where
  "broken_env = sample_web_env\<lparr>we_dcm := (\<lambda>_. [Inl ''corrupt input''])\<rparr>"

theorem damaged_page_is_cached_witness:
  "\<exists>w3. handle_browse broken_env ''u'' None False None
        ((sample_web CsConnected)\<lparr>page_cache := page_cache (snd (render_response broken_env ''u'' True None
             (response_encode b64_encode sample_response) (sample_web CsConnected)))\<rparr>)
      = Some (Reply (error_html (''Decompression failed: Decompression failed: corrupt input'')), w3)"
proof -
  let ?w = "sample_web CsConnected"
  let ?w2 = "?w\<lparr>page_cache := page_cache (snd (render_response broken_env ''u'' True None (response_encode b64_encode sample_response) ?w))\<rparr>"
  have env: "healthy_sqlite (we_sql broken_env) DAList.lookup" "base64_codec b64_encode (we_dec broken_env)"
    "\<forall>t. we_wall broken_env t div 1000 < 2 ^ 63"
    "brotli_decompress (we_dcm broken_env) (payload sample_response) = Err (DecompressFailed ''corrupt input'')"
    using table.healthy_sqlite_axioms rfc4648.base64_codec_axioms
    by (simp_all add: broken_env_def sample_web_env_def brotli_decompress_def)
  have resp: "well_formed b64_encode sample_response" "status sample_response = StatusOk" "0 \<le> max_age sample_response"
    using sample_stream_good by (simp_all add: good_stream_def) (simp_all add: sample_response_def)
  have now: "web_now broken_env v = 1700000000000" "web_secs broken_env v = 1700000000" for v
    by (simp_all add: web_now_def web_secs_def broken_env_def sample_web_env_def)
  have w: "page_cache ?w = Some example_cache" "page_cache ?w2 = page_cache (snd (render_response broken_env ''u'' True None
      (response_encode b64_encode sample_response) ?w))" "connection_state (web_app ?w2) = CsConnected"
    by (simp_all add: sample_web_def sample_actor_def web_app_def)
  have times: "web_secs broken_env ?w * 1000 \<le> web_now broken_env ?w2"
    "web_now broken_env ?w2 < (web_secs broken_env ?w + min (nat (max_age sample_response)) (max_ttl example_cache)) * 1000"
    "None \<noteq> Some (etag sample_response)"
    by (simp_all add: now sample_response_def example_cache_def)
  show ?thesis
    using damaged_page_is_cached [OF env(1,2) resp env(4) w(1) env(3) w(2,3) times]
    unfolding compression_error_to_string.simps append.simps by blast
qed

end
