(* ===== verification/Client_Api.thy ===== *)
theory Client_Api
  imports Client_Web Server_Session
begin

text \<open>
  The other handlers of the local web interface (\<open>client/src/proxy.rs\<close>): the control endpoints that
  connect, disconnect and switch the transport, the configuration, the pages, the event stream and the
  routing table. The JSON bodies are the typed values that serde reads and writes; the consent
  endpoints are in \<open>Client_State\<close>.
\<close>

section \<open>Pages\<close>

fun connection_state_class :: "ConnectionState \<Rightarrow> bytes" where
  "connection_state_class CsDisconnected = ''status-disconnected''"
| "connection_state_class AgwpeConnected = ''status-agwpe-connected''"
| "connection_state_class Connecting = ''status-connecting''"
| "connection_state_class (AwaitingConsent d) = ''status-connecting''"
| "connection_state_class CsConnected = ''status-connected''"
| "connection_state_class (Reconnecting r) = ''status-reconnecting''"
| "connection_state_class (CsError e) = ''status-error''"

definition connect_page_handler :: "('u, 'db) WebEnv \<Rightarrow> 'db Web \<Rightarrow> HttpReply" where
  "connect_page_handler E w =
     (let s = web_app w; cfg = config s;
          ports_json = (case we_ports_json E (available_ports s) of Some j \<Rightarrow> j | None \<Rightarrow> ''[]'')
      in html_reply (connect_page (my_callsign cfg) (target_callsign cfg) (connection_state_to_string (connection_state s))
           (connection_state_class (connection_state s)) ports_json (transport_default cfg) (vara cfg)))"

definition configuration_page_handler :: "'db Web \<Rightarrow> HttpReply" where
  "configuration_page_handler w =
     (let cfg = config (web_app w) in
      html_reply (configuration_page (agwpe_host cfg) (agwpe_port cfg) (my_callsign cfg) (target_callsign cfg)
        (bpq_command cfg) (skip_bpq_app cfg)))"

definition cache_row :: "('u, 'db) WebEnv \<Rightarrow> nat \<Rightarrow> CacheEntry \<Rightarrow> CachePageRow" where
  "cache_row E now e =
     \<lparr>cp_url = ce_url e, size_bytes = ce_size e, fetched_at_iso = we_iso E (ce_fetched_at e),
      last_used_iso = we_iso E (ce_last_used e),
      ttl_remaining_secs =
        (if ce_fetched_at e * 1000 \<le> now then int ((ce_max_age e * 1000 - (now - ce_fetched_at e * 1000)) div 1000) else 0),
      cp_etag = ce_etag e\<rparr>"

definition cache_page_handler :: "('u, 'db) WebEnv \<Rightarrow> 'db Web \<Rightarrow> HttpReply" where
  "cache_page_handler E w =
     (case page_cache w of
        Some c \<Rightarrow>
          let entries = cache_list (we_sql E) c in
          html_reply (cache_page (map (cache_row E (web_now E w)) entries) (sum_list (map ce_size entries)) (cap_bytes c))
      | None \<Rightarrow> html_reply (cache_page [] 0 0))"

definition api_cache_delete :: "('u, 'db) WebEnv \<Rightarrow> bytes \<Rightarrow> 'db Web \<Rightarrow> HttpReply \<times> 'db Web" where
  "api_cache_delete E url w = (redirect_to ''/cache'', on_cache (cache_delete (we_sql E) url) w)"

definition api_cache_clear :: "('u, 'db) WebEnv \<Rightarrow> 'db Web \<Rightarrow> HttpReply \<times> 'db Web" where
  "api_cache_clear E w = (redirect_to ''/cache'', on_cache (cache_clear (we_sql E)) w)"

section \<open>The modem\<close>

record PortInfoJson =
  pij_port_num :: nat
  pij_description :: bytes

record AgwpeStatusResponse =
  st_ok :: bool
  st_state :: bytes
  st_ports :: "PortInfoJson list option"
  st_error :: "bytes option"

definition status_now :: "AppState \<Rightarrow> AgwpeStatusResponse" where
  "status_now s =
     \<lparr>st_ok = True, st_state = connection_state_to_string (connection_state s),
      st_ports = Some (map (\<lambda>p. \<lparr>pij_port_num = port_num p, pij_description = description p\<rparr>) (available_ports s)),
      st_error = None\<rparr>"

definition status_error :: "bytes \<Rightarrow> AgwpeStatusResponse" where
  "status_error e = \<lparr>st_ok = False, st_state = ''Error'', st_ports = None, st_error = Some e\<rparr>"

definition api_agwpe_status_get :: "'db Web \<Rightarrow> AgwpeStatusResponse" where
  "api_agwpe_status_get w = status_now (web_app w)"

fun unit_reply :: "Reply \<Rightarrow> (AgwpeError, unit) result" where
  "unit_reply (UnitReply r) = r"
| "unit_reply (BytesReply r) = Err TaskStopped"

definition agwpe_config :: "FileConfig \<Rightarrow> TransportConfig" where
  "agwpe_config cfg =
     \<lparr>kind = Ax25, agwpe = \<lparr>agwpe_params_host = agwpe_host cfg, agwpe_params_port = agwpe_port cfg\<rparr>, vara_params = vara cfg,
      tc_local_callsign = my_callsign cfg\<rparr>"

definition api_agwpe_status_post :: "('u, 'db) WebEnv \<Rightarrow> 'db Web \<Rightarrow> (AgwpeStatusResponse \<times> 'db Web) option" where
  "api_agwpe_status_post E w =
     (let cfg = config (web_app w) in
      if my_callsign cfg = [] then Some (status_error ''My callsign not configured'', w)
      else (case web_call E (ConnectModem (agwpe_config cfg)) w of
              None \<Rightarrow> None
            | Some (reply, w) \<Rightarrow>
                (case unit_reply reply of
                   Inl e \<Rightarrow> Some (status_error (agwpe_error_to_string e), w)
                 | Inr _ \<Rightarrow>
                     (case web_call E QueryPortsCmd w of
                        None \<Rightarrow> None
                      | Some (reply, w) \<Rightarrow>
                          (case unit_reply reply of
                             Inl e \<Rightarrow> Some (status_error (''Connected but port query failed: '' @ agwpe_error_to_string e), w)
                           | Inr _ \<Rightarrow> Some (status_now (web_app w), w))))))"

section \<open>Connecting\<close>

record ConnectRequest =
  cr_target_callsign :: bytes
  cr_port_num :: nat
  cr_transport :: "bytes option"
  cr_vara_cmd_host :: "bytes option"
  cr_vara_cmd_port :: "nat option"
  cr_vara_data_host :: "bytes option"
  cr_vara_data_port :: "nat option"
  cr_vara_mode :: "bytes option"
  cr_vara_bandwidth :: "bytes option"

record ConnectResponse =
  cn_ok :: bool
  cn_state :: "bytes option"
  cn_error :: "bytes option"

definition connect_failed :: "bytes \<Rightarrow> ConnectResponse" where
  "connect_failed e = \<lparr>cn_ok = False, cn_state = None, cn_error = Some e\<rparr>"

definition request_vara_mode :: "bytes option \<Rightarrow> VaraMode \<Rightarrow> VaraMode" where
  "request_vara_mode r configured = (if r = Some ''hf'' then Hf else configured)"

definition request_bandwidth :: "bytes option \<Rightarrow> VaraBandwidth \<Rightarrow> VaraBandwidth" where
  "request_bandwidth r configured =
     (if r = Some ''vnarrow'' then VNarrow
      else if r = Some ''bw250'' then Bw250
      else if r = Some ''bw500'' then Bw500
      else if r = Some ''bw2300'' then Bw2300
      else if r = Some ''bw2750'' then Bw2750
      else if r = Some ''vwide'' then VWide
      else configured)"

definition vara_config :: "ConnectRequest \<Rightarrow> TransportKind \<Rightarrow> FileConfig \<Rightarrow> TransportConfig" where
  "vara_config req k cfg =
     \<lparr>kind = k,
      agwpe = \<lparr>agwpe_params_host = agwpe_host cfg, agwpe_params_port = agwpe_port cfg\<rparr>,
      vara_params =
        \<lparr>cmd_host = unwrap_or (cr_vara_cmd_host req) (cmd_host (vara cfg)),
         cmd_port = unwrap_or (cr_vara_cmd_port req) (cmd_port (vara cfg)),
         data_host = unwrap_or (cr_vara_data_host req) (data_host (vara cfg)),
         data_port = unwrap_or (cr_vara_data_port req) (data_port (vara cfg)),
         mode = request_vara_mode (cr_vara_mode req) (mode (vara cfg)),
         bandwidth = request_bandwidth (cr_vara_bandwidth req) (bandwidth (vara cfg))\<rparr>,
      tc_local_callsign = my_callsign cfg\<rparr>"

text \<open>\<open>open_session\<close> on the active manager, and its answer.\<close>

definition open_on_manager :: "('u, 'db) WebEnv \<Rightarrow> ConnectRequest \<Rightarrow> 'db Web \<Rightarrow> (ConnectResponse \<times> 'db Web) option" where
  "open_on_manager E req w =
     (case web_call E (OpenSession (cr_target_callsign req) (cr_port_num req)) w of
        None \<Rightarrow> None
      | Some (reply, w) \<Rightarrow>
          Some (case unit_reply reply of
                  Inr _ \<Rightarrow> (\<lparr>cn_ok = True, cn_state = Some (connection_state_to_string (connection_state (web_app w))), cn_error = None\<rparr>, w)
                | Inl e \<Rightarrow> (connect_failed (agwpe_error_to_string e), w)))"

text \<open>
  A second manager over VARA shares the state, the log and the clock with the first. \<open>spawn_vara\<close>
  starts it; when its modem cannot be connected it is dropped, and the first one goes on with what
  the attempt did to the shared state.
\<close>

fun mgr_world :: "Mgr \<Rightarrow> World" where
  "mgr_world (OnAgwpe a) = World.truncate (actor_sys a)"
| "mgr_world (OnVara a) = World.truncate (actor_sys a)"

definition spawn_vara :: "VaraTransport \<Rightarrow> Mgr \<Rightarrow> VaraTransport Actor" where
  "spawn_vara t m =
     (let g = mgr_world m in
      \<lparr>actor_callsign = [],
       actor_sys = \<lparr>app = app g, log_tx = log_tx g, clock = clock g, abort_flag = False, presses = presses g,
                    consents = consents g, sent = sent g, transport = t\<rparr>\<rparr>)"

fun absorb_shared :: "Mgr \<Rightarrow> Mgr \<Rightarrow> Mgr" where
  "absorb_shared n (OnAgwpe a) =
     OnAgwpe (a\<lparr>actor_sys := (actor_sys a)\<lparr>app := app (mgr_world n), log_tx := log_tx (mgr_world n), clock := clock (mgr_world n)\<rparr>\<rparr>)"
| "absorb_shared n (OnVara a) =
     OnVara (a\<lparr>actor_sys := (actor_sys a)\<lparr>app := app (mgr_world n), log_tx := log_tx (mgr_world n), clock := clock (mgr_world n)\<rparr>\<rparr>)"

definition connect_vara ::
  "('u, 'db) WebEnv \<Rightarrow> VaraTransport \<Rightarrow> ConnectRequest \<Rightarrow> TransportKind \<Rightarrow> 'db Web \<Rightarrow> (ConnectResponse \<times> 'db Web) option" where
  "connect_vara E t req k w =
     (let cfg = config (web_app w);
          new_session = session_new (response_timeout_secs (connection cfg));
          new_manager = OnVara (spawn_vara t (manager w))
      in case mgr_call (we_unicode E) new_session (ConnectModem (vara_config req k cfg)) new_manager of
           None \<Rightarrow> None
         | Some (reply, new_manager) \<Rightarrow>
             (case unit_reply reply of
                Inl e \<Rightarrow>
                  Some (connect_failed (''VARA modem connect failed: '' @ agwpe_error_to_string e),
                        w\<lparr>manager := absorb_shared new_manager (manager w)\<rparr>)
              | Inr _ \<Rightarrow> open_on_manager E req (w\<lparr>manager := new_manager, session := new_session\<rparr>)))"

definition api_connect_handler ::
  "('u, 'db) WebEnv \<Rightarrow> VaraTransport \<Rightarrow> ConnectRequest \<Rightarrow> 'db Web \<Rightarrow> (ConnectResponse \<times> 'db Web) option" where
  "api_connect_handler E t req w =
     (if \<not> callsign_regex (hd (split_char (CHR ''-'') (cr_target_callsign req))) then
        Some (connect_failed ''Invalid target callsign format'', w)
      else (case (case cr_transport req of
                    Some s \<Rightarrow> transport_kind_from_str s
                  | None \<Rightarrow> Ok (transport_default (config (web_app w)))) of
              Inl e \<Rightarrow> Some (connect_failed (''Unknown transport: '' @ e), w)
            | Inr Ax25 \<Rightarrow> open_on_manager E req w
            | Inr k \<Rightarrow> connect_vara E t req k w))"

definition api_disconnect_handler :: "('u, 'db) WebEnv \<Rightarrow> 'db Web \<Rightarrow> (ConnectResponse \<times> 'db Web) option" where
  "api_disconnect_handler E w =
     (case web_call E CloseSession w of
        None \<Rightarrow> None
      | Some (reply, w) \<Rightarrow>
          Some (case unit_reply reply of
                  Inr _ \<Rightarrow> (\<lparr>cn_ok = True, cn_state = Some ''Disconnected'', cn_error = None\<rparr>,
                            w\<lparr>manager := mgr_update_app clear_agreed_disclaimer (manager w)\<rparr>)
                | Inl e \<Rightarrow> (connect_failed (agwpe_error_to_string e), w)))"

section \<open>Configuration and state\<close>

record ConfigResponse =
  cf_agwpe_host :: bytes
  cf_agwpe_port :: nat
  cf_my_callsign :: bytes
  cf_target_callsign :: bytes
  cf_bpq_command :: bytes
  cf_skip_bpq_app :: bool

definition api_config_get :: "'db Web \<Rightarrow> ConfigResponse" where
  "api_config_get w =
     (let cfg = config (web_app w) in
      \<lparr>cf_agwpe_host = agwpe_host cfg, cf_agwpe_port = agwpe_port cfg, cf_my_callsign = my_callsign cfg,
       cf_target_callsign = target_callsign cfg, cf_bpq_command = bpq_command cfg, cf_skip_bpq_app = skip_bpq_app cfg\<rparr>)"

record ConfigUpdate =
  up_agwpe_host :: "bytes option"
  up_agwpe_port :: "nat option"
  up_my_callsign :: "bytes option"
  up_target_callsign :: "bytes option"
  up_bpq_command :: "bytes option"
  up_skip_bpq_app :: "bool option"

definition apply_update :: "ConfigUpdate \<Rightarrow> FileConfig \<Rightarrow> FileConfig" where
  "apply_update u cfg =
     cfg\<lparr>agwpe_host := unwrap_or (up_agwpe_host u) (agwpe_host cfg),
         agwpe_port := unwrap_or (up_agwpe_port u) (agwpe_port cfg),
         my_callsign := unwrap_or (up_my_callsign u) (my_callsign cfg),
         target_callsign := unwrap_or (up_target_callsign u) (target_callsign cfg),
         bpq_command := unwrap_or (up_bpq_command u) (bpq_command cfg),
         skip_bpq_app := unwrap_or (up_skip_bpq_app u) (skip_bpq_app cfg)\<rparr>"

record ConfigSaveResponse =
  sv_ok :: bool
  sv_error :: "bytes option"

fun config_error_to_string :: "ConfigError \<Rightarrow> bytes" where
  "config_error_to_string (ConfigIo e) = ''IO error: '' @ e"
| "config_error_to_string (ConfigParse e) = ''Parse error: '' @ e"
| "config_error_to_string NoConfigDir = ''Config directory not found''"

text \<open>The last component is what was written to the file, if anything.\<close>

definition api_config_post ::
  "bytes option \<Rightarrow> (bytes, unit) result \<Rightarrow> (ini \<Rightarrow> (bytes, unit) result) \<Rightarrow> ConfigUpdate \<Rightarrow> 'db Web
     \<Rightarrow> ConfigSaveResponse \<times> 'db Web \<times> ini option" where
  "api_config_post config_dir mkdir write u w =
     (case default_path config_dir of
        Inl e \<Rightarrow> (\<lparr>sv_ok = False, sv_error = Some (''Failed to get config path: '' @ config_error_to_string e)\<rparr>, w, None)
      | Inr path \<Rightarrow>
          let cfg = apply_update u (config (web_app w)) in
          (case save mkdir write cfg of
             Inr saved \<Rightarrow>
               (\<lparr>sv_ok = True, sv_error = None\<rparr>,
                w\<lparr>manager := mgr_update_app (\<lambda>s. s\<lparr>config := cfg\<rparr>) (manager w)\<rparr>, Some saved)
           | Inl e \<Rightarrow> (\<lparr>sv_ok = False, sv_error = Some (''Failed to save config: '' @ config_error_to_string e)\<rparr>, w, None)))"

record StateResponse =
  sr_agwpe_host :: bytes
  sr_agwpe_port :: nat
  sr_transport :: bytes
  sr_vara_cmd_host :: bytes
  sr_vara_cmd_port :: nat
  sr_vara_data_host :: bytes
  sr_vara_data_port :: nat
  sr_vara_mode :: bytes
  sr_vara_bandwidth :: bytes

definition api_state_get :: "'db Web \<Rightarrow> StateResponse" where
  "api_state_get w =
     (let cfg = config (web_app w) in
      \<lparr>sr_agwpe_host = agwpe_host cfg, sr_agwpe_port = agwpe_port cfg,
       sr_transport = transport_kind_to_string (transport_default cfg),
       sr_vara_cmd_host = cmd_host (vara cfg), sr_vara_cmd_port = cmd_port (vara cfg),
       sr_vara_data_host = data_host (vara cfg), sr_vara_data_port = data_port (vara cfg),
       sr_vara_mode = vara_mode_to_string (mode (vara cfg)), sr_vara_bandwidth = vara_bandwidth_to_string (bandwidth (vara cfg))\<rparr>)"

section \<open>Events\<close>

text \<open>What the broadcast receiver yields.\<close>

datatype Received = Entry DebugLogEntry | Lagged nat | Closed

fun live_events :: "(DebugLogEntry \<Rightarrow> bytes option) \<Rightarrow> Received list \<Rightarrow> bytes list" where
  "live_events json [] = []"
| "live_events json (Entry e # rs) = (case json e of Some j \<Rightarrow> j # live_events json rs | None \<Rightarrow> live_events json rs)"
| "live_events json (Lagged n # rs) = live_events json rs"
| "live_events json (Closed # rs) = []"

definition events_handler :: "(DebugLogEntry \<Rightarrow> bytes option) \<Rightarrow> Received list \<Rightarrow> 'db Web \<Rightarrow> bytes list" where
  "events_handler json received w = List.map_filter json (get_logs None (web_app w)) @ live_events json received"

section \<open>Routes\<close>

datatype Route =
    RootRoute | ConnectRoute | ConfigurationRoute | BrowseGetRoute | BrowsePostRoute | CacheRoute
  | AgwpeStatusGetRoute | AgwpeStatusPostRoute | ApiConnectRoute | ApiDisconnectRoute
  | ConsentGetRoute | ConsentPostRoute | ConfigGetRoute | ConfigPostRoute | StateRoute
  | CacheClearRoute | CacheDeleteRoute | EventsRoute

definition routes :: "((bytes \<times> Method) \<times> Route) list" where
  "routes =
     [((''/'', GET), RootRoute), ((''/connect'', GET), ConnectRoute), ((''/configuration'', GET), ConfigurationRoute),
      ((''/browse'', GET), BrowseGetRoute), ((''/browse'', POST), BrowsePostRoute), ((''/cache'', GET), CacheRoute),
      ((''/api/agwpe-status'', GET), AgwpeStatusGetRoute), ((''/api/agwpe-status'', POST), AgwpeStatusPostRoute),
      ((''/api/connect'', POST), ApiConnectRoute), ((''/api/disconnect'', POST), ApiDisconnectRoute),
      ((''/api/consent'', GET), ConsentGetRoute), ((''/api/consent'', POST), ConsentPostRoute),
      ((''/api/config'', GET), ConfigGetRoute), ((''/api/config'', POST), ConfigPostRoute),
      ((''/api/state'', GET), StateRoute), ((''/api/cache/clear'', POST), CacheClearRoute),
      ((''/api/cache/delete'', POST), CacheDeleteRoute), ((''/events'', GET), EventsRoute)]"

text \<open>A GET route of the framework also answers HEAD.\<close>

definition routed_method :: "Method \<Rightarrow> Method" where
  "routed_method m = (if m = OtherMethod ''HEAD'' then GET else m)"

text \<open>The guard is a layer around the whole router.\<close>

definition create_router :: "HostAllowlist \<Rightarrow> bytes \<Rightarrow> HttpRequest \<Rightarrow> Route option Gate" where
  "create_router allow path req = security_guard allow req (\<lambda>req. map_of routes (path, routed_method (req_method req)))"

section \<open>The control endpoints answer\<close>

lemma open_on_manager_total:
  "\<exists>resp w'. open_on_manager E req w = Some (resp, w') \<and> page_cache w' = page_cache w"
  using web_call_total [of E "OpenSession (cr_target_callsign req) (cr_port_num req)" w]
  by (auto simp: open_on_manager_def split: sum.splits)

lemma mgr_call_keeps_kind:
  "mgr_call U ss cmd (OnVara a) = Some (r, m') \<Longrightarrow> \<exists>a'. m' = OnVara a'"
  "mgr_call U ss cmd (OnAgwpe b) = Some (r, m') \<Longrightarrow> \<exists>b'. m' = OnAgwpe b'"
  by auto

lemma open_on_vara:
  "manager w = OnVara a \<Longrightarrow> open_on_manager E req w = Some (resp, w') \<Longrightarrow> \<exists>a'. manager w' = OnVara a'"
  by (auto simp: open_on_manager_def web_call_def split: option.splits sum.splits)

text \<open>The transport of a manager, and all that belongs to it alone.\<close>

fun same_owner :: "Mgr \<Rightarrow> Mgr \<Rightarrow> bool" where
  "same_owner (OnAgwpe a) (OnAgwpe b) \<longleftrightarrow>
     actor_callsign a = actor_callsign b \<and> transport (actor_sys a) = transport (actor_sys b)
     \<and> abort_flag (actor_sys a) = abort_flag (actor_sys b) \<and> sent (actor_sys a) = sent (actor_sys b)"
| "same_owner (OnVara a) (OnVara b) \<longleftrightarrow>
     actor_callsign a = actor_callsign b \<and> transport (actor_sys a) = transport (actor_sys b)
     \<and> abort_flag (actor_sys a) = abort_flag (actor_sys b) \<and> sent (actor_sys a) = sent (actor_sys b)"
| "same_owner _ _ \<longleftrightarrow> False"

lemma absorb_same_owner: "same_owner m (absorb_shared n m)"
  by (cases m) auto

lemma connect_vara_cases:
  "\<exists>resp w'. connect_vara E t req k w = Some (resp, w') \<and> page_cache w' = page_cache w
     \<and> (same_owner (manager w) (manager w') \<and> session w' = session w \<and> \<not> cn_ok resp \<or> (\<exists>a. manager w' = OnVara a))"
proof -
  let ?cfg = "config (web_app w)"
  let ?ss = "session_new (response_timeout_secs (connection ?cfg))" and ?n = "OnVara (spawn_vara t (manager w))"
  obtain reply m where c: "mgr_call (we_unicode E) ?ss (ConnectModem (vara_config req k ?cfg)) ?n = Some (reply, m)"
    using mgr_call_total by blast
  show ?thesis
  proof (cases "unit_reply reply")
    case (Inl e)
    with c absorb_same_owner [of "manager w" m] show ?thesis by (simp add: connect_vara_def Let_def connect_failed_def del: mgr_call.simps)
  next
    case (Inr u)
    obtain a where m: "m = OnVara a" using mgr_call_keeps_kind(1) [OF c] by blast
    let ?w = "w\<lparr>manager := m, session := ?ss\<rparr>"
    obtain resp w' where o: "open_on_manager E req ?w = Some (resp, w')" "page_cache w' = page_cache w"
      using open_on_manager_total [of E req ?w] by auto
    have "\<exists>a'. manager w' = OnVara a'" using open_on_vara [OF _ o(1), of a] m by simp
    with c Inr o show ?thesis by (simp add: connect_vara_def Let_def del: mgr_call.simps)
  qed
qed


text \<open>A target that is no callsign.\<close>

definition bad_target :: ConnectRequest where
  "bad_target =
     \<lparr>cr_target_callsign = ''not a call'', cr_port_num = 0, cr_transport = Some ''vara_fm'', cr_vara_cmd_host = None,
      cr_vara_cmd_port = None, cr_vara_data_host = None, cr_vara_data_port = None, cr_vara_mode = None, cr_vara_bandwidth = None\<rparr>"


section \<open>Saving the configuration\<close>

text \<open>The configuration in use changes exactly when the file was written, and to what was written.\<close>

lemma config_post_atomic:
  "case api_config_post dir mkdir write u w of (resp, w', file) \<Rightarrow>
     if sv_ok resp then file = Some (ini_of_config (config (web_app w'))) \<and> config (web_app w') = apply_update u (config (web_app w))
     else w' = w \<and> file = None"
proof (cases "manager w")
  case (OnAgwpe a)
  then show ?thesis by (auto simp: api_config_post_def save_def web_app_def Let_def split: sum.splits)
next
  case (OnVara a)
  then show ?thesis by (auto simp: api_config_post_def save_def web_app_def Let_def split: sum.splits)
qed

section \<open>Where the code falls short\<close>

text \<open>Once a VARA manager is installed, a request for AX.25 is served by it: nothing installs an AGWPE
  manager again.\<close>

lemma ax25_request_stays_on_vara:
  assumes "manager w = OnVara a" and "api_connect_handler E t req w = Some (resp, w')"
  shows "\<exists>a'. manager w' = OnVara a'"
proof -
  have open_vara: "\<exists>a'. manager w1 = OnVara a'" if "open_on_manager E req w = Some (resp, w1)" for w1
    using open_on_vara [OF assms(1) that] .
  have switch: "\<exists>a'. manager w1 = OnVara a'" if v: "connect_vara E t req k w = Some (resp, w1)" for k w1
  proof -
    have "same_owner (OnVara a) (manager w1) \<or> (\<exists>a'. manager w1 = OnVara a')"
      using connect_vara_cases [of E t req k w] v assms(1) by auto
    then show ?thesis by (cases "manager w1") auto
  qed
  show ?thesis
    using assms open_vara switch by (auto simp: api_connect_handler_def split: if_splits option.splits sum.splits TransportKind.splits)
qed

text \<open>A request for VARA FM does not override a configured HF mode.\<close>

lemma fm_request_ignored: "request_vara_mode (Some ''fm'') Hf = Hf"
  by (simp add: request_vara_mode_def)

text \<open>The cache page adds up the entries it lists, at most 200 of them.\<close>

lemma cache_page_total_partial:
  assumes "healthy_sqlite (we_sql E) tab" and "page_cache w = Some c"
    and "\<forall>u r. tab (conn c) u = Some r \<longrightarrow> row_size r = 1" and "200 < card (dom (tab (conn c)))"
  shows "\<exists>rows. cache_page_handler E w = html_reply (cache_page rows 200 (cap_bytes c)) \<and> length rows = 200"
proof -
  have s: "sqlite (we_sql E) tab" using assms(1) by (simp add: healthy_sqlite_def)
  obtain rows where rows: "sql_newest (we_sql E) 200 (conn c) = Some rows"
    using healthy_sqlite.succeeds(8) [OF assms(1)] by blast
  have len: "length rows = 200" and sub: "set rows \<subseteq> {(u, r). tab (conn c) u = Some r}"
    using sqlite.newest_tab [OF s rows] assms(4) by auto
  let ?es = "cache_list (we_sql E) c"
  have "map ce_size ?es = map (\<lambda>_. 1) rows"
    using sub assms(3) by (auto simp: cache_list_def rows)
  then have "sum_list (map ce_size ?es) = 200" "length ?es = 200" using len
    by (simp_all add: sum_list_triv) (metis length_map)
  then show ?thesis using assms(2) by (auto simp: cache_page_handler_def Let_def)
qed

text \<open>The event stream takes its snapshot of the log before it subscribes: entries \<open>i\<close> to \<open>j\<close> of the log,
  written in between, are in neither part.\<close>

lemma events_gap:
  assumes "get_logs None (web_app w) = take i entries" and "i \<le> j" and "\<forall>e. json e = Some (f e)"
  shows "events_handler json (map Entry (drop j entries)) w = map f (take i entries @ drop j entries)"
proof -
  have live: "live_events json (map Entry es) = map f es" for es using assms(3) by (induction es) auto
  have "List.map_filter json es = map f es" for es using assms(3) by (induction es) (auto simp: map_filter_def)
  then show ?thesis using assms(1) live by (simp add: events_handler_def)
qed

section \<open>The guard covers every route\<close>

text \<open>A request that reaches any handler has passed the guard, and a state-changing one was a POST of
  the client's own pages.\<close>

lemma routed_request_passed_guard:
  "create_router allow path req = Passed (Some r) \<Longrightarrow>
     \<exists>host. Option.bind (req_header req ''host'') header_to_str = Some host \<and> contains_host_header allow host
       \<and> (req_method req = POST \<longrightarrow> (\<exists>org. Option.bind (req_header req ''origin'') header_to_str = Some org \<and> origin_matches_host org host))"
  by (auto simp: create_router_def security_guard_def split: option.splits if_splits)

end
