(* ===== verification/Client_Main.thy ===== *)
theory Client_Main
  imports Client_Api
begin

text \<open>
  The client as a whole (\<open>client/src/main.rs\<close> and the router of \<open>client/src/proxy.rs\<close>): what happens before
  the first request, one request from the gate through the routing table to its handler, and the runs of the
  program as a step relation. The properties are those of every run: what is true after
  start-up and stays true whoever sends whatever to the local port.

  Requests are served one after the other in a run. What may happen while a command is served (the operator's
  answer to the disclaimer, a press of the disconnect button) is in the scripts of the world
  that the manager carries, see \<open>Transport\<close>. The answers of the operating system and of third-party code at
  start-up are the record \<open>Boot\<close>; what the framework extracts from a request is part of \<open>HttpCall\<close>, with
  \<open>None\<close> for a body or query that its extractor rejects.
\<close>

section \<open>Start-up\<close>

datatype ClientError = AgwpeFailed AgwpeError | ConfigFailed ConfigError | IoFailed bytes

datatype TraceLevel = TraceWarn | TraceInfo | TraceDebug | TraceAll

definition trace_level :: "nat \<Rightarrow> TraceLevel" where
  "trace_level verbosity =
     (if verbosity = 0 then TraceWarn else if verbosity = 1 then TraceInfo else if verbosity = 2 then TraceDebug else TraceAll)"

record 'db Boot =
  bt_lowercase :: "bytes \<Rightarrow> nat \<Rightarrow> bytes"
  bt_config_dir :: "bytes option"
  bt_files :: "bytes \<Rightarrow> (bytes, ini) result option"
  bt_dials :: "(nat \<times> (bytes, Tcp) result) list"
  bt_now :: nat
  bt_presses :: "nat list"
  bt_consents :: "(nat \<times> bool option) list"
  bt_bind :: "(bytes, IpAddr option) result"
  bt_cache_root :: "bytes option"
  bt_mkdir :: "bytes \<Rightarrow> bytes option"
  bt_open_db :: "bytes \<Rightarrow> (bytes, 'db) result"
  bt_create_schema :: "'db \<Rightarrow> (bytes, 'db) result"

text \<open>The AGWPE transport with the shared state attached, and the task that owns it.\<close>

definition spawn_agwpe :: "'db Boot \<Rightarrow> FileConfig \<Rightarrow> Mgr" where
  "spawn_agwpe b cfg =
     OnAgwpe \<lparr>actor_callsign = [],
       actor_sys = \<lparr>app = app_new cfg, log_tx = [], clock = bt_now b, abort_flag = False, presses = bt_presses b,
                    consents = bt_consents b, sent = [], transport = attach_state (agwpe_new (bt_dials b))\<rparr>\<rparr>"

text \<open>The modem is connected at once when a callsign is configured; a failure is only traced.\<close>

definition auto_connect :: "('u, 'db) WebEnv \<Rightarrow> FileConfig \<Rightarrow> 'db Web \<Rightarrow> 'db Web option" where
  "auto_connect E cfg w =
     (if my_callsign cfg \<noteq> [] then
        (case web_call E (ConnectModem (agwpe_config cfg)) w of
           None \<Rightarrow> None
         | Some (reply, w) \<Rightarrow>
             (case unit_reply reply of
                Inr _ \<Rightarrow> map_option snd (web_call E QueryPortsCmd w)
              | Inl e \<Rightarrow> Some w))
      else Some w)"

definition open_page_cache :: "'db Boot \<Rightarrow> CacheSection \<Rightarrow> 'db Cache option" where
  "open_page_cache b c =
     (if enabled c then
        (case effective_dir (bt_cache_root b) c of
           Inl e \<Rightarrow> None
         | Inr d \<Rightarrow>
             (case cache_open (bt_mkdir b d) (bt_open_db b d) (bt_create_schema b) (max_bytes c) (max_ttl_seconds c) of
                Inr opened \<Rightarrow> Some opened
              | Inl e \<Rightarrow> None))
      else None)"

text \<open>\<open>Ipv4Addr::LOCALHOST\<close>, when the bound address cannot be read.\<close>

definition listen_ip :: "IpAddr option \<Rightarrow> IpAddr" where
  "listen_ip bound = (case bound of Some ip \<Rightarrow> ip | None \<Rightarrow> V4 0x7F000001)"

text \<open>\<open>main\<close> up to \<open>axum::serve\<close>: the environment with the start-up configuration in it, the allowlist and the
  context of the handlers.\<close>

definition client_start ::
  "('u, 'db) WebEnv \<Rightarrow> 'db Boot \<Rightarrow> CliArgs \<Rightarrow> (ClientError, ('u, 'db) WebEnv \<times> HostAllowlist \<times> 'db Web) result option" where
  "client_start E b cli =
     (case resolve_config (bt_lowercase b) (bt_config_dir b) (bt_files b) cli of
        Inl e \<Rightarrow> Some (Err (ConfigFailed e))
      | Inr cfg \<Rightarrow>
          let E = E\<lparr>we_config := cfg, we_max_ttl := max_ttl_seconds (cache cfg)\<rparr>;
              w = \<lparr>manager = spawn_agwpe b cfg, session = session_new (response_timeout_secs (connection cfg)), page_cache = None\<rparr>
          in case auto_connect E cfg w of
               None \<Rightarrow> None
             | Some w \<Rightarrow>
                 (case bt_bind b of
                    Inl e \<Rightarrow> Some (Err (IoFailed e))
                  | Inr bound \<Rightarrow>
                      Some (Ok (E, allowlist_new (listen_ip bound) (cli_allowed_hosts cli),
                                w\<lparr>page_cache := open_page_cache b (cache cfg)\<rparr>))))"

text \<open>\<open>bound\<close> is the bound address, its text and the text of its IP.\<close>

definition println :: "bytes \<Rightarrow> bytes" where
  "println s = s @ [CHR 0x0A]"

definition print_startup_banner :: "bytes \<Rightarrow> bytes \<Rightarrow> (IpAddr \<times> bytes \<times> bytes) option \<Rightarrow> bytes" where
  "print_startup_banner version listen_addr bound =
     (let bar = replicate 60 (CHR ''='');
          display = (case bound of Some (ip, addr_text, ip_text) \<Rightarrow> addr_text | None \<Rightarrow> listen_addr)
      in println [] @ println bar @ println (''  Packet Browser Client v'' @ version) @ println []
         @ println (''  Open http://'' @ display @ '' in your browser'')
         @ (case bound of
              Some (ip, addr_text, ip_text) \<Rightarrow>
                if \<not> is_loopback ip then
                  println [] @ println (''  WARNING: bound to '' @ ip_text @ '' (non-loopback address).'')
                  @ println ''           Anyone who can reach this host on the network''
                  @ println ''           can use this proxy and change its configuration.''
                  @ println ''           Use --listen-addr 127.0.0.1:PORT to restrict it''
                  @ println ''           to this machine only.''
                else []
            | None \<Rightarrow> [])
         @ println bar @ println [])"

section \<open>One request\<close>

record HttpCall =
  hc_path :: bytes
  hc_request :: HttpRequest
  hc_query :: "(bytes option \<times> bytes option) option"
  hc_text :: "bytes option"
  hc_connect :: "ConnectRequest option"
  hc_consent :: "bool option"
  hc_update :: "ConfigUpdate option"
  hc_delete :: "bytes option"

text \<open>What a handler meets outside the program: a fresh VARA transport, the receiving end of a consent
  channel, the file system and the event stream.\<close>

record CallIo =
  io_vara :: VaraTransport
  io_rx_alive :: bool
  io_config_dir :: "bytes option"
  io_mkdir :: "(bytes, unit) result"
  io_write :: "ini \<Rightarrow> (bytes, unit) result"
  io_entry_json :: "DebugLogEntry \<Rightarrow> bytes option"
  io_received :: "Received list"

datatype ClientReply =
    ForbiddenReply
  | NoRoute
  | Rejected
  | Html Answer
  | StatusJson AgwpeStatusResponse
  | ConnectJson ConnectResponse
  | ConsentInfoJson ConsentInfoResponse
  | ConsentJson ConsentResponse
  | ConfigJson ConfigResponse
  | SavedJson ConfigSaveResponse
  | StateJson StateResponse
  | Events "bytes list"

definition page_reply :: "HttpReply \<Rightarrow> ClientReply" where
  "page_reply r = Html (Reply r)"

text \<open>A handler behind an extractor.\<close>

definition extracted :: "'a option \<Rightarrow> 'db Web \<Rightarrow> ('a \<Rightarrow> (ClientReply \<times> 'db Web) option) \<Rightarrow> (ClientReply \<times> 'db Web) option" where
  "extracted x w f = (case x of None \<Rightarrow> Some (Rejected, w) | Some v \<Rightarrow> f v)"

definition consent_post :: "bool \<Rightarrow> bool \<Rightarrow> 'db Web \<Rightarrow> ClientReply \<times> 'db Web" where
  "consent_post rx_alive accepted w =
     (case api_consent_post rx_alive accepted (web_app w) of
        (resp, s, _) \<Rightarrow> (ConsentJson resp, w\<lparr>manager := mgr_update_app (\<lambda>_. s) (manager w)\<rparr>))"

fun handle_route ::
  "('u, 'db) WebEnv \<Rightarrow> CallIo \<Rightarrow> HttpCall \<Rightarrow> Route \<Rightarrow> 'db Web \<Rightarrow> (ClientReply \<times> 'db Web) option" where
  "handle_route E io c RootRoute w = Some (page_reply root_handler, w)"
| "handle_route E io c ConnectRoute w = Some (page_reply (connect_page_handler E w), w)"
| "handle_route E io c ConfigurationRoute w = Some (page_reply (configuration_page_handler w), w)"
| "handle_route E io c BrowseGetRoute w =
     extracted (hc_query c) w (\<lambda>(url, nocache).
       map_option (apfst Html) (browse_get_handler E url nocache (req_header (hc_request c) ''if-none-match'') w))"
| "handle_route E io c BrowsePostRoute w =
     extracted (hc_query c) w (\<lambda>(url, _). extracted (hc_text c) w (\<lambda>body.
       map_option (apfst Html) (browse_post_handler E url body w)))"
| "handle_route E io c CacheRoute w = Some (page_reply (cache_page_handler E w), w)"
| "handle_route E io c AgwpeStatusGetRoute w = Some (StatusJson (api_agwpe_status_get w), w)"
| "handle_route E io c AgwpeStatusPostRoute w = map_option (apfst StatusJson) (api_agwpe_status_post E w)"
| "handle_route E io c ApiConnectRoute w =
     extracted (hc_connect c) w (\<lambda>req. map_option (apfst ConnectJson) (api_connect_handler E (io_vara io) req w))"
| "handle_route E io c ApiDisconnectRoute w = map_option (apfst ConnectJson) (api_disconnect_handler E w)"
| "handle_route E io c ConsentGetRoute w = Some (ConsentInfoJson (api_consent_get (web_app w)), w)"
| "handle_route E io c ConsentPostRoute w =
     extracted (hc_consent c) w (\<lambda>accepted. Some (consent_post (io_rx_alive io) accepted w))"
| "handle_route E io c ConfigGetRoute w = Some (ConfigJson (api_config_get w), w)"
| "handle_route E io c ConfigPostRoute w =
     extracted (hc_update c) w (\<lambda>u.
       case api_config_post (io_config_dir io) (io_mkdir io) (io_write io) u w of (resp, w, _) \<Rightarrow> Some (SavedJson resp, w))"
| "handle_route E io c StateRoute w = Some (StateJson (api_state_get w), w)"
| "handle_route E io c CacheClearRoute w = Some (apfst page_reply (api_cache_clear E w))"
| "handle_route E io c CacheDeleteRoute w =
     extracted (hc_delete c) w (\<lambda>url. Some (apfst page_reply (api_cache_delete E url w)))"
| "handle_route E io c EventsRoute w = Some (Events (events_handler (io_entry_json io) (io_received io) w), w)"

definition serve_http ::
  "('u, 'db) WebEnv \<Rightarrow> HostAllowlist \<Rightarrow> CallIo \<Rightarrow> HttpCall \<Rightarrow> 'db Web \<Rightarrow> (ClientReply \<times> 'db Web) option" where
  "serve_http E allow io c w =
     (case create_router allow (hc_path c) (hc_request c) of
        Forbidden \<Rightarrow> Some (ForbiddenReply, w)
      | Passed None \<Rightarrow> Some (NoRoute, w)
      | Passed (Some r) \<Rightarrow> handle_route E io c r w)"

section \<open>Runs\<close>

fun mgr_wait :: "nat \<Rightarrow> Mgr \<Rightarrow> Mgr" where
  "mgr_wait d (OnAgwpe a) = OnAgwpe (a\<lparr>actor_sys := (actor_sys a)\<lparr>clock := clock (actor_sys a) + d\<rparr>\<rparr>)"
| "mgr_wait d (OnVara a) = OnVara (a\<lparr>actor_sys := (actor_sys a)\<lparr>clock := clock (actor_sys a) + d\<rparr>\<rparr>)"

inductive client_step ::
  "('u, 'db) WebEnv \<Rightarrow> HostAllowlist \<Rightarrow> 'db Web \<Rightarrow> (HttpCall \<times> ClientReply) list \<Rightarrow> 'db Web \<Rightarrow> bool" for E allow where
  request: "serve_http E allow io c w = Some (reply, w') \<Longrightarrow> client_step E allow w [(c, reply)] w'"
| idle: "client_step E allow w [] (w\<lparr>manager := mgr_wait d (manager w)\<rparr>)"

inductive client_run ::
  "('u, 'db) WebEnv \<Rightarrow> HostAllowlist \<Rightarrow> 'db Web \<Rightarrow> (HttpCall \<times> ClientReply) list \<Rightarrow> 'db Web \<Rightarrow> bool" for E allow where
  start: "client_run E allow w [] w"
| more: "client_run E allow w trace w1 \<Longrightarrow> client_step E allow w1 ev w2 \<Longrightarrow> client_run E allow w (trace @ ev) w2"

inductive_cases client_stepE: "client_step E allow w ev w'"

section \<open>Talking to the modem is silent\<close>

fun modem_command :: "TransportCommand \<Rightarrow> bool" where
  "modem_command (ConnectModem cfg) = True"
| "modem_command DisconnectModem = True"
| "modem_command QueryPortsCmd = True"
| "modem_command CloseSession = True"
| "modem_command _ = False"

lemma stays_closed_log [simp]:
  "stays_closed s (log_msg l c m s') = stays_closed s s'" "stays_closed (reset_abort s) s' = stays_closed s s'"
  "stays_closed (abort s) s' = stays_closed s s'"
  by (simp_all add: stays_closed_def reset_abort_def abort_def)

context modem_contract
begin

lemma modem_handlers_closed:
  "handle_connect_modem T cfg s = Some (r, s') \<Longrightarrow> quiet s s' \<and> stays_closed s s'"
  "handle_disconnect_modem T s = Some (r, s') \<Longrightarrow> quiet s s' \<and> stays_closed s s'"
  "handle_query_ports T s = Some (r, s') \<Longrightarrow> quiet s s' \<and> stays_closed s s'"
  by (auto simp: handle_connect_modem_def handle_disconnect_modem_def handle_query_ports_def elim!: sbind_SomeE
      dest!: lift_op_Some split: if_splits
      dest: connect_quiet disconnect_quiet query_quiet connect_closed disconnect_closed query_closed)

lemma close_session_closed:
  assumes "handle_close_session T s = Some (r, s')"
  shows "sent s' = sent s \<and> stays_closed s s'"
proof -
  have "stays_closed s s'"
    using assms by (auto simp: handle_close_session_def stays_closed_def abort_def elim!: sbind_SomeE dest!: lift_op_Some close_closed)
  with close_quiet [OF assms] show ?thesis by simp
qed

lemma modem_command_closed:
  assumes "serve_command U T ss cmd a = Some (reply, a')" and "modem_command cmd"
  shows "sent (actor_sys a') = sent (actor_sys a) \<and> stays_closed (actor_sys a) (actor_sys a')"
proof -
  have q: "sent s' = sent s" if "quiet s s'" for s s' :: "'t Sys" using that by (simp add: quiet_def)
  have r: "sent (reset_abort s) = sent s" for s :: "'t Sys" by (simp add: reset_abort_def)
  show ?thesis
    using assms
    by (cases cmd)
      (auto simp: reply_unit_def r split: option.splits sum.splits
        dest!: modem_handlers_closed q close_session_closed)
qed

end

section \<open>What a request does to radio and cache\<close>

definition off_air :: "'db Web \<Rightarrow> 'db Web \<Rightarrow> bool" where
  "off_air w w' \<longleftrightarrow> mgr_sent (manager w') = mgr_sent (manager w)
     \<and> (connection_state (web_app w') = CsConnected \<longrightarrow> connection_state (web_app w) = CsConnected)"

lemma off_air_refl [simp]: "off_air w w"
  by (simp add: off_air_def)

lemma off_air_trans: "off_air w w1 \<Longrightarrow> off_air w1 w2 \<Longrightarrow> off_air w w2"
  by (auto simp: off_air_def)

lemma mgr_update_app_frame [simp]:
  "mgr_sent (mgr_update_app f m) = mgr_sent m" "mgr_app (mgr_update_app f m) = f (mgr_app m)"
  by (cases m; simp)+

lemma mgr_wait_frame [simp]: "mgr_sent (mgr_wait d m) = mgr_sent m" "mgr_app (mgr_wait d m) = mgr_app m"
  by (cases m; simp)+

lemma modem_call_off_air:
  assumes "web_call E cmd w = Some (reply, w')" and "modem_command cmd"
  shows "off_air w w' \<and> page_cache w' = page_cache w"
proof (cases "manager w")
  case (OnAgwpe a)
  with assms show ?thesis
    by (auto simp: web_call_def off_air_def web_app_def stays_closed_def dest!: agw_modem.modem_command_closed)
next
  case (OnVara a)
  with assms show ?thesis
    by (auto simp: web_call_def off_air_def web_app_def stays_closed_def dest!: vara_modem.modem_command_closed)
qed

lemma agwpe_status_post_off_air:
  assumes "api_agwpe_status_post E w = Some (r, w')"
  shows "off_air w w' \<and> page_cache w' = page_cache w"
proof (cases "my_callsign (config (web_app w)) = []")
  case True
  with assms show ?thesis by (simp add: api_agwpe_status_post_def)
next
  case False
  obtain reply w1 where c: "web_call E (ConnectModem (agwpe_config (config (web_app w)))) w = Some (reply, w1)"
    using web_call_total by blast
  then have 1: "off_air w w1 \<and> page_cache w1 = page_cache w" by (rule modem_call_off_air) simp
  obtain reply2 w2 where q: "web_call E QueryPortsCmd w1 = Some (reply2, w2)"
    using web_call_total by blast
  then have 2: "off_air w1 w2 \<and> page_cache w2 = page_cache w1" by (rule modem_call_off_air) simp
  have "w' = w1 \<or> w' = w2"
    using assms False c q by (auto simp: api_agwpe_status_post_def Let_def split: sum.splits)
  with 1 2 show ?thesis by (auto intro: off_air_trans)
qed

lemma disconnect_off_air:
  assumes "api_disconnect_handler E w = Some (r, w')"
  shows "off_air w w' \<and> page_cache w' = page_cache w"
  using assms
  by (auto simp: api_disconnect_handler_def off_air_def web_app_def clear_agreed_disclaimer_def
      split: option.splits sum.splits dest!: modem_call_off_air)

lemma consent_config_off_air:
  "off_air w (snd (consent_post alive accepted w)) \<and> page_cache (snd (consent_post alive accepted w)) = page_cache w"
  "api_config_post dir mk wr u w = (resp, w', f) \<Longrightarrow> off_air w w' \<and> page_cache w' = page_cache w"
  by (auto simp: consent_post_def api_consent_post_def api_config_post_def record_agreed_disclaimer_def off_air_def web_app_def Let_def
      split: option.splits sum.splits ConnectionState.splits if_splits prod.splits)

text \<open>Without a session a browse request is turned away before anything else.\<close>

lemma closed_browse:
  assumes "connection_state (web_app w) \<noteq> CsConnected"
  shows "browse_get_handler E url nc inm w = Some (Reply (redirect_to ''/connect''), w)"
    and "browse_post_handler E url body w = Some (Reply (redirect_to ''/connect''), w)"
  using assms by (simp_all add: browse_get_handler_def browse_post_handler_def handle_browse_def Let_def)

lemma extracted_Some:
  "extracted x w f = Some (r, w') \<Longrightarrow> r = Rejected \<and> w' = w \<or> (\<exists>v. x = Some v \<and> f v = Some (r, w'))"
  by (auto simp: extracted_def split: option.splits)

lemma off_air_on_cache [simp]: "off_air w (on_cache f w)"
  by (simp add: off_air_def on_cache_def web_app_def)

lemma closed_route_off_air:
  assumes "connection_state (web_app w) \<noteq> CsConnected" and "handle_route E io c r w = Some (reply, w')" and "r \<noteq> ApiConnectRoute"
  shows "off_air w w'
    \<and> (r \<in> {BrowseGetRoute, BrowsePostRoute} \<longrightarrow> reply \<in> {Rejected, Html (Reply (redirect_to ''/connect''))})"
proof (cases r)
  case BrowseGetRoute
  with assms show ?thesis by (auto simp: closed_browse dest!: extracted_Some)
next
  case BrowsePostRoute
  with assms show ?thesis by (auto simp: closed_browse dest!: extracted_Some)
next
  case AgwpeStatusPostRoute
  with assms show ?thesis by (auto dest: agwpe_status_post_off_air)
next
  case ApiDisconnectRoute
  with assms show ?thesis by (auto dest: disconnect_off_air)
next
  case ConsentPostRoute
  then obtain accepted where "reply = Rejected \<and> w' = w \<or> consent_post (io_rx_alive io) accepted w = (reply, w')"
    using assms(2) by (auto dest!: extracted_Some)
  with ConsentPostRoute show ?thesis using consent_config_off_air(1) [of w "io_rx_alive io" accepted] by auto
next
  case ConfigPostRoute
  with assms show ?thesis by (auto dest!: extracted_Some dest: consent_config_off_air(2) split: prod.splits)
next
  case CacheDeleteRoute
  with assms show ?thesis by (auto simp: api_cache_delete_def dest!: extracted_Some)
qed (use assms in \<open>auto simp: api_cache_clear_def\<close>)

section \<open>No transmission without the operator\<close>

text \<open>A request to open a session that comes from a page of the client itself.\<close>

definition own_connect :: "HostAllowlist \<Rightarrow> HttpCall \<Rightarrow> bool" where
  "own_connect allow c \<longleftrightarrow>
     hc_path c = ''/api/connect'' \<and> req_method (hc_request c) = POST
     \<and> (case (Option.bind (req_header (hc_request c) ''host'') header_to_str, Option.bind (req_header (hc_request c) ''origin'') header_to_str) of
          (Some host, Some org) \<Rightarrow> contains_host_header allow host \<and> origin_matches_host org host
        | _ \<Rightarrow> False)"

lemma connect_route_own:
  assumes "create_router allow (hc_path c) (hc_request c) = Passed (Some ApiConnectRoute)"
  shows "own_connect allow c"
proof -
  have "map_of routes (hc_path c, routed_method (req_method (hc_request c))) = Some ApiConnectRoute"
    using assms by (auto simp: create_router_def security_guard_def split: option.splits if_splits)
  then have "((hc_path c, routed_method (req_method (hc_request c))), ApiConnectRoute) \<in> set routes" by (rule map_of_SomeD)
  then have "hc_path c = ''/api/connect''" "routed_method (req_method (hc_request c)) = POST" by (simp_all add: routes_def)
  then have "hc_path c = ''/api/connect''" "req_method (hc_request c) = POST" by (simp_all add: routed_method_def split: if_splits)
  with routed_request_passed_guard [OF assms] show ?thesis by (auto simp: own_connect_def)
qed

text \<open>What a browse request, however it is answered, looks like without a session.\<close>

definition turned_away :: "HttpCall \<times> ClientReply \<Rightarrow> bool" where
  "turned_away ev \<longleftrightarrow>
     hc_path (fst ev) = ''/browse'' \<longrightarrow> snd ev \<in> {ForbiddenReply, NoRoute, Rejected, Html (Reply (redirect_to ''/connect''))}"

lemma browse_routes:
  assumes "create_router allow ''/browse'' req = Passed (Some r)"
  shows "r \<in> {BrowseGetRoute, BrowsePostRoute}"
proof -
  have "map_of routes (''/browse'', routed_method (req_method req)) = Some r"
    using assms by (auto simp: create_router_def security_guard_def split: option.splits if_splits)
  then have "((''/browse'', routed_method (req_method req)), r) \<in> set routes" by (rule map_of_SomeD)
  then show ?thesis by (auto simp: routes_def)
qed

lemma closed_request:
  assumes "serve_http E allow io c w = Some (reply, w')" and "\<not> own_connect allow c" and "connection_state (web_app w) \<noteq> CsConnected"
  shows "off_air w w' \<and> turned_away (c, reply)"
proof (cases "create_router allow (hc_path c) (hc_request c)")
  case Forbidden
  with assms(1) show ?thesis by (auto simp: serve_http_def turned_away_def)
next
  case (Passed route)
  show ?thesis
  proof (cases route)
    case None
    with assms(1) Passed show ?thesis by (auto simp: serve_http_def turned_away_def)
  next
    case (Some r)
    with Passed assms(2) connect_route_own have "r \<noteq> ApiConnectRoute" by blast
    moreover have "handle_route E io c r w = Some (reply, w')" using assms(1) Passed Some by (simp add: serve_http_def)
    ultimately have "off_air w w'
        \<and> (r \<in> {BrowseGetRoute, BrowsePostRoute} \<longrightarrow> reply \<in> {Rejected, Html (Reply (redirect_to ''/connect''))})"
      using closed_route_off_air assms(3) by blast
    moreover have "hc_path c = ''/browse'' \<Longrightarrow> r \<in> {BrowseGetRoute, BrowsePostRoute}"
      using browse_routes [of allow "hc_request c" r] Passed Some by simp
    ultimately show ?thesis by (auto simp: turned_away_def)
  qed
qed

lemma closed_run:
  assumes "client_run E allow w trace w'" and "connection_state (web_app w) \<noteq> CsConnected"
    and "\<forall>(c, reply)\<in>set trace. \<not> own_connect allow c"
  shows "off_air w w' \<and> list_all turned_away trace"
  using assms
proof (induction rule: client_run.induct)
  case (start w)
  show ?case by simp
next
  case (more w trace w1 ev w2)
  then have IH: "off_air w w1" "list_all turned_away trace" by auto
  then have closed: "connection_state (web_app w1) \<noteq> CsConnected" using more.prems(1) by (auto simp: off_air_def)
  from more.hyps(2) have "off_air w1 w2 \<and> list_all turned_away ev"
  proof cases
    case (request io c reply)
    with more.prems(2) closed_request [OF request(2) _ closed] show ?thesis by auto
  next
    case (idle d)
    then show ?thesis by (simp add: off_air_def web_app_def)
  qed
  with IH show ?case by (auto intro: off_air_trans)
qed

section \<open>The start\<close>

lemma auto_connect_total: "\<exists>w'. auto_connect E cfg w = Some w' \<and> off_air w w' \<and> page_cache w' = page_cache w"
proof (cases "my_callsign cfg = []")
  case True
  then show ?thesis by (simp add: auto_connect_def)
next
  case False
  obtain reply w1 where c: "web_call E (ConnectModem (agwpe_config cfg)) w = Some (reply, w1)"
    using web_call_total by blast
  then have 1: "off_air w w1 \<and> page_cache w1 = page_cache w" by (rule modem_call_off_air) simp
  obtain reply2 w2 where q: "web_call E QueryPortsCmd w1 = Some (reply2, w2)"
    using web_call_total by blast
  then have 2: "off_air w1 w2 \<and> page_cache w2 = page_cache w1" by (rule modem_call_off_air) simp
  have "auto_connect E cfg w \<in> {Some w1, Some w2}"
    using False c q by (auto simp: auto_connect_def split: sum.splits)
  with 1 2 show ?thesis by (auto intro: off_air_trans)
qed

text \<open>Start-up ends, with an error or with a silent station.\<close>

lemma client_start_total: "\<exists>res. client_start E b cli = Some res"
proof (cases "resolve_config (bt_lowercase b) (bt_config_dir b) (bt_files b) cli")
  case (Inl e)
  then show ?thesis by (simp add: client_start_def)
next
  case (Inr cfg)
  then show ?thesis
    using auto_connect_total [of "E\<lparr>we_config := cfg, we_max_ttl := max_ttl_seconds (cache cfg)\<rparr>" cfg
        "\<lparr>manager = spawn_agwpe b cfg, session = session_new (response_timeout_secs (connection cfg)), page_cache = None\<rparr>"]
    by (auto simp: client_start_def Let_def split: sum.splits)
qed

lemma client_start_ok:
  assumes "client_start E b cli = Some (Ok (E', allow, w))"
  shows "mgr_sent (manager w) = [] \<and> connection_state (web_app w) \<noteq> CsConnected
    \<and> we_sql E' = we_sql E \<and> page_cache w = open_page_cache b (cache (we_config E')) \<and> we_max_ttl E' = max_ttl_seconds (cache (we_config E'))"
proof -
  obtain cfg where r: "resolve_config (bt_lowercase b) (bt_config_dir b) (bt_files b) cli = Ok cfg"
    using assms by (auto simp: client_start_def split: sum.splits)
  let ?E = "E\<lparr>we_config := cfg, we_max_ttl := max_ttl_seconds (cache cfg)\<rparr>"
  let ?w = "\<lparr>manager = spawn_agwpe b cfg, session = session_new (response_timeout_secs (connection cfg)), page_cache = None\<rparr>"
  obtain w1 where a: "auto_connect ?E cfg ?w = Some w1" "off_air ?w w1"
    using auto_connect_total [of ?E cfg ?w] by blast
  have "mgr_sent (manager w1) = []" "connection_state (web_app w1) \<noteq> CsConnected"
    using a(2) by (auto simp: off_air_def web_app_def spawn_agwpe_def app_new_def)
  moreover have "E' = ?E" "w = w1\<lparr>page_cache := open_page_cache b (cache cfg)\<rparr>"
    using assms a(1) r by (auto simp: client_start_def Let_def split: sum.splits)
  ultimately show ?thesis by (simp add: web_app_def)
qed

section \<open>The cache over a whole run\<close>

text \<open>The cache stays there with its limits, and its rows stay well formed.\<close>

definition cache_kept :: "('db \<Rightarrow> Table) \<Rightarrow> 'db Cache option \<Rightarrow> 'db Cache option \<Rightarrow> bool" where
  "cache_kept tab c c' \<longleftrightarrow>
     rel_option (\<lambda>c c'. cap_bytes c' = cap_bytes c \<and> max_ttl c' = max_ttl c \<and> (cache_ok tab c \<longrightarrow> cache_ok tab c')) c c'"

lemma cache_kept_refl [simp]: "cache_kept tab c c"
  by (simp add: cache_kept_def option.rel_refl)

lemma cache_kept_trans: "cache_kept tab c c1 \<Longrightarrow> cache_kept tab c1 c2 \<Longrightarrow> cache_kept tab c c2"
  by (cases c; cases c1; cases c2) (auto simp: cache_kept_def)

lemma executed_limits [simp]: "cap_bytes (executed x c) = cap_bytes c" "max_ttl (executed x c) = max_ttl c"
  by (simp_all add: executed_def split: option.splits)

context sqlite
begin

lemma insert_limits: "cap_bytes (cache_insert S now url tag body age c) = cap_bytes c \<and> max_ttl (cache_insert S now url tag body age c) = max_ttl c"
  using insert_cases [of now url tag body age c] by auto

lemma cache_op_kept:
  "cache_kept tab (Some c) (Some (cache_insert S now url tag body age c))" "cache_kept tab (Some c) (Some (touch_fresh S now url c))"
  "cache_kept tab (Some c) (Some (touch_last_used S now url c))" "cache_kept tab (Some c) (Some (cache_delete S url c))"
  "cache_kept tab (Some c) (Some (cache_clear S c))"
  by (auto simp: cache_kept_def insert_limits insert_ok updates_ok)
    (simp_all add: touch_fresh_def touch_last_used_def cache_delete_def cache_clear_def)

lemma cache_ops_kept:
  "cache_kept tab c (map_option (cache_insert S now url tag body age) c)" "cache_kept tab c (map_option (touch_last_used S now url) c)"
  "cache_kept tab c (map_option (cache_delete S url) c)" "cache_kept tab c (map_option (cache_clear S) c)"
  by (cases c; simp add: cache_op_kept)+

end

lemma on_cache_page_cache [simp]: "page_cache (on_cache f w) = map_option f (page_cache w)"
  by (simp add: on_cache_def)

lemma render_kept:
  assumes "sqlite (we_sql E) tab"
  shows "cache_kept tab (page_cache w) (page_cache (snd (render_response E url cw tag0 d w)))"
  using sqlite.cache_ops_kept [OF assms] sqlite.cache_op_kept(2) [OF assms]
  by (auto simp: render_response_def ok_page_def revalidated_page_def Let_def
      split: sum.splits option.splits Status.splits bool.splits prod.splits)

lemma dispatch_kept:
  assumes "sqlite (we_sql E) tab" and "dispatch_ax25 E url req cw w = Some (r, w')"
  shows "cache_kept tab (page_cache w) (page_cache w')"
proof -
  let ?cmd = "if auto_reconnect (connection (we_config E)) then SendRequestWithReconnect (request_encode req)
      else SendRequest (request_encode req)"
  obtain reply w1 where c: "web_call E ?cmd w = Some (reply, w1)" "page_cache w1 = page_cache w"
    using web_call_total by blast
  have "w' = w1 \<or> (\<exists>d. w' = snd (render_response E url cw (request_etag req) d w1))"
    using assms(2) c(1) by (auto simp: dispatch_ax25_def Let_def split: sum.splits) (metis snd_conv)
  then show ?thesis using render_kept [OF assms(1), of w1] c(2) by auto
qed

lemma browse_kept:
  assumes "sqlite (we_sql E) tab" and "handle_browse E url form nc inm w = Some (ans, w')"
  shows "cache_kept tab (page_cache w) (page_cache w')"
  using assms(2) sqlite.cache_ops_kept [OF assms(1)]
  by (auto simp: handle_browse_def Let_def split: if_splits option.splits dest: dispatch_kept [OF assms(1)])

lemma connect_total: "\<exists>resp w'. api_connect_handler E t req w = Some (resp, w') \<and> page_cache w' = page_cache w"
proof -
  have "api_connect_handler E t req w \<in> range (\<lambda>e. Some (connect_failed e, w)) \<union> {open_on_manager E req w} \<union> range (\<lambda>k. connect_vara E t req k w)"
    by (auto simp: api_connect_handler_def split: sum.splits TransportKind.splits)
  then show ?thesis using open_on_manager_total [of E req w] connect_vara_cases [of E t req _ w] by fastforce
qed

lemma route_kept:
  assumes "sqlite (we_sql E) tab" and "handle_route E io c r w = Some (reply, w')"
  shows "cache_kept tab (page_cache w) (page_cache w')"
proof (cases r)
  case BrowseGetRoute
  with assms show ?thesis
    by (auto simp: browse_get_handler_def Let_def dest!: extracted_Some dest: browse_kept split: if_splits)
next
  case BrowsePostRoute
  with assms show ?thesis
    by (auto simp: browse_post_handler_def dest!: extracted_Some dest: browse_kept split: if_splits)
next
  case AgwpeStatusPostRoute
  with assms show ?thesis by (auto dest: agwpe_status_post_off_air)
next
  case ApiConnectRoute
  then consider "w' = w" | req resp where "api_connect_handler E (io_vara io) req w = Some (resp, w')"
    using assms(2) by (auto dest!: extracted_Some)
  then show ?thesis
  proof cases
    case 2
    with connect_total [of E "io_vara io" req w] show ?thesis by auto
  qed simp
next
  case ApiDisconnectRoute
  with assms show ?thesis by (auto dest: disconnect_off_air)
next
  case ConsentPostRoute
  then obtain accepted where "reply = Rejected \<and> w' = w \<or> consent_post (io_rx_alive io) accepted w = (reply, w')"
    using assms(2) by (auto dest!: extracted_Some)
  with ConsentPostRoute show ?thesis using consent_config_off_air(1) [of w "io_rx_alive io" accepted] by auto
next
  case ConfigPostRoute
  with assms show ?thesis by (auto dest!: extracted_Some consent_config_off_air(2) split: prod.splits)
next
  case CacheDeleteRoute
  with assms show ?thesis by (auto simp: api_cache_delete_def sqlite.cache_ops_kept dest!: extracted_Some)
next
  case CacheClearRoute
  with assms show ?thesis by (auto simp: api_cache_clear_def sqlite.cache_ops_kept)
qed (use assms in auto)

lemma run_kept:
  assumes "client_run E allow w trace w'" and "sqlite (we_sql E) tab"
  shows "cache_kept tab (page_cache w) (page_cache w')"
  using assms
proof (induction rule: client_run.induct)
  case (start w)
  show ?case by simp
next
  case (more w trace w1 ev w2)
  from more.hyps(2) have "cache_kept tab (page_cache w1) (page_cache w2)"
    by cases (auto simp: serve_http_def split: Gate.splits option.splits dest: route_kept [OF more.prems])
  with more.IH [OF more.prems] show ?case by (rule cache_kept_trans)
qed

section \<open>Every request is answered\<close>

lemma handlers_return:
  "dispatch_ax25 E url req cw w \<noteq> None" "api_connect_handler E t creq w \<noteq> None"
  "web_call E cmd w \<noteq> None"
  using dispatch_total [of E url req cw w] connect_total [of E t creq w] web_call_total [of E cmd w] by auto

lemma browse_returns: "handle_browse E url form nc inm w \<noteq> None"
  by (simp del: not_None_eq add: handle_browse_def handlers_return Let_def split: option.split)

lemma browse_handlers_return:
  "browse_get_handler E url nc inm w \<noteq> None" "browse_post_handler E url body w \<noteq> None"
  by (simp_all del: not_None_eq add: browse_get_handler_def browse_post_handler_def browse_returns Let_def)

lemma control_returns: "api_agwpe_status_post E w \<noteq> None" "api_disconnect_handler E w \<noteq> None"
  by (auto simp del: not_None_eq simp: api_agwpe_status_post_def api_disconnect_handler_def handlers_return Let_def
      split: option.split sum.split)

lemma extracted_returns: "(\<And>v. f v \<noteq> None) \<Longrightarrow> extracted x w f \<noteq> None"
  by (cases x) (simp_all add: extracted_def)

lemma route_returns: "handle_route E io c r w \<noteq> None"
proof (cases r)
  case BrowseGetRoute
  then show ?thesis
    by (simp del: not_None_eq add: browse_handlers_return extracted_returns split_def)
next
  case BrowsePostRoute
  then show ?thesis
    by (simp del: not_None_eq add: browse_handlers_return extracted_returns split_def)
next
  case ApiConnectRoute
  then show ?thesis by (simp del: not_None_eq add: handlers_return extracted_returns)
next
  case ConfigPostRoute
  then show ?thesis by (auto simp del: not_None_eq intro!: extracted_returns split: prod.splits)
next
  case ConsentPostRoute
  then show ?thesis by (simp del: not_None_eq add: extracted_returns)
next
  case CacheDeleteRoute
  then show ?thesis by (simp del: not_None_eq add: extracted_returns)
next
  case AgwpeStatusPostRoute
  then show ?thesis by (simp del: not_None_eq add: control_returns)
next
  case ApiDisconnectRoute
  then show ?thesis by (simp del: not_None_eq add: control_returns)
qed simp_all

lemma serve_http_total: "\<exists>reply w'. serve_http E allow io c w = Some (reply, w')"
  using route_returns [of E io c _ w] by (auto simp: serve_http_def split: Gate.split option.split)



text \<open>A client without a configuration file and with an empty database, and a foreign page that tries to browse.\<close>

definition sample_boot :: "(bytes, Row) alist Boot" where
  "sample_boot =
     \<lparr>bt_lowercase = (\<lambda>_ _. []), bt_config_dir = Some ''/etc'', bt_files = (\<lambda>_. None), bt_dials = [], bt_now = 0, bt_presses = [],
      bt_consents = [], bt_bind = Ok (Some (V4 0x7F000001)), bt_cache_root = Some ''/var'', bt_mkdir = (\<lambda>_. None),
      bt_open_db = (\<lambda>_. Ok DAList.empty), bt_create_schema = Ok\<rparr>"

definition browse_call :: HttpCall where
  "browse_call =
     \<lparr>hc_path = ''/browse'', hc_request = \<lparr>req_method = GET, req_header = [''host'' \<mapsto> ''127.0.0.1:8080'']\<rparr>,
      hc_query = Some (Some ''http://h/'', None), hc_text = None, hc_connect = None, hc_consent = None, hc_update = None, hc_delete = None\<rparr>"

definition sample_io :: CallIo where
  "sample_io =
     \<lparr>io_vara = vara_new [] [], io_rx_alive = False, io_config_dir = None, io_mkdir = Ok (), io_write = (\<lambda>_. Ok ()),
      io_entry_json = (\<lambda>_. None), io_received = []\<rparr>"

definition sample_config :: FileConfig where
  "sample_config = default_config\<lparr>bpq_command := ''WEB''\<rparr>"

definition sample_started :: "(bytes, Row) alist Web" where
  "sample_started =
     \<lparr>manager = spawn_agwpe sample_boot sample_config, session = session_new (response_timeout_secs (connection sample_config)),
      page_cache = Some \<lparr>conn = DAList.empty, cap_bytes = 209715200, max_ttl = 86400\<rparr>\<rparr>"

lemma sample_start:
  "client_start sample_web_env sample_boot (cli_parse no_args)
     = Some (Ok (sample_web_env\<lparr>we_config := sample_config, we_max_ttl := 86400\<rparr>, allowlist_new (V4 0x7F000001) [], sample_started))"
  by (simp add: client_start_def sample_boot_def resolve_config_def cli_parse_def no_args_def default_path_def load_def
      auto_connect_def default_config_def default_cache_def open_page_cache_def effective_dir_def cache_open_def listen_ip_def
      sample_started_def sample_config_def)

lemma sample_browse:
  "serve_http (sample_web_env\<lparr>we_config := sample_config, we_max_ttl := 86400\<rparr>) (allowlist_new (V4 0x7F000001) []) sample_io
     browse_call sample_started = Some (Html (Reply (redirect_to ''/connect'')), sample_started)"
proof -
  have "connection_state (web_app sample_started) \<noteq> CsConnected"
    by (simp add: sample_started_def web_app_def spawn_agwpe_def app_new_def)
  moreover have "create_router (allowlist_new (V4 0x7F000001) []) (hc_path browse_call) (hc_request browse_call) = Passed (Some BrowseGetRoute)"
    by code_simp
  ultimately show ?thesis by (simp add: serve_http_def browse_call_def closed_browse extracted_def)
qed

lemma sample_run:
  "client_run (sample_web_env\<lparr>we_config := sample_config, we_max_ttl := 86400\<rparr>) (allowlist_new (V4 0x7F000001) []) sample_started
     [(browse_call, Html (Reply (redirect_to ''/connect'')))] sample_started"
  using client_run.more [OF client_run.start client_step.request [OF sample_browse]] by simp



section \<open>After a disconnect\<close>

lemma close_session_ok:
  assumes "reply_unit (handle_close_session T s) a = Some (UnitReply (Ok u), a')"
  shows "connection_state (app (actor_sys a')) = AgwpeConnected"
  using assms by (auto simp: reply_unit_def handle_close_session_def pure_act_def elim!: sbind_SomeE)

text \<open>A disconnect that succeeds ends the session, and from then on the station is silent again until the
  operator connects.\<close>

lemma disconnect_ends_session:
  assumes "api_disconnect_handler E w = Some (resp, w')" and "cn_ok resp"
  shows "connection_state (web_app w') = AgwpeConnected"
proof -
  obtain reply w1 where c: "web_call E CloseSession w = Some (reply, w1)" using web_call_total by blast
  obtain u where u: "unit_reply reply = Ok u" and w': "web_app w' = clear_agreed_disclaimer (web_app w1)"
    using assms c by (auto simp: api_disconnect_handler_def connect_failed_def web_app_def split: sum.splits)
  then have "reply = UnitReply (Ok u)" by (cases reply) auto
  with c have "connection_state (web_app w1) = AgwpeConnected"
    by (cases "manager w") (auto simp: web_call_def web_app_def dest!: close_session_ok)
  with w' show ?thesis by (simp add: clear_agreed_disclaimer_def)
qed

lemma silent_after_disconnect:
  assumes "api_disconnect_handler E0 w0 = Some (resp, w1)" and "cn_ok resp" and "client_run E allow w1 trace w2"
    and "\<forall>(c, reply)\<in>set trace. \<not> own_connect allow c"
  shows "mgr_sent (manager w2) = mgr_sent (manager w1) \<and> list_all turned_away trace"
  using closed_run [OF assms(3) _ assms(4)] disconnect_ends_session [OF assms(1,2)] by (simp add: off_air_def)

section \<open>Where the gate falls short\<close>

text \<open>A GET needs no Origin, and browsing is a GET: any page that the operator's browser shows can have it
  fetch an address over the air, by an image with the client's own URL.\<close>

lemma foreign_page_browses:
  assumes "Option.bind (req_header req ''host'') header_to_str = Some host" and "contains_host_header allow host" and "req_method req = GET"
  shows "create_router allow ''/browse'' req = Passed (Some BrowseGetRoute)"
proof -
  have "map_of routes (''/browse'', GET) = Some BrowseGetRoute" by code_simp
  with assms show ?thesis by (simp add: create_router_def security_guard_def routed_method_def)
qed

end
