(* ===== verification/Filter_Tests.thy ===== *)
theory Filter_Tests
  imports Url_Filter Host_Guard
begin

text \<open>
  The unit tests of the URL filter (\<open>server/tests/filter_test.rs\<close>) and of the host allowlist (\<open>client/src/proxy.rs\<close>) on
  the model: each lemma evaluates the definitions on the inputs of the test it is named after and states
  what the test asserts. They are no properties of the program; they check that the definitions compute what the code
  computes where its authors wrote it down. The parser of the \<open>url\<close> crate and the resolver are given by the results the
  tests rely on; the printed address in an error is the one the standard library prints.
\<close>

section \<open>\<open>server/tests/filter_test.rs\<close>\<close>

abbreviation no_dns :: resolver where "no_dns \<equiv> (\<lambda>_ _. None)"

abbreviation literal :: "bytes \<Rightarrow> Host \<Rightarrow> bytes \<Rightarrow> ParsedUrl option" where
  "literal sch host \<equiv> (\<lambda>_. Some \<lparr>scheme = sch, url_host = Some host, url_port = None\<rparr>)"

lemma test_blocked_protocols:
  "validate_url (literal ''file'' (Domain [])) None no_dns ''file:///etc/passwd'' [] = Err (BlockedProtocol ''file'')"
  by code_simp

lemma test_blocked_localhost:
  "validate_url (literal ''http'' (HostV4 (ipv4_new 127 0 0 1))) None no_dns ''http://127.0.0.1/admin'' [''127.0.0.0/8'']
     = Err (BlockedHost ''127.0.0.1'')"
  "validate_url (literal ''http'' (Domain ''localhost'')) None no_dns ''http://localhost/admin'' [''127.0.0.0/8'']
     = Err (BlockedHost ''localhost'')"
  by code_simp+

lemma test_blocked_private_ranges:
  "\<forall>(ip, blocked)\<in>set [(ipv4_new 10 0 0 1, True), (ipv4_new 172 16 0 1, True), (ipv4_new 192 168 1 1, True), (ipv4_new 8 8 8 8, False)].
     ipv4_is_blocked ip [''10.0.0.0/8'', ''172.16.0.0/12'', ''192.168.0.0/16''] = blocked"
  by code_simp

lemma test_ipv6_loopback_and_mapped_blocked:
  "map_option (\<lambda>ip. ip_is_blocked ip [''127.0.0.0/8'']) (parse_ip ''::1'') = Some True"
  "map_option (\<lambda>ip. ip_is_blocked ip [''127.0.0.0/8'']) (parse_ip ''::ffff:127.0.0.1'') = Some True"
  by code_simp+

lemma test_ipv6_ula_and_link_local_blocked:
  "map_option (\<lambda>ip. ip_is_blocked ip []) (parse_ip ''fc00::1'') = Some True"
  "map_option (\<lambda>ip. ip_is_blocked ip []) (parse_ip ''fd12:3456:789a::1'') = Some True"
  "map_option (\<lambda>ip. ip_is_blocked ip []) (parse_ip ''fe80::1'') = Some True"
  "map_option (\<lambda>ip. ip_is_blocked ip []) (parse_ip ''2606:4700::1'') = Some False"
  by code_simp+

lemma test_zero_address_blocked_by_default_range:
  "ipv4_is_blocked (ipv4_new 0 0 0 0) [''0.0.0.0/8'']"
  by code_simp

lemma resolve_and_pin_returns_ip_for_literal:
  "resolve_and_pin None no_dns ''8.8.8.8'' 443 [] = Ok (V4 (ipv4_new 8 8 8 8))"
  by code_simp

lemma resolve_and_pin_rejects_blocked_ip_literal:
  "resolve_and_pin None no_dns ''127.0.0.1'' 80 [''127.0.0.0/8''] = Err (BlockedHost ''127.0.0.1'')"
  by code_simp

lemma resolve_and_pin_rejects_localhost_by_name:
  "resolve_and_pin None no_dns ''localhost'' 80 [] = Err (BlockedHost ''localhost'')"
  by code_simp

lemma resolve_and_pin_handles_bracketed_v6:
  "resolve_and_pin None no_dns ''[::1]'' 80 [] = Err (BlockedHost ''::1'')"
  "resolve_and_pin None no_dns ''[2606:4700::1]'' 80 [] = Ok (V6 0x26064700000000000000000000000001)"
  by code_simp+

lemma resolve_and_pin_rejects_ipv4_mapped_v6_loopback:
  "resolve_and_pin None no_dns ''[::ffff:127.0.0.1]'' 80 [''127.0.0.0/8''] = Err (BlockedHost ''::ffff:127.0.0.1'')"
  by code_simp

section \<open>\<open>client/src/proxy.rs\<close>\<close>

abbreviation hosts :: "IpAddr \<Rightarrow> bytes list \<Rightarrow> bool list" where
  "hosts ip names \<equiv> map (contains_host_header (allowlist_new ip [])) names"

lemma loopback_hosts_always_allowed:
  "\<forall>ip\<in>set [V4 (ipv4_new 127 0 0 1), V4 (ipv4_new 0 0 0 0), V4 (ipv4_new 192 168 1 10)].
     list_all (contains_host_header (allowlist_new ip []))
       [''127.0.0.1'', ''127.0.0.1:8080'', ''[::1]:8080'', ''localhost'', ''localhost:8080'', ''LocalHost:9'']
     \<and> list_all (\<lambda>n. \<not> contains_host_header (allowlist_new ip []) n) [''evil.com:8080'', ''attacker.local'']"
  by code_simp

lemma extra_hostnames_added_via_constructor:
  "map (contains_host_header (allowlist_new (V4 (ipv4_new 0 0 0 0)) [''raspberrypi.local'', ''Radio.LAN'']))
     [''raspberrypi.local:8080'', ''RASPBERRYPI.LOCAL:8080'', ''radio.lan'', ''evil.com:8080''] = [True, True, True, False]"
  by code_simp

lemma bound_address_hosts:
  "hosts (V4 (ipv4_new 127 0 0 1)) [''192.168.1.10:8080'', ''10.0.0.5'', ''[fc00::1]:8080''] = [False, False, False]"
  "hosts (V4 (ipv4_new 0 0 0 0)) [''192.168.1.10:8080'', ''10.0.0.5'', ''172.16.0.1:80'', ''169.254.10.5'', ''[fc00::1]:8080'', ''[fe80::1]:8080'',
      ''8.8.8.8:8080'', ''[2606:4700::1]:8080''] = [True, True, True, True, True, True, False, False]"
  "hosts (V4 (ipv4_new 192 168 1 10)) [''192.168.1.10:8080'', ''192.168.1.11:8080'', ''127.0.0.1:8080''] = [True, False, True]"
  by code_simp+

end
