(* ===== verification/Unit_Tests.thy ===== *)
theory Unit_Tests
  imports Server_Main Client_Api "HOL-Library.Code_Target_Numeral"
begin

text \<open>
  More unit tests of the repository on the model, as in \<open>Filter_Tests\<close>: configuration, callsigns, cache control, the lines
  before the login, the wire format, the VARA codec, the local interface and the rewriter. The Unicode case
  tables act on ASCII here, the parser of HTTP dates on the two dates of the tests, and the \<open>url\<close> crate by
  \<open>sample_urls\<close>, which puts a host before a path. Numbers are evaluated as integers.
\<close>

section \<open>\<open>server/tests/session_test.rs\<close>, \<open>config_test.rs\<close>\<close>

definition upper :: "bytes \<Rightarrow> bytes" where "upper = to_ascii_uppercase"
definition lower :: "bytes \<Rightarrow> nat \<Rightarrow> bytes" where "lower s i = to_ascii_lowercase s"

lemma test_valid_callsigns:
  "\<forall>c\<in>set [''W1ABC'', ''VE3XYZ'', ''KU0HN'', ''G4ABC'', ''JA1ABC'']. validate_callsign upper c = Ok c"
  by code_simp

lemma test_invalid_callsigns:
  "\<forall>c\<in>set [[], ''123'', ''ABCDEF'', ''W'']. validate_callsign upper c = Err InvalidCallsign"
  by code_simp

lemma test_callsign_ssid_stripped:
  "validate_callsign upper ''W1ABC-1'' = Ok ''W1ABC''" "validate_callsign upper ''KU0HN-15'' = Ok ''KU0HN''"
  by code_simp+

lemma test_allowlist_accepts_non_shape_callsigns:
  "\<forall>c\<in>set [''DEMOUSR'', ''demousr'', ''DEMOUSR-3'']. validate_callsign_with_allowlist upper c [''DEMOUSR'', ''TESTOP''] = Ok ''DEMOUSR''"
  "validate_callsign_with_allowlist upper ''HELLO'' [''DEMOUSR'', ''TESTOP''] = Err InvalidCallsign"
  by code_simp+

lemma test_config_env_override:
  "let c = config_from_env upper lower (map_of
       [(''LISTEN_PORT'', ''8080''), (''IDLE_TIMEOUT_MINUTES'', ''30''), (''BROTLI_QUALITY'', ''6''),
        (''BLOCKED_RANGES'', ''192.168.1.0/24, 10.0.0.0/8''), (''BLOCKLIST_ENABLED'', ''false'')])
   in listen_port c = 8080 \<and> idle_timeout_minutes c = 30 \<and> brotli_quality c = 6
      \<and> blocked_ranges c = [''192.168.1.0/24'', ''10.0.0.0/8''] \<and> \<not> blocklist_enabled c"
  by code_simp

lemma test_config_bool_parsing:
  "\<forall>v\<in>set [''true'', ''1'', ''yes'', ''on'']. parse_env_bool lower [''K'' \<mapsto> v] ''K'' False"
  "\<forall>v\<in>set [''false'', ''0'', ''no'', ''off'']. \<not> parse_env_bool lower [''K'' \<mapsto> v] ''K'' True"
  by code_simp+

lemma test_config_invalid_env_values_use_defaults:
  "parse_env_u16 [''LISTEN_PORT'' \<mapsto> ''not_a_number''] ''LISTEN_PORT'' 63004 = 63004"
  "parse_env_u32 [''BROTLI_QUALITY'' \<mapsto> ''not_a_number''] ''BROTLI_QUALITY'' 11 = 11"
  by code_simp+

section \<open>\<open>server/src/origin_cc.rs\<close>, \<open>server/src/main.rs\<close>\<close>

definition defs :: CcDefaults where
  "defs = \<lparr>default_max_age = 3600, max_max_age = 2592000\<rparr>"

definition test_date :: "bytes \<Rightarrow> nat option" where
  "test_date s = (if s = ''Fri, 06 Nov 2026 08:50:00 GMT'' then Some 60 else if s = ''Fri, 06 Nov 2026 08:49:00 GMT'' then Some 0 else None)"

lemma cache_control_tests:
  "\<forall>(cc, age)\<in>set [(''no-store'', - 1), (''private, max-age=600'', - 1), (''no-cache'', 0), (''max-age=600'', 600),
      (''s-maxage=60, max-age=600'', 60), (''max-age=99999999'', 2592000), (''bogus!!'', 3600)].
     parse_cache_control test_date (Some cc) None None defs = Some age"
  by code_simp

lemma expires_tests:
  "parse_cache_control test_date None (Some ''Fri, 06 Nov 2026 08:50:00 GMT'') (Some ''Fri, 06 Nov 2026 08:49:00 GMT'') defs = Some 60"
  "parse_cache_control test_date None (Some ''Fri, 06 Nov 2026 08:49:00 GMT'') (Some ''Fri, 06 Nov 2026 08:50:00 GMT'') defs = Some 3600"
  "parse_cache_control test_date None None None defs = Some 3600"
  by code_simp+

lemma preauth_classifier:
  "classify_preauth_line upper (''W1TEST'' @ [LF]) ''W1TEST'' = DuplicateCallsign"
  "classify_preauth_line upper (''  w1test'' @ [CR, LF]) ''W1TEST'' = DuplicateCallsign"
  "classify_preauth_line upper (''*** Disconnected from Stream 10'' @ [CR, LF]) ''W1TEST'' = LinbpqStatus"
  "classify_preauth_line upper (''*** Connected to WEB         '' @ [CR, LF]) ''W1TEST'' = LinbpqStatus"
  "classify_preauth_line upper (''AGREE'' @ [LF]) ''W1TEST'' = Candidate"
  "classify_preauth_line upper (''DENY'' @ [LF]) ''W1TEST'' = Candidate"
  "classify_preauth_line upper [LF] ''W1TEST'' = Candidate"
  by code_simp+

section \<open>\<open>shared/src/protocol.rs\<close>\<close>

lemma test_get_request_with_if_none_match_roundtrip:
  "request_encode (Get ''https://example.com'' (Some ''aBcDeFgHiJkLmNoP''))
     = ''GET https://example.com IF-NONE-MATCH aBcDeFgHiJkLmNoP'' @ [LF]"
  "request_decode (''GET https://example.com IF-NONE-MATCH aBcDeFgHiJkLmNoP'' @ [LF])
     = Ok (Get ''https://example.com'' (Some ''aBcDeFgHiJkLmNoP''))"
  by code_simp+

lemma test_response_resyncs_past_garbage:
  "decode_header (''junk banner text'' @ CR # response_encode b64_encode \<lparr>status = StatusErr, etag = ''-'', max_age = - 1, payload = ''nope''\<rparr>)
     = Ok (Some (StatusErr, 8, ''-'', - 1, 30))"
  by code_simp

lemma decode_header_rejects_malformed_etag:
  "decode_header (''RESP0 3 aBcDeFgHiJkLmNoPq 0'' @ LF # ''abc'' @ [LF]) = Err InvalidResponse"
  "decode_header (''RESP0 3 aBcDeFgHiJk+mNoP 0'' @ LF # ''abc'' @ [LF]) = Err InvalidResponse"
  "decode_header (''RESP1 3 - -1'' @ LF # ''abc'' @ [LF]) = Ok (Some (StatusErr, 3, ''-'', - 1, 13))"
  by code_simp+

lemma test_not_modified_status_roundtrip:
  "take 30 (response_encode b64_encode \<lparr>status = StatusNotModified, etag = ''aBcDeFgHiJkLmNoP'', max_age = 3600, payload = []\<rparr>)
     = ''RESP3 0 aBcDeFgHiJkLmNoP 3600'' @ [LF]"
  by code_simp

section \<open>\<open>client/src/proxy.rs\<close>, \<open>rewrite.rs\<close>, \<open>transport/vara/codec.rs\<close>\<close>

lemma origin_authority_matches_host:
  "origin_matches_host ''http://127.0.0.1:8080'' ''127.0.0.1:8080''" "origin_matches_host ''https://raspberrypi.local'' ''raspberrypi.local''"
  "\<not> origin_matches_host ''http://evil.com'' ''127.0.0.1:8080''" "\<not> origin_matches_host ''127.0.0.1:8080'' ''127.0.0.1:8080''"
  by code_simp+

lemma effective_ttl_clamps_to_config_cap:
  "effective_ttl_secs 600 300 = 300" "effective_ttl_secs 60 300 = 60" "effective_ttl_secs 0 300 = 0" "effective_ttl_secs (- 1) 300 = 0"
  by code_simp+

lemma vara_parses_all_known_responses:
  "map parse_line [''OK'', ''PENDING'', ''DISCONNECTED'', ''BUSY DETECTED'', ''LINK REGISTERED'', ''BUFFER 42'', ''MISSING MYCALL'',
      ''REGISTERED W1TEST 2026'']
     = [VrOk, VrPending, VrDisconnected, VrBusyDetected, VrLinkRegistered, VrBuffer 42, VrMissing ''MYCALL'', VrUnknown ''REGISTERED W1TEST 2026'']"
  "parse_line ''CONNECTED W1TEST N0CALL-8'' = VrConnected ''W1TEST'' ''N0CALL-8''"
  "map parse_line [''OK'' @ [CR], ''OK'' @ [CR, LF], ''OK'' @ [LF]] = [VrOk, VrOk, VrOk]"
  by code_simp+

lemma setup_commands_emit_expected_ordering:
  "setup_commands ''W1TEST'' Fm VWide = [''MYCALL W1TEST'', ''LISTEN OFF'', ''COMPRESSION OFF'', ''VWIDE'']"
  by code_simp

definition rewritten :: "bytes \<Rightarrow> (bytes \<times> bytes) list \<Rightarrow> (bytes \<times> bytes) list option" where
  "rewritten tag attrs =
     (let el = rewrite_element css_selects (content_handlers sample_urls ()) \<lparr>el_tag = tag, el_attrs = attrs, el_removed = False\<rparr>
      in if el_removed el then None else Some (el_attrs el))"

lemma rewrite_tests:
  "rewritten ''a'' [(''href'', ''/other/page'')] = Some [(''href'', ''/browse?url=http://h/other/page'')]"
  "rewritten ''a'' [(''href'', ''#section'')] = Some [(''href'', ''#section'')]"
  "rewritten ''form'' [(''action'', ''/search'')] = Some [(''action'', ''/browse?url=http://h/search''), (''method'', ''POST'')]"
  "rewritten ''p'' [(''onclick'', ''alert(1)''), (''onerror'', ''bad()'')] = Some []"
  "rewritten ''p'' [(''style'', ''color:blue'')] = Some [(''style'', ''color:blue'')]"
  "rewritten ''meta'' [(''http-equiv'', ''refresh''), (''content'', ''0;url=https://evil'')] = None"
  "rewritten ''img'' [(''src'', ''javascript:alert(1)''), (''alt'', ''x'')] = Some [(''alt'', ''x'')]"
  "map (\<lambda>t. rewritten t []) [''script'', ''iframe'', ''object'', ''style''] = [None, None, None, Some []]"
  "rewritten ''link'' [(''rel'', ''stylesheet''), (''href'', ''style.css'')] = None"
  by code_simp+

lemma strip_link_tests:
  "rewritten ''a'' [(''href'', ''javascript:alert(1)'')] = Some [(''href'', ''#'')]"
  "rewritten ''a'' [(''href'', ''mailto:test@example.com'')] = Some [(''href'', ''#'')]"
  by code_simp+

end
