(* ===== verification/Spec2Isabelle.thy ===== *)
theory Spec2Isabelle
  imports End_To_End Server_Boot Client_Main Filter_Tests Unit_Tests
begin

text \<open>
  A verification library for packet-browser, a web browser for packet radio.

  \<^bold>\<open>The program.\<close> Two programs talk over a slow radio link. The \<^emph>\<open>client\<close> (\<open>client/src\<close>) runs at the operator's
  station: a local web interface takes the requests of the operator's browser, a page cache answers what
  it can, and an actor that owns a radio modem (AGWPE or VARA) sends the rest over the air, logs in at the
  server's node, has the operator consent to the server's disclaimer and reads the answer. The \<^emph>\<open>server\<close>
  (\<open>server/src\<close>) accepts connections from the node, lets stations log in, filters the URLs they ask for,
  loads pages in a headless browser behind a filtering proxy, and sends them compressed. Both share the
  wire format and the compression (\<open>shared/src\<close>).

  \<^bold>\<open>The library.\<close> \<open>Prelude\<close> and \<open>Rust_Str\<close> hold the types, the collections of rewrite rules and the functions of
  Rust's standard library on byte strings that the components use; \<open>Base64\<close> is RFC 4648 with the locale \<open>base64_codec\<close>.
  The components, each a theory:

  \<^item> \<open>Protocol\<close>, \<open>Compress\<close> (\<open>shared/src\<close>): requests, responses, the incremental header decoder; the size
    cap around brotli.
  \<^item> \<open>Client_Config\<close>, \<open>Client_State\<close> (\<open>config.rs\<close>, \<open>state.rs\<close>): the configuration file and command line; the shared
    state, the log ring and the consent endpoints.
  \<^item> \<open>Transport\<close> (\<open>transport/mod.rs\<close>): the transport trait as a record of operations over a world with
    a clock, TCP streams with arrival times and scripts for the operator; the contracts of a transport are
    the locales \<open>transport_contract\<close>, \<open>draining_transport\<close> and \<open>modem_contract\<close>, in which the session driver's lemmas are proved.
  \<^item> \<open>Agwpe_Frame\<close>, \<open>Agwpe\<close> (\<open>transport/agwpe.rs\<close>) and \<open>Vara\<close> (\<open>transport/vara\<close>): the two transports, each an
    interpretation of the contract, so that everything proved of the session driver holds over both.
  \<^item> \<open>Session_Driver\<close> (\<open>transport/session.rs\<close>), \<open>Manager\<close> (\<open>transport/manager.rs\<close>): the login with consent, requests and
    reconnects; the actor and its commands. \<open>Delivery\<close> runs them against a server that answers.
  \<^item> \<open>Cache\<close> (\<open>cache.rs\<close>): the page cache over an SQL engine, which is the locale \<open>sqlite\<close>; a table kept as a list
    interprets it.
  \<^item> \<open>Rewrite\<close> (\<open>rewrite.rs\<close>), \<open>Ui\<close> (\<open>ui.rs\<close>), \<open>Host_Guard\<close>, \<open>Client_Web\<close>, \<open>Client_Api\<close> (\<open>proxy.rs\<close>): the HTML rewriter, the pages,
    the gate of the local interface, browsing, and the control endpoints with the routes.
  \<^item> \<open>Client_Main\<close> (client \<open>main.rs\<close>): the client as a whole, from its start over requests through the gate to the
    handlers; its runs are a step relation.
  \<^item> \<open>Ip_Addr\<close>, \<open>Blocklist\<close>, \<open>Url_Filter\<close>, \<open>Server_Proxy\<close> (\<open>filter.rs\<close>, \<open>blocklist.rs\<close>, server \<open>proxy.rs\<close>): addresses, the domain
    lists, the URL filter and the proxy that applies it to everything the browser loads.
  \<^item> \<open>Server_Config\<close>, \<open>Server_Io\<close>, \<open>Server_Session\<close>, \<open>Origin_Cc\<close>, \<open>Browser\<close>, \<open>Server_Main\<close>, \<open>Admission\<close> (\<open>config.rs\<close>, \<open>main.rs\<close>,
    \<open>session.rs\<close>, \<open>logger.rs\<close>, \<open>origin_cc.rs\<close>, \<open>browser.rs\<close>): the server from its environment to one connection, and
    the accept loop with its two caps as a step relation. \<open>Server_Safety\<close> holds what every connection
    satisfies, \<open>End_To_End\<close> joins server and client.
  \<^item> \<open>Page_Scrub\<close> (\<open>JS_SCRUB_HTML\<close> in \<open>browser.rs\<close>): the script that cleans a loaded page, on document trees.
  \<^item> \<open>Server_Boot\<close> (server \<open>main.rs\<close>, \<open>proxy.rs\<close>): the start of the server with its proxy and blocklist, and what it
    gives every browser and every request of one.
  \<^item> \<open>Filter_Tests\<close>, \<open>Unit_Tests\<close>: unit tests of the repository, evaluated on the model, as a check of the
    definitions against the code.

  \<^bold>\<open>How it is modelled.\<close> Definitions are executable functions with the names of the source. State is passed
  explicitly in records; errors are values of \<open>'e + 'a\<close>; a call that may never return has an \<open>option\<close>
  result, and that it returns is a theorem. Time is explicit: reads take a deadline, bytes carry arrival
  times, and theorems quantify over these scripts, hence over every interleaving of operator, modem and
  network. Machine integers are words or numbers with the bound written out where the code depends on it.
  Third-party code (base64, brotli, SHA-256, SQLite, the URL and HTML parsers, serde, clap, hyper,
  WebDriver, the resolver) is an argument; what is needed of it is a named hypothesis or a locale,
  with an instance for the witnesses.

  \<^bold>\<open>What is shown.\<close> A response arrives as it was sent, whatever the framing and segmentation, and a page as the
  browser of the server rendered it; a page already fetched stays off the air while it is fresh. AGREE is sent only on the operator's
  consent to the text the server showed, a reconnect agrees to the stored text only, and a
  disconnected station is silent. Every command and every browse request is answered, every connection of the
  server ends unless the browser crashes for ever. No station browses before it agreed, no URL is
  visited and no address dialled that did not pass the filter, at most 50 connections are served, 5 of
  one address. Every browser of a server that came up is told to load through the filtering proxy, and the page it
  hands on is inert and shows the text of the page it loaded. The cache is an LRU cache within its cap. What reaches the operator's browser is
  inert, and the local interface answers its own pages only. In every run of the client the station is silent until a page of
  the client itself asks for a session, every request is answered, and the cache keeps its limits. The lemmas behind the findings show where the code does less than
  its comments say.

  \<^bold>\<open>Loops and bounds.\<close> Loops over sockets are \<open>partial_function (option)\<close>; they return because every round consumes
  input or reaches a deadline, by a rank of the transport (\<open>draining_transport\<close>) or a measure. No fuel is used.
  Caps are those of the source (response 10 MB, line 1 KB, decompressed page 10 MB, log 1000 entries, list 200).

  \<^bold>\<open>Not modelled.\<close> Shutdown of the two programs; tracing output; the asynchronous runtime beyond the actor, the
  select of the VARA transport and the accept loops; what Firefox does with its preferences; the JavaScript that
  runs in the operator's browser; the extractors of the web framework and serde; the bodies of third-party crates; the
  tests of the repository that need sockets, files or a whole HTML document.
\<close>

end
